(* ===== verification/Prelude.thy ===== *)
theory Prelude
  imports Main
begin

text \<open>
  What every component theory shares: the result of a Go call that may panic, actions that
  thread a state, lookups in association lists with the semantics of a Go map literal, and the
  collections of rules (\<open>act_simps\<close>, \<open>go_frame\<close>) the component proofs rewrite with.
\<close>

section \<open>Outcomes: a Go call returns or panics\<close>

named_theorems act_simps \<open>evaluation of actions, step by step\<close>
named_theorems go_frame \<open>what an operation leaves unchanged\<close>

datatype 'a outcome = Ret 'a | Panic string

fun is_panic :: "'a outcome \<Rightarrow> bool" where
  "is_panic (Ret _) = False"
| "is_panic (Panic _) = True"

text \<open>
  An action reads and changes a state. A panic keeps the state reached so far: a deferred
  function that recovers still sees every write made before the panic.
\<close>

type_synonym ('s, 'a) act = "'s \<Rightarrow> 'a outcome \<times> 's"

definition ret :: "'a \<Rightarrow> ('s, 'a) act" where
  "ret x s = (Ret x, s)"

definition panic :: "string \<Rightarrow> ('s, 'a) act" where
  "panic p s = (Panic p, s)"

definition bind_act :: "('s, 'a) act \<Rightarrow> ('a \<Rightarrow> ('s, 'b) act) \<Rightarrow> ('s, 'b) act" where
  "bind_act m f s =
     (case m s of
        (Ret x, s') \<Rightarrow> f x s'
      | (Panic p, s') \<Rightarrow> (Panic p, s'))"

lemma ret_apply [act_simps]: "ret x s = (Ret x, s)"
  by (simp add: ret_def)

lemma panic_apply [act_simps]: "panic p s = (Panic p, s)"
  by (simp add: panic_def)

lemma bind_act_Ret [act_simps]: "m s = (Ret x, s') \<Longrightarrow> bind_act m f s = f x s'"
  by (simp add: bind_act_def)

lemma bind_act_Panic [act_simps]: "m s = (Panic p, s') \<Longrightarrow> bind_act m f s = (Panic p, s')"
  by (simp add: bind_act_def)

lemma bind_act_eq_Ret:
  "bind_act m f s = (Ret y, t) \<longleftrightarrow> (\<exists>x s'. m s = (Ret x, s') \<and> f x s' = (Ret y, t))"
  by (auto simp: bind_act_def split: prod.splits outcome.splits)

lemma bind_act_ret_left [simp]: "bind_act (ret x) f = f x"
  by (simp add: fun_eq_iff bind_act_def ret_def)

lemma bind_act_assoc: "bind_act (bind_act m f) g = bind_act m (\<lambda>x. bind_act (f x) g)"
  by (simp add: fun_eq_iff bind_act_def split: prod.splits outcome.splits)

section \<open>Lists\<close>

lemma take_length_append_same [simp]: "take (length xs) (xs @ ys) = xs"
  by simp

lemma take_list_update_ge: "n \<le> i \<Longrightarrow> take n (xs[i := x]) = take n xs"
  by (simp add: take_update_cancel)

lemma map_of_inj_key:
  assumes "distinct (map f xs)" and "x \<in> set xs"
  shows "map_of (map (\<lambda>x. (f x, x)) xs) (f x) = Some x"
proof -
  have "distinct (map fst (map (\<lambda>x. (f x, x)) xs))"
    using assms(1) by (simp add: comp_def)
  then show ?thesis
    using assms(2) by (auto intro!: map_of_is_SomeI)
qed

lemma map_of_key_None:
  "map_of (map (\<lambda>x. (f x, x)) xs) k = None \<longleftrightarrow> k \<notin> f ` set xs"
  by (simp add: map_of_eq_None_iff image_image)

lemma map_of_key_eq:
  "map_of (map (\<lambda>x. (f x, x)) xs) k = Some y \<Longrightarrow> y \<in> set xs \<and> f y = k"
  by (auto dest: map_of_SomeD)

lemma map_of_map_filter:
  "map_of (map (\<lambda>x. (x, f x)) (filter P xs)) x = (if x \<in> set xs \<and> P x then Some (f x) else None)"
  by (induction xs) auto

lemma image_snd_map_filter: "snd ` set (map (\<lambda>x. (x, f x)) (filter P xs)) \<subseteq> f ` {x. P x}"
  by auto

lemma distinct_interleave:
  assumes "distinct b" and "distinct x" and "set x \<subseteq> set e" and "set (a @ c @ e) \<inter> set b = {}"
    and "distinct (a @ c @ e)"
  shows "distinct (a @ b @ c @ x)"
  using assms by auto

lemma disjoint_images:
  "(\<And>x y. x \<in> A \<Longrightarrow> y \<in> B \<Longrightarrow> f x \<noteq> f y) \<Longrightarrow> f ` A \<inter> f ` B = {}"
  by auto

section \<open>Integers\<close>

text \<open>Go's \<open>int64\<close>: the value kept after an operation that may overflow.\<close>

definition wrap64 :: "int \<Rightarrow> int" where
  "wrap64 x = (x + 2 ^ 63) mod 2 ^ 64 - 2 ^ 63"

lemma wrap64_id: "- (2 ^ 63) \<le> x \<Longrightarrow> x < 2 ^ 63 \<Longrightarrow> wrap64 x = x"
  by (simp add: wrap64_def)

lemma wrap64_range: "- (2 ^ 63) \<le> wrap64 x \<and> wrap64 x < 2 ^ 63"
  by (simp add: wrap64_def)

end
