(* ===== verification/Kinds.thy ===== *)
theory Kinds
  imports Strings
begin

text \<open>
  Error kinds: \<open>errors/kind.go\<close>, \<open>errors/status.go\<close> and \<open>errors/common.go\<close>, with the kinds the
  other packages register (\<open>validator/errors.go\<close>, \<open>database/errors.go\<close>, \<open>httpclient/errors.go\<close>).
  A kind is a value: the code never writes to a \<open>*Kind\<close> after it is built, it copies it
  (\<open>CustomizeStatusCode\<close>), and it compares kinds by code. The registry is two package-level
  maps, threaded explicitly.
\<close>

section \<open>Kinds\<close>

datatype kind = Kind
  (kind_name: string)
  (kind_code: string)
  (kind_description: string)
  (http_status: int)
  (kind_parent: "kind option")
  (custom_status: bool)

definition KIND_FQN_SEPARATOR :: string where
  "KIND_FQN_SEPARATOR = ''::''"

definition HTTP_STATUS_NOT_DEFINED :: int where
  "HTTP_STATUS_NOT_DEFINED = 0"

fun fqn :: "kind \<Rightarrow> string" where
  "fqn (Kind n c d s None cu) = n"
| "fqn (Kind n c d s (Some p) cu) = n @ KIND_FQN_SEPARATOR @ fqn p"

text \<open>The loop of \<open>StatusCode\<close> walks up the parents; 500 is \<open>http.StatusInternalServerError\<close>.\<close>

fun status_code :: "kind \<Rightarrow> int" where
  "status_code (Kind n c d s p cu) =
     (if s \<noteq> HTTP_STATUS_NOT_DEFINED then s
      else case p of None \<Rightarrow> 500 | Some q \<Rightarrow> status_code q)"

definition customize_status_code :: "kind \<Rightarrow> int \<Rightarrow> kind" where
  "customize_status_code k code =
     (if code \<le> 0 then k
      else case k of Kind n c d s p cu \<Rightarrow> Kind n c d code p True)"

fun kind_is :: "kind \<Rightarrow> kind \<Rightarrow> bool" where
  "kind_is (Kind n c d s p cu) other =
     (c = kind_code other \<or> (case p of None \<Rightarrow> False | Some q \<Rightarrow> kind_is q other))"

section \<open>The kinds of errors/common.go and errors/status.go\<close>

definition KindError :: kind where
  "KindError = Kind ''Error'' ''P00000''
     ''Any error that has not been mapped in the application.''
     HTTP_STATUS_NOT_DEFINED None False"

definition KindUserError :: kind where
  "KindUserError = Kind ''UserError'' ''P00001''
     ''Any error that was caused by some incorrect user action.''
     400 (Some KindError) False"

definition KindSystemError :: kind where
  "KindSystemError = Kind ''SystemError'' ''P00002''
     ''Any error that was caused by some unexpected system failure.''
     500 (Some KindError) False"

text \<open>The non-empty entries of \<open>http.StatusText\<close> (net/http), by status.\<close>

definition http_statuses :: "(int \<times> string) list" where
  "http_statuses =
    [(100, ''Continue''), (101, ''Switching Protocols''), (102, ''Processing''),
     (103, ''Early Hints''), (200, ''OK''), (201, ''Created''), (202, ''Accepted''),
     (203, ''Non-Authoritative Information''), (204, ''No Content''), (205, ''Reset Content''),
     (206, ''Partial Content''), (207, ''Multi-Status''), (208, ''Already Reported''),
     (226, ''IM Used''), (300, ''Multiple Choices''), (301, ''Moved Permanently''),
     (302, ''Found''), (303, ''See Other''), (304, ''Not Modified''), (305, ''Use Proxy''),
     (307, ''Temporary Redirect''), (308, ''Permanent Redirect''), (400, ''Bad Request''),
     (401, ''Unauthorized''), (402, ''Payment Required''), (403, ''Forbidden''),
     (404, ''Not Found''), (405, ''Method Not Allowed''), (406, ''Not Acceptable''),
     (407, ''Proxy Authentication Required''), (408, ''Request Timeout''), (409, ''Conflict''),
     (410, ''Gone''), (411, ''Length Required''), (412, ''Precondition Failed''),
     (413, ''Request Entity Too Large''), (414, ''Request URI Too Long''),
     (415, ''Unsupported Media Type''), (416, ''Requested Range Not Satisfiable''),
     (417, ''Expectation Failed''), (418, ''I'' @ [CHR 0x27] @ ''m a teapot''),
     (421, ''Misdirected Request''), (422, ''Unprocessable Entity''), (423, ''Locked''),
     (424, ''Failed Dependency''), (425, ''Too Early''), (426, ''Upgrade Required''),
     (428, ''Precondition Required''), (429, ''Too Many Requests''),
     (431, ''Request Header Fields Too Large''), (451, ''Unavailable For Legal Reasons''),
     (500, ''Internal Server Error''), (501, ''Not Implemented''), (502, ''Bad Gateway''),
     (503, ''Service Unavailable''), (504, ''Gateway Timeout''),
     (505, ''HTTP Version Not Supported''), (506, ''Variant Also Negotiates''),
     (507, ''Insufficient Storage''), (508, ''Loop Detected''), (510, ''Not Extended''),
     (511, ''Network Authentication Required'')]"

definition status_text :: "int \<Rightarrow> string" where
  "status_text s = (case map_of http_statuses s of None \<Rightarrow> [] | Some t \<Rightarrow> t)"

definition class_for_status :: "int \<Rightarrow> kind" where
  "class_for_status s = (if 400 \<le> s \<and> s < 500 then KindUserError else KindSystemError)"

definition http_kind :: "int \<Rightarrow> kind" where
  "http_kind s =
     Kind (''HTTP'' @ int_str s @ ''Error'') (''S'' @ pad_zeros 5 (int_str s))
       (status_text s) s (Some (class_for_status s)) False"

text \<open>
  \<open>buildHTTPKinds\<close>: the loop over 100 to 599 that skips a status with no text, as the list of the
  (status, kind) entries it puts in the map, in the order it puts them.
\<close>

definition build_http_kinds :: "(int \<times> kind) list" where
  "build_http_kinds =
     map (\<lambda>s. (s, http_kind s)) (filter (\<lambda>s. status_text s \<noteq> []) [100..599])"

definition http_kinds :: "int \<Rightarrow> kind option" where
  "http_kinds s = map_of build_http_kinds s"

definition kind_for_status :: "int \<Rightarrow> kind" where
  "kind_for_status s = (case http_kinds s of Some k \<Rightarrow> k | None \<Rightarrow> class_for_status s)"

definition KindInvalidRequestError :: kind where
  "KindInvalidRequestError = Kind ''InvalidRequestError'' ''C00001''
     ''The request is incorrectly formatted or has errors in the request body.''
     0 (http_kinds 400) False"

definition KindAuthError :: kind where
  "KindAuthError = Kind ''AuthError'' ''C00003''
     ''An error occurred during authentication, such as invalid credentials.''
     0 (http_kinds 401) False"

definition KindForbiddenError :: kind where
  "KindForbiddenError = Kind ''ForbiddenError'' ''C00004''
     ''The user does not have permission to access the requested resource.''
     0 (http_kinds 403) False"

definition KindNotFoundError :: kind where
  "KindNotFoundError = Kind ''NotFoundError'' ''C00005''
     ''The requested resource was not found in our system or external services.''
     0 (http_kinds 404) False"

definition KindContextError :: kind where
  "KindContextError = Kind ''ContextError'' ''C00006''
     ''An error occurred due to a problem with the context.''
     0 (Some KindSystemError) False"

definition KindContextValueNotFoundError :: kind where
  "KindContextValueNotFoundError = Kind ''ContextValueNotFoundError'' ''C00007''
     ''A required value was not found in the context.''
     0 (Some KindContextError) False"

definition KindValidationError :: kind where
  "KindValidationError = Kind ''ValidationError'' ''C00002''
     ''Some field on a form was filled incorrectly by the user or is missing.''
     0 (Some KindInvalidRequestError) False"

definition KindDatabaseRecordNotFoundError :: kind where
  "KindDatabaseRecordNotFoundError = Kind ''DatabaseRecordNotFoundError'' ''C00008''
     ''The requested database record was not found.''
     0 (Some KindNotFoundError) False"

definition KindDatabaseTransactionError :: kind where
  "KindDatabaseTransactionError = Kind ''DatabaseTransactionError'' ''C00009''
     ''An error occurred during a database transaction.''
     0 (Some (kind_for_status 500)) False"

definition KindResponseDecodeError :: kind where
  "KindResponseDecodeError = Kind ''ResponseDecodeError'' ''C10001''
     ''The request was executed correctly but the response could not be decoded.''
     0 (Some KindSystemError) False"

definition KindUnknownResponseError :: kind where
  "KindUnknownResponseError = Kind ''UnknownResponseError'' ''C10003''
     ''The request was executed correctly but the response is unknown.''
     0 (Some KindSystemError) False"

section \<open>Customising a status\<close>

lemmas kind_defs = KIND_FQN_SEPARATOR_def HTTP_STATUS_NOT_DEFINED_def

lemma customize_fields [simp]:
  "kind_name (customize_status_code k n) = kind_name k"
  "kind_code (customize_status_code k n) = kind_code k"
  "kind_description (customize_status_code k n) = kind_description k"
  "kind_parent (customize_status_code k n) = kind_parent k"
  by (simp_all add: customize_status_code_def split: kind.split)

lemma customize_fqn [simp]: "fqn (customize_status_code k n) = fqn k"
proof (cases k)
  case (Kind a b c d p e)
  then show ?thesis by (cases p) (simp_all add: customize_status_code_def)
qed

lemma customize_is [simp]: "kind_is (customize_status_code k n) other = kind_is k other"
  by (cases k) (simp add: customize_status_code_def)

lemma is_customized [simp]: "kind_is k (customize_status_code other n) = kind_is k other"
  by (induction k) (auto split: option.splits)

lemma customize_status: "0 < n \<Longrightarrow> status_code (customize_status_code k n) = n"
  by (cases k) (simp add: customize_status_code_def kind_defs)

lemma customize_nonpositive: "n \<le> 0 \<Longrightarrow> customize_status_code k n = k"
  by (simp add: customize_status_code_def)

lemma customize_custom: "0 < n \<Longrightarrow> custom_status (customize_status_code k n)"
  by (cases k) (simp add: customize_status_code_def)

lemma customize_twice:
  "0 < m \<Longrightarrow> customize_status_code (customize_status_code k n) m = customize_status_code k m"
  by (cases k) (simp add: customize_status_code_def)

section \<open>The hierarchy\<close>

lemma kind_is_refl [simp]: "kind_is k k"
  by (cases k) simp

lemma kind_is_parent: "kind_parent k = Some p \<Longrightarrow> kind_is p other \<Longrightarrow> kind_is k other"
  by (cases k) auto

lemma kind_is_code_cong: "kind_code a = kind_code b \<Longrightarrow> kind_is k a = kind_is k b"
  by (induction k) (auto split: option.splits)

text \<open>The ancestors of a kind, itself first: what the loops of \<open>Is\<close> and \<open>StatusCode\<close> visit.\<close>

fun ancestors :: "kind \<Rightarrow> kind list" where
  "ancestors (Kind n c d s None cu) = [Kind n c d s None cu]"
| "ancestors (Kind n c d s (Some p) cu) = Kind n c d s (Some p) cu # ancestors p"

lemma kind_is_ancestors: "kind_is k other \<longleftrightarrow> kind_code other \<in> kind_code ` set (ancestors k)"
  by (induction k rule: ancestors.induct) auto

lemma fqn_ancestors: "fqn k = join_with KIND_FQN_SEPARATOR (map kind_name (ancestors k))"
proof (induction k rule: ancestors.induct)
  case (1 n c d s cu)
  then show ?case by simp
next
  case (2 n c d s p cu)
  obtain x xs where "ancestors p = x # xs" by (cases p rule: ancestors.cases) auto
  with 2 show ?case by simp
qed

lemma status_code_ancestors:
  "status_code k =
     (case filter (\<lambda>a. http_status a \<noteq> 0) (ancestors k) of [] \<Rightarrow> 500 | a # _ \<Rightarrow> http_status a)"
  by (induction k rule: ancestors.induct) (auto simp: kind_defs)

lemma kind_is_trans: "kind_is a b \<Longrightarrow> kind_parent b = kind_parent b' \<Longrightarrow> kind_code b = kind_code b' \<Longrightarrow> kind_is a b'"
  using kind_is_code_cong by blast

section \<open>Statuses\<close>

lemma class_for_status_simps [simp]:
  "kind_code KindError = ''P00000''" "kind_code KindUserError = ''P00001''"
  "kind_code KindSystemError = ''P00002''"
  by (simp_all add: KindError_def KindUserError_def KindSystemError_def)

lemma status_text_range: "status_text s \<noteq> [] \<Longrightarrow> 100 \<le> s \<and> s \<le> 599"
proof -
  assume "status_text s \<noteq> []"
  then obtain t where "map_of http_statuses s = Some t"
    by (auto simp: status_text_def split: option.splits)
  then have "s \<in> fst ` set http_statuses"
    by (auto dest: map_of_SomeD intro: rev_image_eqI)
  then show ?thesis by (auto simp: http_statuses_def)
qed

lemma http_kinds_eq:
  "http_kinds s = (if status_text s \<noteq> [] then Some (http_kind s) else None)"
proof -
  have "http_kinds s =
      (if s \<in> set [100..599] \<and> status_text s \<noteq> [] then Some (http_kind s) else None)"
    unfolding http_kinds_def build_http_kinds_def by (rule map_of_map_filter)
  moreover have "s \<in> set [100..599] \<longleftrightarrow> 100 \<le> s \<and> s \<le> 599"
    unfolding set_upto by (rule atLeastAtMost_iff)
  ultimately show ?thesis
    using status_text_range [of s] by auto
qed

lemma kind_for_status_eq:
  "kind_for_status s = (if status_text s \<noteq> [] then http_kind s else class_for_status s)"
  by (simp add: kind_for_status_def http_kinds_eq)

lemma http_kind_fields [simp]:
  "kind_code (http_kind s) = ''S'' @ pad_zeros 5 (int_str s)"
  "kind_name (http_kind s) = ''HTTP'' @ int_str s @ ''Error''"
  "http_status (http_kind s) = s"
  "kind_description (http_kind s) = status_text s"
  "kind_parent (http_kind s) = Some (class_for_status s)"
  "custom_status (http_kind s) = False"
  by (simp_all add: http_kind_def)

lemma status_http_kind: "s \<noteq> 0 \<Longrightarrow> status_code (http_kind s) = s"
  by (simp add: http_kind_def kind_defs)

lemma class_status:
  "status_code (class_for_status s) = (if 400 \<le> s \<and> s < 500 then 400 else 500)"
  by (simp add: class_for_status_def KindUserError_def KindSystemError_def kind_defs)

lemma class_is_user: "kind_is (class_for_status s) KindUserError \<longleftrightarrow> 400 \<le> s \<and> s < 500"
  by (simp add: class_for_status_def KindUserError_def KindSystemError_def KindError_def)

lemma http_kind_is_user: "kind_is (http_kind s) KindUserError \<longleftrightarrow> 400 \<le> s \<and> s < 500"
  by (simp add: http_kind_def class_is_user)

lemma kind_for_status_custom [simp]: "custom_status (kind_for_status s) = False"
  by (simp add: kind_for_status_eq class_for_status_def KindUserError_def KindSystemError_def)

text \<open>
  For every standard HTTP status, KindForStatus returns a kind that reports exactly this
  status; for every other status it falls back to the class base (400 for a 4xx, else 500).
  Whatever the status, the returned kind is a user kind exactly when the status is a 4xx, and
  it is never a customised kind.
\<close>

theorem kind_for_status_correct:
  "status_code (kind_for_status s) =
     (if status_text s \<noteq> [] then s else if 400 \<le> s \<and> s < 500 then 400 else 500)
   \<and> kind_is (kind_for_status s) KindUserError = (400 \<le> s \<and> s < 500)
   \<and> \<not> custom_status (kind_for_status s)"
proof (intro conjI)
  have "status_text s \<noteq> [] \<Longrightarrow> s \<noteq> 0"
    using status_text_range [of s] by auto
  then show "status_code (kind_for_status s) =
     (if status_text s \<noteq> [] then s else if 400 \<le> s \<and> s < 500 then 400 else 500)"
    by (simp add: kind_for_status_eq status_http_kind class_status)
  show "kind_is (kind_for_status s) KindUserError = (400 \<le> s \<and> s < 500)"
    by (simp add: kind_for_status_eq http_kind_is_user class_is_user)
qed simp

end
