(* ===== verification/Registry.thy ===== *)
theory Registry
  imports Kinds
begin

text \<open>
  The global kind registry of \<open>errors/kind.go\<close>: two package-level maps, \<open>Register\<close> with its two
  panics, the three lookups, and the registrations the packages make in their \<open>init\<close> functions.
\<close>

section \<open>State and operations\<close>

record registry =
  registered_codes :: "string \<Rightarrow> kind option"
  registered_names :: "string \<Rightarrow> kind option"

definition empty_registry :: registry where
  "empty_registry = \<lparr>registered_codes = Map.empty, registered_names = Map.empty\<rparr>"

fun register :: "kind list \<Rightarrow> (registry, unit) act" where
  "register [] r = ret () r"
| "register (k # ks) r =
     (if registered_codes r (kind_code k) \<noteq> None then
        panic ''another kind with the same code was already registered'' r
      else if registered_names r (kind_name k) \<noteq> None then
        panic ''another kind with the same name was already registered'' r
      else
        register ks
          (r\<lparr>registered_codes := (registered_codes r)(kind_code k \<mapsto> k),
             registered_names := (registered_names r)(kind_name k \<mapsto> k)\<rparr>))"

definition lookup_by_code :: "registry \<Rightarrow> string \<Rightarrow> kind option" where
  "lookup_by_code r c = registered_codes r c"

definition get_by_code :: "string \<Rightarrow> (registry, kind) act" where
  "get_by_code c r =
     (case lookup_by_code r c of
        None \<Rightarrow> panic (''error kind with code `'' @ c @ ''` doesn'' @ [CHR 0x27] @ ''t exist'') r
      | Some k \<Rightarrow> ret k r)"

definition get_by_name :: "string \<Rightarrow> (registry, kind) act" where
  "get_by_name n r =
     (case registered_names r n of
        None \<Rightarrow> panic (''error kind with name `'' @ n @ ''` doesn'' @ [CHR 0x27] @ ''t exist'') r
      | Some k \<Rightarrow> ret k r)"

section \<open>The start-up registrations\<close>

text \<open>
  \<open>registerHTTPKinds\<close> ranges over a Go map, so it registers the kinds one by one in an order
  the language does not fix: the order is an argument.
\<close>

definition register_http_kinds :: "kind list \<Rightarrow> (registry, unit) act" where
  "register_http_kinds order = register order"

definition primitive_kinds :: "kind list" where
  "primitive_kinds = [KindError, KindUserError, KindSystemError]"

definition tertiary_kinds :: "kind list" where
  "tertiary_kinds =
     [KindInvalidRequestError, KindAuthError, KindForbiddenError, KindNotFoundError,
      KindContextError, KindContextValueNotFoundError]"

definition errors_init :: "kind list \<Rightarrow> (registry, unit) act" where
  "errors_init order =
     bind_act (register primitive_kinds) (\<lambda>_.
     bind_act (register_http_kinds order) (\<lambda>_.
     register tertiary_kinds))"

definition validator_init :: "(registry, unit) act" where
  "validator_init = register [KindValidationError]"

definition database_init :: "(registry, unit) act" where
  "database_init = register [KindDatabaseRecordNotFoundError, KindDatabaseTransactionError]"

definition httpclient_init :: "(registry, unit) act" where
  "httpclient_init = register [KindResponseDecodeError, KindUnknownResponseError]"

section \<open>Register, in closed form\<close>

definition fresh_for :: "registry \<Rightarrow> kind list \<Rightarrow> bool" where
  "fresh_for r ks \<longleftrightarrow>
     distinct (map kind_code ks) \<and> distinct (map kind_name ks)
     \<and> (\<forall>k\<in>set ks. registered_codes r (kind_code k) = None \<and> registered_names r (kind_name k) = None)"

definition add_kinds :: "kind list \<Rightarrow> registry \<Rightarrow> registry" where
  "add_kinds ks r =
     \<lparr>registered_codes = registered_codes r ++ map_of (map (\<lambda>k. (kind_code k, k)) ks),
      registered_names = registered_names r ++ map_of (map (\<lambda>k. (kind_name k, k)) ks)\<rparr>"

lemma add_kinds_Nil [simp]: "add_kinds [] r = r"
  by (simp add: add_kinds_def)

lemma register_append: "register (ks @ ls) r = bind_act (register ks) (\<lambda>_. register ls) r"
  by (induction ks arbitrary: r) (auto simp: bind_act_def ret_def panic_def)

lemma map_add_map_of_fresh:
  "x \<notin> fst ` set al \<Longrightarrow> m(x \<mapsto> y) ++ map_of al = (m ++ map_of al)(x \<mapsto> y)"
  by (rule map_add_upd_left) (simp add: dom_map_of_conv_image_fst)

lemma register_fresh: "fresh_for r ks \<Longrightarrow> register ks r = (Ret (), add_kinds ks r)"
proof (induction ks arbitrary: r)
  case Nil
  then show ?case by (simp add: ret_def)
next
  case (Cons k ks)
  let ?r = "r\<lparr>registered_codes := (registered_codes r)(kind_code k \<mapsto> k),
              registered_names := (registered_names r)(kind_name k \<mapsto> k)\<rparr>"
  from Cons.prems have "fresh_for ?r ks"
    by (fastforce simp: fresh_for_def image_iff)
  then have "register ks ?r = (Ret (), add_kinds ks ?r)" by (rule Cons.IH)
  moreover have "add_kinds ks ?r = add_kinds (k # ks) r"
    using Cons.prems by (simp add: add_kinds_def fresh_for_def map_add_map_of_fresh image_image)
  ultimately show ?case
    using Cons.prems by (simp add: fresh_for_def)
qed

lemma register_Ret_fresh: "register ks r = (Ret (), r') \<Longrightarrow> fresh_for r ks"
proof (induction ks arbitrary: r)
  case Nil
  then show ?case by (simp add: fresh_for_def)
next
  case (Cons k ks)
  from Cons.prems have free: "registered_codes r (kind_code k) = None"
      "registered_names r (kind_name k) = None"
    by (auto simp: panic_def split: if_splits)
  with Cons.prems have "fresh_for (r\<lparr>registered_codes := (registered_codes r)(kind_code k \<mapsto> k),
              registered_names := (registered_names r)(kind_name k \<mapsto> k)\<rparr>) ks"
    by (intro Cons.IH) simp
  with free show ?case
    by (fastforce simp: fresh_for_def image_iff split: if_splits)
qed

section \<open>The invariant\<close>

text \<open>
  Both maps hold the same kinds, each under its own code and its own name, so an identifier
  received over the wire determines one kind.
\<close>

definition reg_inv :: "registry \<Rightarrow> bool" where
  "reg_inv r \<longleftrightarrow>
     (\<forall>c k. registered_codes r c = Some k \<longrightarrow>
        kind_code k = c \<and> registered_names r (kind_name k) = Some k)
   \<and> (\<forall>n k. registered_names r n = Some k \<longrightarrow>
        kind_name k = n \<and> registered_codes r (kind_code k) = Some k)"

lemma reg_inv_empty: "reg_inv empty_registry"
  by (simp add: reg_inv_def empty_registry_def)

lemma reg_inv_insert:
  "reg_inv r \<Longrightarrow> registered_codes r (kind_code k) = None \<Longrightarrow> registered_names r (kind_name k) = None \<Longrightarrow>
   reg_inv (r\<lparr>registered_codes := (registered_codes r)(kind_code k \<mapsto> k),
              registered_names := (registered_names r)(kind_name k \<mapsto> k)\<rparr>)"
  by (fastforce simp: reg_inv_def)

lemma register_inv: "reg_inv r \<Longrightarrow> reg_inv (snd (register ks r))"
  by (induction ks arbitrary: r) (auto simp: ret_def panic_def reg_inv_insert)

lemma register_grows:
  "registered_codes r c = Some k \<Longrightarrow> registered_codes (snd (register ks r)) c = Some k"
proof (induction ks arbitrary: r)
  case Nil
  then show ?case by (simp add: ret_def)
next
  case (Cons a ks)
  show ?case
  proof (cases "registered_codes r (kind_code a) = None \<and> registered_names r (kind_name a) = None")
    case True
    with Cons.prems have "c \<noteq> kind_code a" by auto
    with True Cons show ?thesis by simp
  next
    case False
    with Cons.prems show ?thesis by (auto simp: panic_def)
  qed
qed

lemma lookup_add_kinds:
  assumes "fresh_for r ks" and "k \<in> set ks"
  shows "registered_codes (add_kinds ks r) (kind_code k) = Some k"
    and "registered_names (add_kinds ks r) (kind_name k) = Some k"
  using assms by (simp_all add: add_kinds_def fresh_for_def map_of_inj_key)

section \<open>Start-up never panics, in any order\<close>

text \<open>The kinds with a fixed identity: everything but the status kinds.\<close>

definition library_kinds :: "kind list" where
  "library_kinds =
     [KindValidationError, KindDatabaseRecordNotFoundError, KindDatabaseTransactionError,
      KindResponseDecodeError, KindUnknownResponseError]"

abbreviation fixed_kinds :: "kind list" where
  "fixed_kinds \<equiv> primitive_kinds @ tertiary_kinds @ library_kinds"

lemmas fixed_kind_defs =
  primitive_kinds_def tertiary_kinds_def library_kinds_def
  KindError_def KindUserError_def KindSystemError_def KindInvalidRequestError_def
  KindAuthError_def KindForbiddenError_def KindNotFoundError_def KindContextError_def
  KindContextValueNotFoundError_def KindValidationError_def KindDatabaseRecordNotFoundError_def
  KindDatabaseTransactionError_def KindResponseDecodeError_def KindUnknownResponseError_def

lemma fixed_codes_distinct: "distinct (map kind_code fixed_kinds)"
  by (simp add: fixed_kind_defs)

lemma fixed_names_distinct: "distinct (map kind_name fixed_kinds)"
  by (simp add: fixed_kind_defs)

lemma fixed_not_http:
  "k \<in> set fixed_kinds \<Longrightarrow>
   (case kind_code k of [] \<Rightarrow> False | c # _ \<Rightarrow> c \<noteq> CHR ''S'') \<and> \<not> has_prefix (kind_name k) ''HTTP''"
  by (auto simp: fixed_kind_defs)

definition http_kind_set :: "kind set" where
  "http_kind_set = snd ` set build_http_kinds"

lemma http_kind_set_eq: "http_kind_set = http_kind ` {s. status_text s \<noteq> []}"
proof
  show "http_kind_set \<subseteq> http_kind ` {s. status_text s \<noteq> []}"
    unfolding http_kind_set_def build_http_kinds_def by (rule image_snd_map_filter)
next
  show "http_kind ` {s. status_text s \<noteq> []} \<subseteq> http_kind_set"
  proof
    fix k assume "k \<in> http_kind ` {s. status_text s \<noteq> []}"
    then obtain s where s: "status_text s \<noteq> []" "k = http_kind s" by blast
    then have "http_kinds s = Some k" by (simp add: http_kinds_eq)
    then have "(s, k) \<in> set build_http_kinds" by (simp add: http_kinds_def map_of_SomeD)
    then show "k \<in> http_kind_set" by (force simp: http_kind_set_def)
  qed
qed

lemma int_str_inj: "0 \<le> s \<Longrightarrow> 0 \<le> t \<Longrightarrow> int_str s = int_str t \<longleftrightarrow> s = t"
  by (auto simp: int_str_def nat_str_inj)

lemma pad_int_str_inj:
  "0 \<le> s \<Longrightarrow> 0 \<le> t \<Longrightarrow> pad_zeros w (int_str s) = pad_zeros w (int_str t) \<longleftrightarrow> s = t"
  by (auto simp: int_str_def pad_zeros_inj)

lemma http_kind_inj:
  "inj_on kind_code http_kind_set" "inj_on kind_name http_kind_set"
  by (auto simp: inj_on_def http_kind_set_eq int_str_inj pad_int_str_inj dest!: status_text_range)

lemma http_kind_ids:
  "k \<in> http_kind_set \<Longrightarrow>
   (\<exists>cs. kind_code k = CHR ''S'' # cs) \<and> has_prefix (kind_name k) ''HTTP''"
  by (auto simp: http_kind_set_eq)

lemma fixed_http_neq:
  assumes "k \<in> set fixed_kinds" and "h \<in> http_kind_set"
  shows "kind_code k \<noteq> kind_code h" and "kind_name k \<noteq> kind_name h"
proof -
  obtain cs where h: "kind_code h = CHR ''S'' # cs" "has_prefix (kind_name h) ''HTTP''"
    using http_kind_ids [OF assms(2)] by blast
  show "kind_code k \<noteq> kind_code h"
    using fixed_not_http [OF assms(1)] h(1) by (cases "kind_code k") auto
  show "kind_name k \<noteq> kind_name h"
    using fixed_not_http [OF assms(1)] h(2) by metis
qed

lemma startup_fresh:
  assumes order: "distinct order" "set order = http_kind_set"
    and extra: "distinct extra" "set extra \<subseteq> set library_kinds"
  shows "fresh_for empty_registry (primitive_kinds @ order @ tertiary_kinds @ extra)"
proof -
  have part: "distinct (map f (primitive_kinds @ order @ tertiary_kinds @ extra))"
    if d: "distinct (map f fixed_kinds)" and h: "inj_on f http_kind_set"
      and sep: "f ` set fixed_kinds \<inter> f ` http_kind_set = {}" for f :: "kind \<Rightarrow> string"
  proof -
    from d have "distinct (map f library_kinds)" by simp
    then have "inj_on f (set extra)"
      using extra(2) by (auto simp: distinct_map intro: inj_on_subset)
    then have "distinct (map f extra)" by (simp add: distinct_map extra(1))
    moreover have "distinct (map f order)" using h order by (simp add: distinct_map)
    moreover have "set (map f extra) \<subseteq> set (map f library_kinds)" using extra(2) by auto
    moreover have "set (map f (primitive_kinds @ tertiary_kinds @ library_kinds)) \<inter> set (map f order) = {}"
      using sep order(2) by (simp add: image_Un)
    ultimately show ?thesis
      using d unfolding map_append by (intro distinct_interleave)
  qed
  have "kind_code ` set fixed_kinds \<inter> kind_code ` http_kind_set = {}"
    by (rule disjoint_images) (rule fixed_http_neq)
  moreover have "kind_name ` set fixed_kinds \<inter> kind_name ` http_kind_set = {}"
    by (rule disjoint_images) (rule fixed_http_neq)
  ultimately show ?thesis
    using part [OF fixed_codes_distinct http_kind_inj(1)] part [OF fixed_names_distinct http_kind_inj(2)]
    by (simp add: fresh_for_def empty_registry_def)
qed

text \<open>
  C35: Start-up registration succeeds. Whatever order the range over the map of status kinds
  takes, and whichever of the library's other packages are linked in, in whatever order their
  init functions run, no Register call panics; every kind is then found under its code and under
  its name, and the registry satisfies its invariant.
\<close>

theorem startup_registers_all_kinds:
  assumes "distinct order" and "set order = snd ` set build_http_kinds"
    and "distinct extra" and "set extra \<subseteq> set library_kinds"
  shows "\<exists>r. bind_act (errors_init order) (\<lambda>_. register extra) empty_registry = (Ret (), r)
    \<and> reg_inv r
    \<and> (\<forall>k \<in> set (primitive_kinds @ order @ tertiary_kinds @ extra).
          lookup_by_code r (kind_code k) = Some k \<and> get_by_name (kind_name k) r = (Ret k, r))"
proof -
  let ?all = "primitive_kinds @ order @ tertiary_kinds @ extra"
  let ?r = "add_kinds ?all empty_registry"
  have fresh: "fresh_for empty_registry ?all"
    using assms startup_fresh by (simp add: http_kind_set_def)
  then have run: "register ?all empty_registry = (Ret (), ?r)" by (rule register_fresh)
  then have "reg_inv ?r"
    using register_inv [OF reg_inv_empty, of ?all] by simp
  moreover have "bind_act (errors_init order) (\<lambda>_. register extra) empty_registry = (Ret (), ?r)"
    using run by (simp add: errors_init_def register_http_kinds_def bind_act_assoc
        register_append [abs_def])
  ultimately show ?thesis
    using lookup_add_kinds [OF fresh]
    by (auto simp: lookup_by_code_def get_by_name_def ret_def)
qed

lemma distinct_http_kinds: "distinct (map snd build_http_kinds)"
proof -
  have "map snd build_http_kinds = map http_kind (filter (\<lambda>s. status_text s \<noteq> []) [100..599])"
    by (simp add: build_http_kinds_def comp_def del: upto_rec_numeral)
  moreover have "inj_on http_kind (set (filter (\<lambda>s. status_text s \<noteq> []) [100..599]))"
    by (rule inj_onI) (metis http_kind_fields(3))
  moreover have "distinct (filter (\<lambda>s. status_text s \<noteq> []) [100..599])"
    by (intro distinct_filter distinct_upto)
  ultimately show ?thesis
    by (simp only: distinct_map)
qed

theorem startup_registers_all_kinds_witness:
  "\<exists>r. bind_act (errors_init (map snd build_http_kinds)) (\<lambda>_. register library_kinds) empty_registry
        = (Ret (), r)
     \<and> lookup_by_code r (kind_code KindAuthError) = Some KindAuthError
     \<and> get_by_name (kind_name KindValidationError) r = (Ret KindValidationError, r)"
proof -
  have l: "distinct library_kinds"
    using fixed_codes_distinct by (simp add: distinct_map)
  have s: "set (map snd build_http_kinds) = snd ` set build_http_kinds"
    by (rule set_map)
  have auth: "KindAuthError \<in> set (primitive_kinds @ map snd build_http_kinds @ tertiary_kinds @ library_kinds)"
    by (simp add: tertiary_kinds_def)
  have val: "KindValidationError \<in> set (primitive_kinds @ map snd build_http_kinds @ tertiary_kinds @ library_kinds)"
    by (simp add: library_kinds_def)
  show ?thesis
    using startup_registers_all_kinds [OF distinct_http_kinds s l subset_refl] auth val by blast
qed

end
