(* ===== verification/Heap.thy ===== *)
theory Heap
  imports Registry
begin

text \<open>
  The memory the errors package shares between errors. Propagating an error copies the reference
  to its details map, the header of its reverse-trace slice and the reference to its context map
  (\<open>ErrorT.wrap\<close>), so two errors can share one map and one backing array. The world holds these
  objects by address, next to the global registry and what the Go runtime supplies (how
  \<open>append\<close> grows a slice, which frames \<open>runtime.Caller\<close> reports at a call site).
\<close>

type_synonym addr = nat

text \<open>
  Values of type \<open>any\<close> stored in details and context maps. A \<open>map[string]string\<close> is shared by
  reference (the validator's messages); every other value is stored and never written to.
\<close>

datatype gval =
    VNil
  | VInt int
  | VBool bool
  | VStr string
  | VStrMap addr
  | VList "gval list"
  | VObj "(string \<times> gval) list"

text \<open>A slice header: backing array, length and capacity. Every slice here starts at index 0.\<close>

datatype slice = NilSlice | Slice addr nat nat

text \<open>A stack frame as \<open>runtime.Caller\<close> and \<open>runtime.FuncForPC\<close> report it.\<close>

record frame =
  fr_file :: string
  fr_line :: nat
  fr_name :: string
  fr_known :: bool

text \<open>The mutable fields of an \<open>ErrorT\<close>: \<open>Details\<close> and the three of \<open>Troubleshooting\<close>.\<close>

record cell =
  cell_details :: "addr option"
  cell_rtrace :: slice
  cell_stack :: string
  cell_context :: "addr option"

definition empty_cell :: cell where
  "empty_cell = \<lparr>cell_details = None, cell_rtrace = NilSlice, cell_stack = [], cell_context = None\<rparr>"

record world =
  next_addr :: addr
  cells :: "addr \<Rightarrow> cell"
  details_maps :: "addr \<Rightarrow> string \<Rightarrow> gval option"
  str_maps :: "addr \<Rightarrow> string \<Rightarrow> string option"
  arrays :: "addr \<Rightarrow> string list"
  context_maps :: "addr \<Rightarrow> string \<Rightarrow> (string \<Rightarrow> gval option) option"
  kinds_reg :: registry
  grow_cap :: "nat \<Rightarrow> nat"
  stack_at :: "string \<Rightarrow> frame list"

text \<open>
  Go's growth rule for appending one element: double the capacity, and by a quarter from 256 on.
  It is exact while the doubled size is an allocator size class, which holds for strings up to
  256 elements. The theorems use only that the capacity grows.
\<close>

definition go_grow :: "nat \<Rightarrow> nat" where
  "go_grow c = (if c = 0 then 1 else if c < 256 then 2 * c else c + (c + 768) div 4)"

definition init_world :: "registry \<Rightarrow> (string \<Rightarrow> frame list) \<Rightarrow> world" where
  "init_world reg st =
     \<lparr>next_addr = 0, cells = (\<lambda>_. empty_cell), details_maps = (\<lambda>_. Map.empty),
      str_maps = (\<lambda>_. Map.empty), arrays = (\<lambda>_. []), context_maps = (\<lambda>_. Map.empty),
      kinds_reg = reg, grow_cap = go_grow, stack_at = st\<rparr>"

section \<open>Slices of strings\<close>

fun slice_len :: "slice \<Rightarrow> nat" where
  "slice_len NilSlice = 0"
| "slice_len (Slice a n c) = n"

definition slice_elems :: "world \<Rightarrow> slice \<Rightarrow> string list" where
  "slice_elems w s = (case s of NilSlice \<Rightarrow> [] | Slice a n c \<Rightarrow> take n (arrays w a))"

text \<open>
  \<open>append(s, x)\<close>: with spare capacity the element is written into the shared backing array,
  otherwise the elements move to a fresh one.
\<close>

definition fresh_array :: "string list \<Rightarrow> string \<Rightarrow> nat \<Rightarrow> world \<Rightarrow> slice \<times> world" where
  "fresh_array xs x c w =
     (let a = next_addr w; n = length xs in
      (Slice a (Suc n) c,
       w\<lparr>next_addr := Suc a,
         arrays := (arrays w)(a := xs @ [x] @ replicate (c - Suc n) [])\<rparr>))"

definition slice_append :: "slice \<Rightarrow> string \<Rightarrow> world \<Rightarrow> slice \<times> world" where
  "slice_append s x w =
     (case s of
        NilSlice \<Rightarrow> fresh_array [] x (grow_cap w 0) w
      | Slice a n c \<Rightarrow>
          if n < c then (Slice a (Suc n) c, w\<lparr>arrays := (arrays w)(a := (arrays w a)[n := x])\<rparr>)
          else fresh_array (take n (arrays w a)) x (grow_cap w c) w)"

section \<open>Well-formed worlds\<close>

definition slice_ok :: "world \<Rightarrow> slice \<Rightarrow> bool" where
  "slice_ok w s =
     (case s of NilSlice \<Rightarrow> True
      | Slice a n c \<Rightarrow> a < next_addr w \<and> n \<le> c \<and> length (arrays w a) = c)"

definition ref_ok :: "world \<Rightarrow> addr option \<Rightarrow> bool" where
  "ref_ok w p = (case p of None \<Rightarrow> True | Some a \<Rightarrow> a < next_addr w)"

definition cell_ok :: "world \<Rightarrow> cell \<Rightarrow> bool" where
  "cell_ok w c \<longleftrightarrow>
     ref_ok w (cell_details c) \<and> slice_ok w (cell_rtrace c) \<and> ref_ok w (cell_context c)"

definition wf_world :: "world \<Rightarrow> bool" where
  "wf_world w \<longleftrightarrow> (\<forall>a. cell_ok w (cells w a)) \<and> (\<forall>n. n < grow_cap w n)"

lemma go_grow_grows: "n < go_grow n"
  by (auto simp: go_grow_def)

lemma wf_init_world: "wf_world (init_world reg st)"
  by (simp add: wf_world_def init_world_def cell_ok_def empty_cell_def ref_ok_def slice_ok_def
      go_grow_grows)

lemma wf_cell: "wf_world w \<Longrightarrow> cell_ok w (cells w a)"
  by (simp add: wf_world_def)

lemma wf_grow: "wf_world w \<Longrightarrow> n < grow_cap w n"
  by (simp add: wf_world_def)

lemma ref_ok_mono: "ref_ok w p \<Longrightarrow> next_addr w \<le> next_addr w' \<Longrightarrow> ref_ok w' p"
  by (auto simp: ref_ok_def split: option.splits)

lemma slice_ok_mono:
  assumes "slice_ok w s" and "next_addr w \<le> next_addr w'"
    and "\<And>a. a < next_addr w \<Longrightarrow> length (arrays w' a) = length (arrays w a)"
  shows "slice_ok w' s"
  using assms by (auto simp: slice_ok_def split: slice.splits)

lemma cell_ok_mono:
  assumes "cell_ok w c" and "next_addr w \<le> next_addr w'"
    and "\<And>a. a < next_addr w \<Longrightarrow> length (arrays w' a) = length (arrays w a)"
  shows "cell_ok w' c"
  using assms slice_ok_mono ref_ok_mono by (auto simp: cell_ok_def)

text \<open>Appending, in one step: the slice and what the heap keeps.\<close>

lemma slice_append_frame [go_frame]:
  assumes "slice_append s x w = (s', w')"
  shows "cells w' = cells w" "details_maps w' = details_maps w" "str_maps w' = str_maps w"
    "context_maps w' = context_maps w" "kinds_reg w' = kinds_reg w" "grow_cap w' = grow_cap w"
    "stack_at w' = stack_at w" "next_addr w \<le> next_addr w'"
  using assms
  by (auto simp: slice_append_def fresh_array_def Let_def split: slice.splits if_splits)

lemma slice_append_elems:
  assumes "slice_append s x w = (s', w')" and "slice_ok w s" and "\<And>n. n < grow_cap w n"
  shows "slice_elems w' s' = slice_elems w s @ [x]" and "slice_ok w' s'"
    and "slice_len s' = Suc (slice_len s)"
    and "\<And>a. a < next_addr w \<Longrightarrow> length (arrays w' a) = length (arrays w a)"
proof -
  have grow: "Suc (grow_cap w n - Suc 0) = grow_cap w n" for n
    using assms(3) [of n] by simp
  show "slice_elems w' s' = slice_elems w s @ [x]" and "slice_ok w' s'"
    and "slice_len s' = Suc (slice_len s)"
    and "\<And>a. a < next_addr w \<Longrightarrow> length (arrays w' a) = length (arrays w a)"
    using assms(1,2) assms(3)
    by (auto simp: slice_append_def fresh_array_def slice_elems_def slice_ok_def Let_def grow
        take_Suc_conv_app_nth Suc_le_eq split: slice.splits if_splits)
qed

text \<open>
  The elements of another slice survive an append unless that slice is longer and lies on the
  same backing array.
\<close>

definition clear_of :: "slice \<Rightarrow> slice \<Rightarrow> bool" where
  "clear_of t s =
     (case t of NilSlice \<Rightarrow> True
      | Slice b m _ \<Rightarrow>
          (case s of NilSlice \<Rightarrow> True | Slice a n _ \<Rightarrow> b \<noteq> a \<or> m \<le> n))"

lemma clear_of_refl [simp]: "clear_of s s"
  by (simp add: clear_of_def split: slice.split)

lemma slice_append_clear:
  assumes "slice_append s x w = (s', w')" and "slice_ok w t" and "clear_of t s"
  shows "slice_elems w' t = slice_elems w t" and "clear_of t s'"
  using assms
  by (auto simp: slice_append_def fresh_array_def slice_elems_def slice_ok_def clear_of_def Let_def
      split: slice.splits if_splits)

end
