(* ===== verification/Errors.thy ===== *)
theory Errors
  imports Heap
begin

text \<open>
  The error values of the errors package and everything that builds and inspects them:
  \<open>errors/errors.go\<close>, \<open>field.go\<close>, \<open>entry.go\<close>, \<open>set.go\<close>, \<open>context.go\<close>, \<open>hint.go\<close>, \<open>details.go\<close>,
  \<open>stacktrace.go\<close>, \<open>revtrace.go\<close>, \<open>headless.go\<close>, \<open>template.go\<close> and \<open>utils.go\<close>.
\<close>

section \<open>Errors\<close>

text \<open>
  The interface \<open>error\<close>. Of an \<open>*ErrorT\<close>, the fields the package never writes after construction
  (kind, message, cause, origin) are in the value; the mutable ones (\<open>Details\<close>,
  \<open>Troubleshooting\<close>) are in the heap cell it points to. Errors from outside are a dynamic type, a
  text, the code they expose when they implement \<open>KindCoder\<close>, and what their \<open>Unwrap\<close> returns:
  one error or none, or the list of an error joined from several. A nil error is \<open>None\<close> of type
  \<open>gerror option\<close>. A typed nil pointer inside an interface is not modelled.
\<close>

datatype gerror =
    ErrorT kind string "gerror option" "gerror option" addr
  | HeadlessErrorT string
  | ForeignErr string string "string option" "gerror option"
  | JoinedErr string "gerror list"

definition new_headless_error :: "string \<Rightarrow> gerror option" where
  "new_headless_error code = (if code = [] then None else Some (HeadlessErrorT code))"

fun unwrap :: "gerror \<Rightarrow> gerror option" where
  "unwrap (ErrorT k m c o' a) = c"
| "unwrap (ForeignErr t m code c) = c"
| "unwrap _ = None"

fun error_text :: "gerror \<Rightarrow> string" where
  "error_text (ErrorT k m None o' a) = m"
| "error_text (ErrorT k m (Some c) o' a) = m @ '': '' @ error_text c"
| "error_text (HeadlessErrorT code) = code"
| "error_text (ForeignErr t m code c) = m"
| "error_text (JoinedErr m es) = m"

text \<open>\<open>KindCoder\<close> is implemented by \<open>*ErrorT\<close> and \<open>*HeadlessErrorT\<close>.\<close>

definition code_of :: "gerror option \<Rightarrow> string" where
  "code_of err =
     (case err of
        None \<Rightarrow> []
      | Some (ErrorT k m c o' a) \<Rightarrow> kind_code k
      | Some (HeadlessErrorT code) \<Rightarrow> code
      | Some (ForeignErr t m (Some code) c) \<Rightarrow> code
      | Some _ \<Rightarrow> [])"

section \<open>The caller\<close>

text \<open>
  \<open>findCaller\<close>, on the frames \<open>runtime.Caller(1)\<close>, \<open>runtime.Caller(2)\<close>, ... report: the first
  frame names the package, the result is the first known frame whose function name does not
  start with it.
\<close>

fun first_outside :: "string \<Rightarrow> frame list \<Rightarrow> frame option" where
  "first_outside pkg [] = None"
| "first_outside pkg (f # fs) =
     (if \<not> fr_known f then first_outside pkg fs
      else if \<not> has_prefix (fr_name f) pkg then Some f
      else first_outside pkg fs)"

definition caller_package :: "frame list \<Rightarrow> string" where
  "caller_package fs =
     (case fs of
        [] \<Rightarrow> []
      | f # _ \<Rightarrow>
          if fr_known f then
            (case before_last (CHR ''.'') (fr_name f) of None \<Rightarrow> [] | Some p \<Rightarrow> p)
          else [])"

definition find_caller :: "frame list \<Rightarrow> frame option" where
  "find_caller fs = first_outside (caller_package fs) fs"

definition rev_trace_text :: "frame list \<Rightarrow> string" where
  "rev_trace_text fs =
     (case find_caller fs of
        None \<Rightarrow> ''[unknown:0] unknown''
      | Some f \<Rightarrow> ''['' @ fr_file f @ '':'' @ nat_str (fr_line f) @ ''] '' @ fr_name f)"

section \<open>Entries, sets and contexts\<close>

record field_entry =
  field_key :: string
  field_value :: gval

definition Field :: "string \<Rightarrow> gval \<Rightarrow> field_entry" where
  "Field k v = \<lparr>field_key = k, field_value = v\<rparr>"

text \<open>\<open>FieldT.Insert\<close> returns its receiver: merging keeps the entry that is already there.\<close>

definition field_insert :: "field_entry \<Rightarrow> field_entry \<Rightarrow> field_entry" where
  "field_insert f other = f"

fun set_insert :: "field_entry list \<Rightarrow> field_entry \<Rightarrow> field_entry list" where
  "set_insert [] e = [e]"
| "set_insert (x # xs) e =
     (if field_key x = field_key e then field_insert x e # xs else x # set_insert xs e)"

definition set_extend :: "field_entry list \<Rightarrow> field_entry list \<Rightarrow> field_entry list" where
  "set_extend s es = foldl set_insert s es"

definition set_of_entries :: "field_entry list \<Rightarrow> field_entry list" where
  "set_of_entries es = set_extend [] es"

record context_t =
  ctx_caller :: string
  ctx_entries :: "field_entry list"

definition context_new :: "frame list \<Rightarrow> field_entry list \<Rightarrow> context_t" where
  "context_new fs es =
     \<lparr>ctx_caller = (case find_caller fs of None \<Rightarrow> ''unknown'' | Some f \<Rightarrow> fr_name f),
      ctx_entries = set_of_entries es\<rparr>"

definition context_add :: "context_t \<Rightarrow> field_entry list \<Rightarrow> context_t" where
  "context_add c es = c\<lparr>ctx_entries := set_extend (ctx_entries c) es\<rparr>"

text \<open>\<open>ContextT.MarshalLogObject\<close>: the caller, then every entry whose value is not nil.\<close>

definition context_log :: "context_t \<Rightarrow> (string \<times> gval) list" where
  "context_log c =
     (''function'', VStr (ctx_caller c)) #
     map (\<lambda>e. (field_key e, field_value e)) (filter (\<lambda>e. field_value e \<noteq> VNil) (ctx_entries c))"

definition REDACTION_PLACEHOLDER :: string where
  "REDACTION_PLACEHOLDER = ''****''"

definition redacted_value :: "string \<Rightarrow> string" where
  "redacted_value value =
     (let len = length value in
      if len < 5 then REDACTION_PLACEHOLDER
      else
        let visible = (if len div (3 * 2) < 1 then 1 else len div (3 * 2))
        in take visible value @ REDACTION_PLACEHOLDER @ drop (len - visible) value)"

definition redacted_string :: "string \<Rightarrow> string \<Rightarrow> field_entry" where
  "redacted_string key value = Field key (VStr (redacted_value value))"

section \<open>Options\<close>

text \<open>
  An option is a value of interface \<open>Opt\<close>: its method applied to the cell of the error. Writing
  to a nil map panics in Go.
\<close>

type_synonym opt = "addr \<Rightarrow> (world, unit) act"

definition nil_map_write :: string where
  "nil_map_write = ''assignment to entry in nil map''"

definition put_detail :: "addr \<Rightarrow> string \<Rightarrow> gval \<Rightarrow> world \<Rightarrow> world" where
  "put_detail d k v w = w\<lparr>details_maps := (details_maps w)(d := (details_maps w d)(k \<mapsto> v))\<rparr>"

definition hint_opt :: "string \<Rightarrow> opt" where
  "hint_opt msg a w =
     (case cell_details (cells w a) of
        None \<Rightarrow> panic nil_map_write w
      | Some d \<Rightarrow> ret () (put_detail d ''hint'' (VStr msg) w))"

definition alloc_details :: "addr \<Rightarrow> world \<Rightarrow> addr \<times> world" where
  "alloc_details a w =
     (let d = next_addr w in
      (d, w\<lparr>next_addr := Suc d,
            cells := (cells w)(a := (cells w a)\<lparr>cell_details := Some d\<rparr>),
            details_maps := (details_maps w)(d := Map.empty)\<rparr>))"

text \<open>\<open>Details\<close> snapshots the caller's map; its \<open>Opt\<close> creates the error's map when it is nil.\<close>

definition details_opt :: "(string \<Rightarrow> gval option) \<Rightarrow> opt" where
  "details_opt snapshot a w =
     (let (d, w') = (case cell_details (cells w a) of None \<Rightarrow> alloc_details a w | Some d \<Rightarrow> (d, w))
      in ret () (w'\<lparr>details_maps := (details_maps w')(d := details_maps w' d ++ snapshot)\<rparr>))"

definition context_outputs :: "context_t \<Rightarrow> string \<Rightarrow> gval option" where
  "context_outputs c = foldl (\<lambda>m e. m(field_key e \<mapsto> field_value e)) Map.empty (ctx_entries c)"

definition alloc_context :: "addr \<Rightarrow> world \<Rightarrow> addr \<times> world" where
  "alloc_context a w =
     (let p = next_addr w in
      (p, w\<lparr>next_addr := Suc p,
            cells := (cells w)(a := (cells w a)\<lparr>cell_context := Some p\<rparr>),
            context_maps := (context_maps w)(p := Map.empty)\<rparr>))"

definition context_opt :: "context_t \<Rightarrow> opt" where
  "context_opt c a w =
     (let (p, w') = (case cell_context (cells w a) of None \<Rightarrow> alloc_context a w | Some p \<Rightarrow> (p, w))
      in ret () (w'\<lparr>context_maps :=
           (context_maps w')(p := (context_maps w' p)(ctx_caller c \<mapsto> context_outputs c))\<rparr>))"

definition rev_trace_opt :: "string \<Rightarrow> opt" where
  "rev_trace_opt t a w =
     (let (s, w') = slice_append (cell_rtrace (cells w a)) t w
      in ret () (w'\<lparr>cells := (cells w')(a := (cells w' a)\<lparr>cell_rtrace := s\<rparr>)\<rparr>))"

definition stack_trace_opt :: "string \<Rightarrow> opt" where
  "stack_trace_opt t a w =
     ret () (w\<lparr>cells := (cells w)(a := (cells w a)\<lparr>cell_stack := t\<rparr>)\<rparr>)"

fun apply_opts :: "opt list \<Rightarrow> opt" where
  "apply_opts [] a = ret ()"
| "apply_opts (x # xs) a = bind_act (x a) (\<lambda>_. apply_opts xs a)"

definition with_opts :: "gerror \<Rightarrow> opt list \<Rightarrow> (world, gerror) act" where
  "with_opts e opts =
     (case e of ErrorT k m c o' a \<Rightarrow> bind_act (apply_opts opts a) (\<lambda>_. ret e) | _ \<Rightarrow> ret e)"

section \<open>Constructors\<close>

definition new_errort :: "kind \<Rightarrow> string \<Rightarrow> gerror option \<Rightarrow> world \<Rightarrow> gerror \<times> world" where
  "new_errort k msg origin w =
     (let a = next_addr w; d = Suc a in
      (ErrorT k msg None origin a,
       w\<lparr>next_addr := Suc d,
         cells := (cells w)(a := empty_cell\<lparr>cell_details := Some d\<rparr>),
         details_maps := (details_maps w)(d := Map.empty)\<rparr>))"

definition inherit_status_customization :: "kind \<Rightarrow> kind \<Rightarrow> kind" where
  "inherit_status_customization k cause =
     (if \<not> custom_status cause \<or> custom_status k then k
      else customize_status_code k (http_status cause))"

text \<open>
  \<open>wrap\<close>: the cell of an \<open>ErrorT\<close> holds exactly \<open>Details\<close> and \<open>Troubleshooting\<close>, and both are
  copied from the cause: the references are shared from then on.
\<close>

definition wrap_error :: "gerror \<Rightarrow> gerror \<Rightarrow> world \<Rightarrow> gerror \<times> world" where
  "wrap_error e other w =
     (case e of
        ErrorT k m c o' a \<Rightarrow>
          (case other of
             ErrorT k2 m2 c2 o2 a2 \<Rightarrow>
               (ErrorT (inherit_status_customization k k2) m (Some other) o' a,
                w\<lparr>cells := (cells w)(a := cells w a2)\<rparr>)
           | _ \<Rightarrow> (ErrorT k m (Some other) o' a, w))
      | _ \<Rightarrow> (e, w))"

definition raw_error :: "kind \<Rightarrow> string \<Rightarrow> opt list \<Rightarrow> (world, gerror) act" where
  "raw_error k msg opts w = (let (e, w') = new_errort k msg None w in with_opts e opts w')"

definition new_error :: "string \<Rightarrow> kind \<Rightarrow> string \<Rightarrow> opt list \<Rightarrow> (world, gerror) act" where
  "new_error site k msg opts w =
     raw_error k msg (opts @ [rev_trace_opt (rev_trace_text (stack_at w site))]) w"

definition from_error :: "kind \<Rightarrow> gerror option \<Rightarrow> string \<Rightarrow> opt list \<Rightarrow> (world, gerror option) act" where
  "from_error k err msg opts w =
     (case err of
        None \<Rightarrow> ret None w
      | Some c \<Rightarrow>
          let (e, w1) = new_errort k msg None w; (e', w2) = wrap_error e c w1
          in bind_act (with_opts e' opts) (\<lambda>r. ret (Some r)) w2)"

definition propagate_as ::
  "string \<Rightarrow> kind \<Rightarrow> gerror option \<Rightarrow> string \<Rightarrow> opt list \<Rightarrow> (world, gerror option) act" where
  "propagate_as site k err msg opts w =
     (case err of
        None \<Rightarrow> ret None w
      | Some c \<Rightarrow>
          from_error k err msg (opts @ [rev_trace_opt (rev_trace_text (stack_at w site))]) w)"

definition propagate ::
  "string \<Rightarrow> gerror option \<Rightarrow> string \<Rightarrow> opt list \<Rightarrow> (world, gerror option) act" where
  "propagate site err msg opts =
     (case err of
        None \<Rightarrow> ret None
      | Some (ErrorT k m c o' a) \<Rightarrow> propagate_as site k err msg opts
      | Some _ \<Rightarrow> propagate_as site KindError err msg opts)"

definition override_error ::
  "kind \<Rightarrow> gerror option \<Rightarrow> string \<Rightarrow> opt list \<Rightarrow> (world, gerror) act" where
  "override_error k origin msg opts w =
     (let (e, w') = new_errort k msg origin w in with_opts e opts w')"

definition mirror_error :: "kind \<Rightarrow> opt list \<Rightarrow> (world, gerror) act" where
  "mirror_error k opts w =
     (let (e, w') = new_errort k (kind_description k) None w in with_opts e opts w')"

definition mirror_override :: "kind \<Rightarrow> gerror option \<Rightarrow> opt list \<Rightarrow> (world, gerror) act" where
  "mirror_override k origin opts w =
     (let (e, w') = new_errort k (kind_description k) origin w in with_opts e opts w')"

record template_t =
  tmpl_kind :: kind
  tmpl_message :: string
  tmpl_opts :: "opt list"

definition template_new :: "string \<Rightarrow> template_t \<Rightarrow> opt list \<Rightarrow> (world, gerror) act" where
  "template_new site t opts = new_error site (tmpl_kind t) (tmpl_message t) (tmpl_opts t @ opts)"

definition template_propagate ::
  "string \<Rightarrow> template_t \<Rightarrow> gerror option \<Rightarrow> opt list \<Rightarrow> (world, gerror option) act" where
  "template_propagate site t err opts =
     propagate_as site (tmpl_kind t) err (tmpl_message t) (tmpl_opts t @ opts)"

section \<open>Inspection\<close>

text \<open>The errors the loops over \<open>stderrors.Unwrap\<close> visit, outermost first.\<close>

fun chain :: "gerror \<Rightarrow> gerror list" where
  "chain (ErrorT k m None o' a) = [ErrorT k m None o' a]"
| "chain (ErrorT k m (Some c) o' a) = ErrorT k m (Some c) o' a # chain c"
| "chain (ForeignErr t m code (Some c)) = ForeignErr t m code (Some c) # chain c"
| "chain e = [e]"

definition opt_chain :: "gerror option \<Rightarrow> gerror list" where
  "opt_chain err = (case err of None \<Rightarrow> [] | Some e \<Rightarrow> chain e)"

fun error_kind :: "gerror \<Rightarrow> kind option" where
  "error_kind (ErrorT k m c o' a) = Some k"
| "error_kind _ = None"

fun error_origin :: "gerror \<Rightarrow> gerror option" where
  "error_origin (ErrorT k m c o' a) = o'"
| "error_origin _ = None"

definition has_kind :: "kind \<Rightarrow> gerror \<Rightarrow> bool" where
  "has_kind k e = (case error_kind e of None \<Rightarrow> False | Some k' \<Rightarrow> kind_is k' k)"

definition as_kind :: "gerror option \<Rightarrow> kind \<Rightarrow> gerror option" where
  "as_kind err k = find (has_kind k) (opt_chain err)"

definition is_kind :: "gerror option \<Rightarrow> kind \<Rightarrow> bool" where
  "is_kind err k = (as_kind err k \<noteq> None)"

definition origin_of :: "gerror option \<Rightarrow> gerror option" where
  "origin_of err =
     (case find (\<lambda>e. error_origin e \<noteq> None) (opt_chain err) of
        None \<Rightarrow> None | Some e \<Rightarrow> error_origin e)"

definition has_origin :: "gerror \<Rightarrow> bool" where
  "has_origin e = (origin_of (Some e) \<noteq> None)"

definition origin_code_of :: "gerror option \<Rightarrow> string option" where
  "origin_code_of err =
     (case origin_of err of None \<Rightarrow> None | Some o' \<Rightarrow> Some (code_of (Some o')))"

text \<open>
  \<open>errors.As\<close> with an \<open>*ErrorT\<close> target: the first \<open>ErrorT\<close> of the error tree, depth first;
  unlike the loops above it also enters joined errors.
\<close>

fun as_errort :: "gerror \<Rightarrow> gerror option" where
  "as_errort (ErrorT k m c o' a) = Some (ErrorT k m c o' a)"
| "as_errort (HeadlessErrorT code) = None"
| "as_errort (ForeignErr t m code None) = None"
| "as_errort (ForeignErr t m code (Some c)) = as_errort c"
| "as_errort (JoinedErr m []) = None"
| "as_errort (JoinedErr m (e # es)) =
     (case as_errort e of Some r \<Rightarrow> Some r | None \<Rightarrow> as_errort (JoinedErr m es))"

definition errort_origin :: "gerror \<Rightarrow> gerror option" where
  "errort_origin e = origin_of (Some e)"

definition errort_code :: "gerror \<Rightarrow> string option" where
  "errort_code e = map_option kind_code (error_kind e)"

definition errort_description :: "gerror \<Rightarrow> string option" where
  "errort_description e = map_option kind_description (error_kind e)"

definition error_status_code :: "gerror \<Rightarrow> int option" where
  "error_status_code e = map_option status_code (error_kind e)"

definition details_of :: "world \<Rightarrow> addr \<Rightarrow> string \<Rightarrow> gval option" where
  "details_of w a = (case cell_details (cells w a) of None \<Rightarrow> Map.empty | Some d \<Rightarrow> details_maps w d)"

definition trace_of :: "world \<Rightarrow> addr \<Rightarrow> string list" where
  "trace_of w a = slice_elems w (cell_rtrace (cells w a))"

definition context_of :: "world \<Rightarrow> addr \<Rightarrow> string \<Rightarrow> (string \<Rightarrow> gval option) option" where
  "context_of w a =
     (case cell_context (cells w a) of None \<Rightarrow> Map.empty | Some p \<Rightarrow> context_maps w p)"

text \<open>The fields \<open>ErrorT.MarshalLogObject\<close> hands to the encoder, in order.\<close>

datatype log_value =
    LText string
  | LInt int
  | LDetails "string \<Rightarrow> gval option"
  | LTrouble "string list" string "string \<Rightarrow> (string \<Rightarrow> gval option) option"

definition error_log :: "world \<Rightarrow> gerror \<Rightarrow> (string \<times> log_value) list" where
  "error_log w e =
     (case e of
        ErrorT k m c o' a \<Rightarrow>
          [(''message'', LText m), (''error'', LText (error_text e)),
           (''code'', LText (kind_code k)), (''kind'', LText (fqn k)),
           (''error_status_code'', LInt (status_code k)),
           (''details'', LDetails (details_of w a)),
           (''troubleshooting'', LTrouble (trace_of w a) (cell_stack (cells w a)) (context_of w a))]
      | _ \<Rightarrow> [])"

datatype zap_field = ZapObject gerror | ZapError gerror | ZapSkip

definition zap_error :: "gerror option \<Rightarrow> zap_field" where
  "zap_error err =
     (case err of
        None \<Rightarrow> ZapSkip
      | Some e \<Rightarrow> (case as_errort e of Some g \<Rightarrow> ZapObject g | None \<Rightarrow> ZapError e))"

end
