(* ===== verification/Entries.thy ===== *)
theory Entries
  imports Errors
begin

text \<open>
  The building blocks of error context: sets of entries (\<open>errors/set.go\<close>, \<open>errors/field.go\<close>),
  what a context hands to an error, redaction, and the search for the caller
  (\<open>errors/revtrace.go\<close>).
\<close>

section \<open>Sets of entries: the first value of a key wins\<close>

lemma set_insert_keys:
  "field_key ` set (set_insert s e) = insert (field_key e) (field_key ` set s)"
  by (induction s) (auto simp: field_insert_def)

lemma set_insert_distinct:
  "distinct (map field_key s) \<Longrightarrow> distinct (map field_key (set_insert s e))"
proof (induction s)
  case Nil
  then show ?case by simp
next
  case (Cons x xs)
  then show ?case
    using set_insert_keys [of xs e] by (auto simp: field_insert_def)
qed

lemma set_insert_find:
  "find (\<lambda>x. field_key x = k) (set_insert s e) =
     (case find (\<lambda>x. field_key x = k) s of
        Some x \<Rightarrow> Some x
      | None \<Rightarrow> if field_key e = k then Some e else None)"
  by (induction s) (auto simp: field_insert_def split: option.split)

lemma set_extend_distinct:
  "distinct (map field_key s) \<Longrightarrow> distinct (map field_key (set_extend s es))"
  unfolding set_extend_def by (induction es arbitrary: s) (simp_all add: set_insert_distinct)

lemma set_extend_find:
  "find (\<lambda>x. field_key x = k) (set_extend s es) =
     (case find (\<lambda>x. field_key x = k) s of
        Some x \<Rightarrow> Some x
      | None \<Rightarrow> find (\<lambda>x. field_key x = k) es)"
  unfolding set_extend_def
  by (induction es arbitrary: s) (auto simp: set_insert_find split: option.split)

lemma foldl_upd_notin:
  "k \<notin> field_key ` set es \<Longrightarrow> foldl (\<lambda>m e. m(field_key e \<mapsto> field_value e)) m es k = m k"
  by (induction es arbitrary: m) auto

lemma find_key_notin:
  "k \<notin> field_key ` set es \<Longrightarrow> find (\<lambda>e. field_key e = k) es = None"
  by (auto simp: find_None_iff)

lemma foldl_upd_distinct:
  "distinct (map field_key es) \<Longrightarrow>
   foldl (\<lambda>m e. m(field_key e \<mapsto> field_value e)) m es k =
     (case find (\<lambda>e. field_key e = k) es of None \<Rightarrow> m k | Some e \<Rightarrow> Some (field_value e))"
proof (induction es arbitrary: m)
  case Nil
  then show ?case by simp
next
  case (Cons e es)
  then show ?case
    by (cases "k = field_key e") (simp_all add: foldl_upd_notin find_key_notin split: option.split)
qed

lemma find_of_append:
  "find P (xs @ ys) = (case find P xs of Some x \<Rightarrow> Some x | None \<Rightarrow> find P ys)"
  by (induction xs) auto

text \<open>
  What a context reports. The map an error stores for Context(entries...) after any number of
  later Add calls gives every key the value of the first entry with that key, in the order the
  entries were given: a later entry or Add never replaces an earlier value.
\<close>

theorem context_first_entry_wins:
  "context_outputs (context_add (context_new fs es) added) k =
     map_option field_value (find (\<lambda>e. field_key e = k) (es @ added))"
proof -
  let ?s = "set_extend (set_extend [] es) added"
  have "distinct (map field_key ?s)"
    by (intro set_extend_distinct) simp
  then have "context_outputs (context_add (context_new fs es) added) k =
      map_option field_value (find (\<lambda>e. field_key e = k) ?s)"
    by (simp add: context_outputs_def context_add_def context_new_def set_of_entries_def
        foldl_upd_distinct split: option.split)
  also have "find (\<lambda>e. field_key e = k) ?s = find (\<lambda>e. field_key e = k) (es @ added)"
    by (simp add: set_extend_find find_of_append split: option.split)
  finally show ?thesis .
qed

section \<open>Redaction\<close>

text \<open>
  RedactedString hides the middle of a value. A value shorter than five bytes is replaced as a
  whole; any other is shown as a prefix and a suffix of equal length around the placeholder, with
  at least three bytes hidden in between, and from six bytes on at most a third of it is shown.
\<close>

theorem redaction_hides_middle:
  "(length v < 5 \<and> redacted_value v = ''****'')
   \<or> (\<exists>p m s. v = p @ m @ s \<and> redacted_value v = p @ ''****'' @ s
        \<and> length p = length s \<and> 1 \<le> length p \<and> 3 \<le> length m
        \<and> (length v = 5 \<or> 3 * (length p + length s) \<le> length v))"
proof (cases "length v < 5")
  case True
  then show ?thesis by (simp add: redacted_value_def REDACTION_PLACEHOLDER_def)
next
  case False
  define n where "n = (if length v div 6 < 1 then 1 else length v div 6)"
  have b: "1 \<le> n" "2 * n + 3 \<le> length v" "length v = 5 \<or> 6 * n \<le> length v"
    using False by (auto simp: n_def)
  let ?p = "take n v" and ?m = "take (length v - 2 * n) (drop n v)" and ?s = "drop (length v - n) v"
  have "drop (length v - 2 * n) (drop n v) = ?s"
    using b by (simp add: drop_drop)
  then have "drop n v = ?m @ ?s" by (metis append_take_drop_id)
  then have "v = ?p @ ?m @ ?s" by (metis append_take_drop_id)
  moreover have "redacted_value v = ?p @ ''****'' @ ?s"
    using False by (simp add: redacted_value_def REDACTION_PLACEHOLDER_def Let_def n_def)
  moreover have "length ?p = n" "length ?s = n" "length ?m = length v - 2 * n" using b by auto
  ultimately show ?thesis using b by fastforce
qed

section \<open>The caller\<close>

lemma first_outside_Some:
  "first_outside pkg fs = Some f \<Longrightarrow>
   \<exists>inside rest. fs = inside @ f # rest \<and> fr_known f \<and> \<not> has_prefix (fr_name f) pkg
     \<and> (\<forall>g\<in>set inside. fr_known g \<longrightarrow> has_prefix (fr_name g) pkg)"
proof (induction fs)
  case Nil
  then show ?case by simp
next
  case (Cons g fs)
  show ?case
  proof (cases "fr_known g \<and> \<not> has_prefix (fr_name g) pkg")
    case True
    with Cons.prems show ?thesis by (intro exI [of _ "[]"] exI [of _ fs]) auto
  next
    case False
    then obtain inside rest where "fs = inside @ f # rest" "fr_known f" "\<not> has_prefix (fr_name f) pkg"
        "\<forall>g\<in>set inside. fr_known g \<longrightarrow> has_prefix (fr_name g) pkg"
      using Cons by (auto split: if_splits)
    with False show ?thesis by (intro exI [of _ "g # inside"] exI [of _ rest]) auto
  qed
qed

text \<open>
  The caller recorded in a reverse trace is outside the package. When findCaller finds a
  frame, the frame is known, its function name does not start with the package path that called
  findCaller, and every known frame between that call and it does.
\<close>

theorem find_caller_outside:
  assumes "find_caller fs = Some f"
  shows "\<exists>inside rest. fs = inside @ f # rest \<and> fr_known f
    \<and> \<not> has_prefix (fr_name f) (caller_package fs)
    \<and> (\<forall>g\<in>set inside. fr_known g \<longrightarrow> has_prefix (fr_name g) (caller_package fs))"
  using assms first_outside_Some by (simp add: find_caller_def)

definition own_frame :: frame where
  "own_frame = \<lparr>fr_file = ''revtrace.go'', fr_line = 16,
     fr_name = ''github.com/luanguimaraesla/garlic/errors.RevTrace'', fr_known = True\<rparr>"

definition app_frame :: frame where
  "app_frame = \<lparr>fr_file = ''app.go'', fr_line = 7, fr_name = ''example.com/app.Run'', fr_known = True\<rparr>"

theorem find_caller_outside_witness:
  "find_caller [own_frame, app_frame] = Some app_frame
   \<and> (\<exists>inside rest. [own_frame, app_frame] = inside @ app_frame # rest
       \<and> \<not> has_prefix (fr_name app_frame) (caller_package [own_frame, app_frame]))"
proof -
  have run: "find_caller [own_frame, app_frame] = Some app_frame" by code_simp
  with find_caller_outside [OF run] show ?thesis by blast
qed

text \<open>
  The prefix test compares names, not packages: a frame of a package whose path merely extends the
  package's path is skipped as if it were inside.
\<close>

lemma find_caller_skips_extended_path:
  "find_caller
     [own_frame, app_frame\<lparr>fr_name := ''github.com/luanguimaraesla/garlic/errors_test.Run''\<rparr>] = None"
  by code_simp

end
