(* ===== verification/Options.thy ===== *)
theory Options
  imports Errors
begin

text \<open>
  The contract of an option (interface \<open>Opt\<close>): what the constructors rely on when they run a
  list of them. Every option of the package is an instance, sequences of options are again
  options, and the constructors are characterised once for all lists of them.
\<close>

section \<open>The contract\<close>

definition same_env :: "world \<Rightarrow> world \<Rightarrow> bool" where
  "same_env w w' \<longleftrightarrow>
     grow_cap w' = grow_cap w \<and> stack_at w' = stack_at w \<and> kinds_reg w' = kinds_reg w
     \<and> next_addr w \<le> next_addr w'"

lemma same_env_refl [simp]: "same_env w w"
  by (simp add: same_env_def)

lemma same_env_trans: "same_env u v \<Longrightarrow> same_env v w \<Longrightarrow> same_env u w"
  by (auto simp: same_env_def)

text \<open>
  What an option leaves alone: the cells of other errors, the details maps other than the
  error's own, the context maps other than the error's own, and the elements of every slice
  that is clear of the error's own.
\<close>

definition opt_frame :: "addr \<Rightarrow> world \<Rightarrow> world \<Rightarrow> bool" where
  "opt_frame a w w' \<longleftrightarrow>
     (\<forall>b. b \<noteq> a \<longrightarrow> cells w' b = cells w b)
   \<and> (\<forall>p. p < next_addr w \<longrightarrow> cell_details (cells w a) \<noteq> Some p \<longrightarrow> details_maps w' p = details_maps w p)
   \<and> (\<forall>p. p < next_addr w \<longrightarrow> cell_context (cells w a) \<noteq> Some p \<longrightarrow> context_maps w' p = context_maps w p)
   \<and> (\<forall>s. slice_ok w s \<longrightarrow> clear_of s (cell_rtrace (cells w a)) \<longrightarrow>
        slice_elems w' s = slice_elems w s \<and> slice_ok w' s
        \<and> clear_of s (cell_rtrace (cells w' a)))"

text \<open>What happens to the references of the error itself: they are kept, or newly allocated.\<close>

definition ref_step :: "world \<Rightarrow> addr option \<Rightarrow> addr option \<Rightarrow> bool" where
  "ref_step w p q \<longleftrightarrow> q = p \<or> p = None \<and> (\<exists>n. q = Some n \<and> next_addr w \<le> n)"

definition own_refs :: "addr \<Rightarrow> world \<Rightarrow> world \<Rightarrow> bool" where
  "own_refs a w w' \<longleftrightarrow>
     ref_step w (cell_details (cells w a)) (cell_details (cells w' a))
   \<and> ref_step w (cell_context (cells w a)) (cell_context (cells w' a))"

text \<open>One run of an option on a well-formed world; its reverse trace only gets longer.\<close>

definition opt_step :: "addr \<Rightarrow> world \<Rightarrow> world \<Rightarrow> bool" where
  "opt_step a w w' \<longleftrightarrow>
     same_env w w' \<and> wf_world w' \<and> opt_frame a w w' \<and> own_refs a w w'
   \<and> (\<exists>ys. trace_of w' a = trace_of w a @ ys)"

lemma ref_step_trans:
  "ref_step w p q \<Longrightarrow> ref_step w' q r \<Longrightarrow> next_addr w \<le> next_addr w' \<Longrightarrow> ref_step w p r"
  by (auto simp: ref_step_def)

lemma opt_frame_trans:
  assumes "opt_frame a u v" and "opt_frame a v w" and "own_refs a u v" and "same_env u v"
  shows "opt_frame a u w"
  unfolding opt_frame_def
proof (intro conjI allI impI)
  fix b assume "b \<noteq> a"
  with assms(1,2) show "cells w b = cells u b" by (simp add: opt_frame_def)
next
  fix p assume p: "p < next_addr u" "cell_details (cells u a) \<noteq> Some p"
  with assms(3,4) have "p < next_addr v" "cell_details (cells v a) \<noteq> Some p"
    by (auto simp: own_refs_def ref_step_def same_env_def)
  with p assms(1,2) show "details_maps w p = details_maps u p" by (simp add: opt_frame_def)
next
  fix p assume p: "p < next_addr u" "cell_context (cells u a) \<noteq> Some p"
  with assms(3,4) have "p < next_addr v" "cell_context (cells v a) \<noteq> Some p"
    by (auto simp: own_refs_def ref_step_def same_env_def)
  with p assms(1,2) show "context_maps w p = context_maps u p" by (simp add: opt_frame_def)
next
  fix s assume "slice_ok u s" "clear_of s (cell_rtrace (cells u a))"
  with assms(1,2) show "slice_elems w s = slice_elems u s" "slice_ok w s"
      "clear_of s (cell_rtrace (cells w a))"
    by (simp_all add: opt_frame_def)
qed

lemma own_refs_trans: "own_refs a u v \<Longrightarrow> own_refs a v w \<Longrightarrow> same_env u v \<Longrightarrow> own_refs a u w"
  by (auto simp: own_refs_def same_env_def intro: ref_step_trans)

lemma opt_step_trans: "opt_step a u v \<Longrightarrow> opt_step a v w \<Longrightarrow> opt_step a u w"
  unfolding opt_step_def
  using same_env_trans opt_frame_trans own_refs_trans by (metis append.assoc)

lemma opt_step_refl: "wf_world w \<Longrightarrow> opt_step a w w"
  by (auto simp: opt_step_def opt_frame_def own_refs_def ref_step_def)

lemma opt_step_details:
  "opt_step a w w' \<Longrightarrow> cell_details (cells w a) = Some d \<Longrightarrow> cell_details (cells w' a) = Some d"
  by (auto simp: opt_step_def own_refs_def ref_step_def)

lemma opt_step_cells: "opt_step a w w' \<Longrightarrow> b \<noteq> a \<Longrightarrow> cells w' b = cells w b"
  by (simp add: opt_step_def opt_frame_def)

lemma opt_step_other_trace:
  assumes "opt_step a w w'" and "wf_world w" and "b \<noteq> a"
    and "clear_of (cell_rtrace (cells w b)) (cell_rtrace (cells w a))"
  shows "trace_of w' b = trace_of w b"
proof -
  have "slice_ok w (cell_rtrace (cells w b))"
    using wf_cell [OF assms(2)] by (simp add: cell_ok_def)
  with assms show ?thesis
    by (auto simp: opt_step_def opt_frame_def trace_of_def)
qed

lemma opt_step_other_details:
  assumes "opt_step a w w'" and "wf_world w" and "b \<noteq> a"
    and "cell_details (cells w a) = None \<or> cell_details (cells w b) \<noteq> cell_details (cells w a)"
  shows "details_of w' b = details_of w b"
proof -
  have "ref_ok w (cell_details (cells w b))"
    using wf_cell [OF assms(2)] by (simp add: cell_ok_def)
  with assms show ?thesis
    by (auto simp: opt_step_def opt_frame_def details_of_def ref_ok_def split: option.splits)
qed

section \<open>The contract, and sequences of options\<close>

locale garlic_opt =
  fixes opt :: "addr \<Rightarrow> (world, unit) act"
  assumes step: "wf_world w \<Longrightarrow> opt_step a w (snd (opt a w))"
    and no_panic: "wf_world w \<Longrightarrow> cell_details (cells w a) \<noteq> None \<Longrightarrow> fst (opt a w) = Ret ()"
begin

lemma returns:
  "wf_world w \<Longrightarrow> cell_details (cells w a) \<noteq> None \<Longrightarrow> opt a w = (Ret (), snd (opt a w))"
  using no_panic by (metis prod.collapse)

lemma keeps_details:
  "wf_world w \<Longrightarrow> cell_details (cells w a) = Some d \<Longrightarrow> cell_details (cells (snd (opt a w)) a) = Some d"
  using step opt_step_details by blast

lemma then_opt:
  assumes opt2: "garlic_opt opt2"
  shows "garlic_opt (\<lambda>a. bind_act (opt a) (\<lambda>_. opt2 a))"
proof
  fix w :: world and a
  assume wf: "wf_world w"
  have s1: "opt_step a w (snd (opt a w))" using wf by (rule step)
  then have wf1: "wf_world (snd (opt a w))" by (simp add: opt_step_def)
  then have "opt_step a (snd (opt a w)) (snd (opt2 a (snd (opt a w))))"
    by (rule garlic_opt.step [OF opt2])
  with s1 show "opt_step a w (snd (bind_act (opt a) (\<lambda>_. opt2 a) w))"
    by (auto simp: bind_act_def split: prod.splits outcome.splits intro: opt_step_trans)
  assume nn: "cell_details (cells w a) \<noteq> None"
  then have "cell_details (cells (snd (opt a w)) a) \<noteq> None"
    using keeps_details [OF wf] by auto
  then show "fst (bind_act (opt a) (\<lambda>_. opt2 a) w) = Ret ()"
    using returns [OF wf nn] garlic_opt.no_panic [OF opt2 wf1] by (simp add: bind_act_Ret)
qed

end

lemma garlic_opt_nop: "garlic_opt (\<lambda>a. ret ())"
  by unfold_locales (simp_all add: ret_def opt_step_refl)

definition opts_ok :: "opt list \<Rightarrow> bool" where
  "opts_ok opts \<longleftrightarrow> (\<forall>x\<in>set opts. garlic_opt x)"

lemma opts_ok_simps [simp]:
  "opts_ok []" "opts_ok (x # xs) \<longleftrightarrow> garlic_opt x \<and> opts_ok xs"
  "opts_ok (xs @ ys) \<longleftrightarrow> opts_ok xs \<and> opts_ok ys"
  by (auto simp: opts_ok_def)

lemma garlic_opt_apply: "opts_ok opts \<Longrightarrow> garlic_opt (apply_opts opts)"
proof (induction opts)
  case Nil
  have "apply_opts [] = (\<lambda>a. ret ())" by (simp add: fun_eq_iff)
  then show ?case using garlic_opt_nop by simp
next
  case (Cons x xs)
  have "apply_opts (x # xs) = (\<lambda>a. bind_act (x a) (\<lambda>_. apply_opts xs a))"
    by (simp add: fun_eq_iff)
  then show ?case using Cons by (simp add: garlic_opt.then_opt)
qed

section \<open>The writes an option makes\<close>

lemma wf_maps_update [simp]:
  "wf_world (w\<lparr>details_maps := m\<rparr>) = wf_world w"
  "wf_world (w\<lparr>context_maps := c\<rparr>) = wf_world w"
  "wf_world (w\<lparr>str_maps := s\<rparr>) = wf_world w"
  by (simp_all add: wf_world_def cell_ok_def ref_ok_def slice_ok_def cong: slice.case_cong option.case_cong)

lemma slice_simps_maps [simp]:
  "slice_elems (w\<lparr>details_maps := m\<rparr>) s = slice_elems w s"
  "slice_elems (w\<lparr>context_maps := c\<rparr>) s = slice_elems w s"
  "slice_elems (w\<lparr>str_maps := sm\<rparr>) s = slice_elems w s"
  "slice_elems (w\<lparr>cells := cs\<rparr>) s = slice_elems w s"
  "slice_elems (w\<lparr>next_addr := n\<rparr>) s = slice_elems w s"
  "slice_ok (w\<lparr>details_maps := m\<rparr>) s = slice_ok w s"
  "slice_ok (w\<lparr>context_maps := c\<rparr>) s = slice_ok w s"
  "slice_ok (w\<lparr>str_maps := sm\<rparr>) s = slice_ok w s"
  "slice_ok (w\<lparr>cells := cs\<rparr>) s = slice_ok w s"
  by (simp_all add: slice_elems_def slice_ok_def split: slice.split)

lemma slice_ok_next: "slice_ok w s \<Longrightarrow> slice_ok (w\<lparr>next_addr := Suc (next_addr w)\<rparr>) s"
  by (auto simp: slice_ok_def split: slice.splits)

lemma opt_step_put_detail:
  "wf_world w \<Longrightarrow> cell_details (cells w a) = Some d \<Longrightarrow>
   opt_step a w (w\<lparr>details_maps := (details_maps w)(d := m)\<rparr>)"
  by (auto simp: opt_step_def same_env_def opt_frame_def own_refs_def ref_step_def trace_of_def)

lemma opt_step_put_context:
  "wf_world w \<Longrightarrow> cell_context (cells w a) = Some p \<Longrightarrow>
   opt_step a w (w\<lparr>context_maps := (context_maps w)(p := m)\<rparr>)"
  by (auto simp: opt_step_def same_env_def opt_frame_def own_refs_def ref_step_def trace_of_def)

lemma wf_alloc_cell:
  assumes "wf_world w" and "cell_ok (w\<lparr>next_addr := Suc (next_addr w)\<rparr>) c"
  shows "wf_world (w\<lparr>next_addr := Suc (next_addr w), cells := (cells w)(a := c)\<rparr>)"
proof -
  have "cell_ok (w\<lparr>next_addr := Suc (next_addr w)\<rparr>) (cells w b)" for b
    using wf_cell [OF assms(1), of b] by (rule cell_ok_mono) simp_all
  with assms show ?thesis
    by (simp add: wf_world_def cell_ok_def ref_ok_def slice_ok_def cong: slice.case_cong option.case_cong)
qed

lemma opt_step_alloc_details:
  assumes "wf_world w" and "cell_details (cells w a) = None"
  shows "opt_step a w (snd (alloc_details a w))"
proof -
  have "cell_ok w (cells w a)" using assms(1) by (rule wf_cell)
  then have "cell_ok (w\<lparr>next_addr := Suc (next_addr w)\<rparr>)
      ((cells w a)\<lparr>cell_details := Some (next_addr w)\<rparr>)"
    by (auto simp: cell_ok_def ref_ok_def slice_ok_next split: option.splits)
  then have "wf_world (w\<lparr>next_addr := Suc (next_addr w),
      cells := (cells w)(a := (cells w a)\<lparr>cell_details := Some (next_addr w)\<rparr>)\<rparr>)"
    by (rule wf_alloc_cell [OF assms(1)])
  with assms(2) show ?thesis
    by (auto simp: alloc_details_def Let_def opt_step_def same_env_def opt_frame_def own_refs_def
        ref_step_def trace_of_def slice_ok_next)
qed

lemma opt_step_alloc_context:
  assumes "wf_world w" and "cell_context (cells w a) = None"
  shows "opt_step a w (snd (alloc_context a w))"
proof -
  have "cell_ok w (cells w a)" using assms(1) by (rule wf_cell)
  then have "cell_ok (w\<lparr>next_addr := Suc (next_addr w)\<rparr>)
      ((cells w a)\<lparr>cell_context := Some (next_addr w)\<rparr>)"
    by (auto simp: cell_ok_def ref_ok_def slice_ok_next split: option.splits)
  then have "wf_world (w\<lparr>next_addr := Suc (next_addr w),
      cells := (cells w)(a := (cells w a)\<lparr>cell_context := Some (next_addr w)\<rparr>)\<rparr>)"
    by (rule wf_alloc_cell [OF assms(1)])
  with assms(2) show ?thesis
    by (auto simp: alloc_context_def Let_def opt_step_def same_env_def opt_frame_def own_refs_def
        ref_step_def trace_of_def slice_ok_next)
qed

lemma wf_put_cell:
  "wf_world w \<Longrightarrow> cell_ok w c \<Longrightarrow> wf_world (w\<lparr>cells := (cells w)(a := c)\<rparr>)"
  by (simp add: wf_world_def cell_ok_def ref_ok_def slice_ok_def cong: slice.case_cong option.case_cong)

lemma opt_step_rev_trace:
  assumes "wf_world w"
  shows "opt_step a w (snd (rev_trace_opt t a w))"
    and "trace_of (snd (rev_trace_opt t a w)) a = trace_of w a @ [t]"
proof -
  obtain s v where app: "slice_append (cell_rtrace (cells w a)) t w = (s, v)" by fastforce
  have ok: "cell_ok w (cells w b)" for b using assms by (rule wf_cell)
  then have sl: "slice_ok w (cell_rtrace (cells w b))" for b by (simp add: cell_ok_def)
  note fr = slice_append_frame [OF app]
  note el = slice_append_elems [OF app sl wf_grow [OF assms]]
  let ?w = "v\<lparr>cells := (cells v)(a := (cells v a)\<lparr>cell_rtrace := s\<rparr>)\<rparr>"
  have okv: "cell_ok v (cells w b)" for b
    using ok fr(8) el(4) by (rule cell_ok_mono)
  then have "wf_world v" using assms fr by (simp add: wf_world_def)
  moreover have "cell_ok v ((cells v a)\<lparr>cell_rtrace := s\<rparr>)"
    using okv [of a] el(2) fr(1) by (simp add: cell_ok_def)
  ultimately have "wf_world ?w" by (rule wf_put_cell)
  moreover have "slice_ok v t'" if "slice_ok w t'" for t'
    using that fr(8) el(4) by (rule slice_ok_mono)
  ultimately show "opt_step a w (snd (rev_trace_opt t a w))"
    using app fr el slice_append_clear [OF app]
    by (auto simp: rev_trace_opt_def ret_def opt_step_def same_env_def opt_frame_def own_refs_def
        ref_step_def trace_of_def)
  show "trace_of (snd (rev_trace_opt t a w)) a = trace_of w a @ [t]"
    using app el by (simp add: rev_trace_opt_def ret_def trace_of_def)
qed

section \<open>Every option of the package keeps the contract\<close>

interpretation hint: garlic_opt "hint_opt msg" for msg
  by unfold_locales
     (auto simp: hint_opt_def put_detail_def ret_def panic_def opt_step_refl opt_step_put_detail
        split: option.split)

interpretation details: garlic_opt "details_opt snapshot" for snapshot
proof
  fix w :: world and a
  assume wf: "wf_world w"
  show "opt_step a w (snd (details_opt snapshot a w))"
  proof (cases "cell_details (cells w a)")
    case (Some d)
    then show ?thesis using wf by (simp add: details_opt_def ret_def opt_step_put_detail)
  next
    case None
    let ?v = "snd (alloc_details a w)"
    have st: "opt_step a w ?v" using wf None by (rule opt_step_alloc_details)
    then have "wf_world ?v" by (simp add: opt_step_def)
    moreover have "cell_details (cells ?v a) = Some (next_addr w)"
      by (simp add: alloc_details_def Let_def)
    ultimately have "opt_step a ?v (?v\<lparr>details_maps :=
        (details_maps ?v)(next_addr w := details_maps ?v (next_addr w) ++ snapshot)\<rparr>)"
      by (rule opt_step_put_detail)
    then have "opt_step a ?v (snd (details_opt snapshot a w))"
      using None by (simp add: details_opt_def ret_def alloc_details_def Let_def)
    with st show ?thesis by (rule opt_step_trans)
  qed
qed (simp add: details_opt_def ret_def split: option.split prod.split)

interpretation ectx: garlic_opt "context_opt c" for c
proof
  fix w :: world and a
  assume wf: "wf_world w"
  show "opt_step a w (snd (context_opt c a w))"
  proof (cases "cell_context (cells w a)")
    case (Some p)
    then show ?thesis using wf by (simp add: context_opt_def ret_def opt_step_put_context)
  next
    case None
    let ?v = "snd (alloc_context a w)"
    have st: "opt_step a w ?v" using wf None by (rule opt_step_alloc_context)
    then have "wf_world ?v" by (simp add: opt_step_def)
    moreover have "cell_context (cells ?v a) = Some (next_addr w)"
      by (simp add: alloc_context_def Let_def)
    ultimately have "opt_step a ?v (?v\<lparr>context_maps := (context_maps ?v)(next_addr w :=
        (context_maps ?v (next_addr w))(ctx_caller c \<mapsto> context_outputs c))\<rparr>)"
      by (rule opt_step_put_context)
    then have "opt_step a ?v (snd (context_opt c a w))"
      using None by (simp add: context_opt_def ret_def alloc_context_def Let_def)
    with st show ?thesis by (rule opt_step_trans)
  qed
qed (simp add: context_opt_def ret_def split: option.split prod.split)

interpretation rev_trace: garlic_opt "rev_trace_opt t" for t
  by unfold_locales
     (simp_all add: opt_step_rev_trace, simp add: rev_trace_opt_def ret_def split: prod.split)

lemma opt_step_stack: "wf_world w \<Longrightarrow> opt_step a w (snd (stack_trace_opt t a w))"
  using wf_put_cell [of w "(cells w a)\<lparr>cell_stack := t\<rparr>" a] wf_cell [of w a]
  by (auto simp: stack_trace_opt_def ret_def opt_step_def same_env_def opt_frame_def own_refs_def
      ref_step_def trace_of_def cell_ok_def)

interpretation stack_trace: garlic_opt "stack_trace_opt t" for t
  by unfold_locales (simp_all add: opt_step_stack, simp add: stack_trace_opt_def ret_def)

lemmas package_options [simp] =
  hint.garlic_opt_axioms details.garlic_opt_axioms ectx.garlic_opt_axioms
  rev_trace.garlic_opt_axioms stack_trace.garlic_opt_axioms

end
