(* ===== verification/Propagation.thy ===== *)
theory Propagation
  imports Options
begin

text \<open>
  What the constructors build and what they leave alone: classification and message of a
  propagated error, its reverse trace, the memory it shares with its cause, and the two ways that
  sharing shows.
\<close>

section \<open>An example world\<close>

text \<open>
  One error, at address 0, that was created and then propagated twice: its trace has three entries
  in an array of four, as Go's growth rule leaves it.
\<close>

definition sample_frames :: "string \<Rightarrow> frame list" where
  "sample_frames site =
     [\<lparr>fr_file = ''revtrace.go'', fr_line = 16, fr_name = ''garlic/errors.RevTrace'', fr_known = True\<rparr>,
      \<lparr>fr_file = ''app.go'', fr_line = 1, fr_name = ''app.'' @ site, fr_known = True\<rparr>]"

definition sample_world :: world where
  "sample_world = (init_world empty_registry sample_frames)
     \<lparr>next_addr := 3,
      cells := (\<lambda>_. empty_cell)(0 := empty_cell\<lparr>cell_details := Some 1, cell_rtrace := Slice 2 3 4\<rparr>),
      arrays := (\<lambda>_. [])(2 := [''x'', ''y'', ''z'', []])\<rparr>"

lemma sample_world_wf: "wf_world sample_world"
  by (simp add: wf_world_def sample_world_def init_world_def cell_ok_def empty_cell_def ref_ok_def
      slice_ok_def go_grow_grows)

abbreviation sample_error :: gerror where
  "sample_error \<equiv> ErrorT KindError ''m'' None None 0"

lemma sample_world_simps [simp]:
  "0 < next_addr sample_world" "cell_details (cells sample_world 0) = Some 1"
  "cell_rtrace (cells sample_world 0) = Slice 2 3 4"
  by (simp_all add: sample_world_def)

section \<open>The shape of the result\<close>

text \<open>Propagating an error whose trace has spare capacity writes into the shared array.\<close>

lemma propagate_plain_spare:
  assumes "a2 < next_addr w" and "cell_rtrace (cells w a2) = Slice r n c" and "n < c"
  shows "propagate_as site k (Some (ErrorT k2 m2 c2 o2 a2)) msg [] w =
    (Ret (Some (ErrorT (inherit_status_customization k k2) msg (Some (ErrorT k2 m2 c2 o2 a2))
        None (next_addr w))),
     w\<lparr>next_addr := Suc (Suc (next_addr w)),
       cells := (cells w)(next_addr w := (cells w a2)\<lparr>cell_rtrace := Slice r (Suc n) c\<rparr>),
       details_maps := (details_maps w)(Suc (next_addr w) := Map.empty),
       arrays := (arrays w)(r := (arrays w r)[n := rev_trace_text (stack_at w site)])\<rparr>)"
  using assms
  by (simp add: propagate_as_def from_error_def new_errort_def wrap_error_def with_opts_def
      bind_act_def ret_def rev_trace_opt_def slice_append_def Let_def)

lemma sample_propagate:
  "\<exists>e w'. propagate_as site k (Some sample_error) msg [] sample_world = (Ret (Some e), w')"
proof -
  have "(3::nat) < 4" by simp
  from propagate_plain_spare [OF sample_world_simps(1,3) this] show ?thesis by blast
qed


lemma with_opts_Ret: "with_opts e opts w = (Ret e', w') \<Longrightarrow> e' = e"
  by (auto simp: with_opts_def bind_act_def ret_def
      split: gerror.splits prod.splits outcome.splits)

lemma from_error_shape:
  assumes "from_error k (Some c) msg opts w = (Ret r, w')"
  shows "\<exists>k' a. r = Some (ErrorT k' msg (Some c) None a)
     \<and> k' = (case error_kind c of None \<Rightarrow> k | Some kc \<Rightarrow> inherit_status_customization k kc)"
  using assms
  by (cases c)
     (auto simp: from_error_def new_errort_def wrap_error_def Let_def bind_act_eq_Ret ret_def
      dest!: with_opts_Ret)

lemma propagate_as_shape:
  assumes "propagate_as site k (Some c) msg opts w = (Ret r, w')"
  shows "\<exists>k' a. r = Some (ErrorT k' msg (Some c) None a)
     \<and> k' = (case error_kind c of None \<Rightarrow> k | Some kc \<Rightarrow> inherit_status_customization k kc)"
  using assms from_error_shape by (simp add: propagate_as_def)

lemma inherit_fields [simp]:
  "kind_is (inherit_status_customization k c) q = kind_is k q"
  "kind_code (inherit_status_customization k c) = kind_code k"
  "fqn (inherit_status_customization k c) = fqn k"
  by (simp_all add: inherit_status_customization_def)

lemma inherit_self [simp]: "inherit_status_customization k k = k"
  by (simp add: inherit_status_customization_def)

lemma chain_nonempty [simp]: "chain e \<noteq> []"
  by (cases e rule: chain.cases) auto

lemma is_kind_iff: "is_kind err q \<longleftrightarrow> (\<exists>e\<in>set (opt_chain err). has_kind q e)"
  by (auto simp: is_kind_def as_kind_def find_None_iff)

lemma is_kind_ErrorT:
  "is_kind (Some (ErrorT k m c o' a)) q \<longleftrightarrow> kind_is k q \<or> is_kind c q"
  by (cases c) (auto simp: is_kind_iff opt_chain_def has_kind_def)

lemma as_kind_sound:
  "as_kind err k = Some e \<Longrightarrow> e \<in> set (opt_chain err) \<and> has_kind k e"
  by (auto simp: as_kind_def find_Some_iff)

text \<open>A kind whose status was pinned on purpose reports it; HTTPStatusCode is then positive.\<close>

definition pinned_ok :: "kind \<Rightarrow> bool" where
  "pinned_ok k \<longleftrightarrow> (custom_status k \<longrightarrow> 0 < http_status k)"

lemma pinned_status: "pinned_ok k \<Longrightarrow> custom_status k \<Longrightarrow> status_code k = http_status k"
  by (cases k) (simp add: pinned_ok_def kind_defs)

lemma pinned_customize: "pinned_ok k \<Longrightarrow> pinned_ok (customize_status_code k n)"
  by (cases k) (simp add: pinned_ok_def customize_status_code_def)

lemma inherit_status:
  assumes "pinned_ok kc"
  shows "status_code (inherit_status_customization k kc) =
    (if custom_status kc \<and> \<not> custom_status k then status_code kc else status_code k)"
proof (cases "custom_status kc \<and> \<not> custom_status k")
  case True
  then show ?thesis
    using assms pinned_status [OF assms]
    by (simp add: inherit_status_customization_def customize_status pinned_ok_def)
next
  case False
  then show ?thesis by (auto simp: inherit_status_customization_def)
qed

text \<open>
  C16: PropagateAs classifies and reports as documented. When it returns, the result wraps exactly
  the given error under the given message, Error prints "message: cause", IsKind holds for the
  kinds of the new layer and of the whole chain below, and the status is the new kind's own unless
  the cause carries a status pinned with CustomizeStatusCode and the new kind does not, in which
  case the pinned status survives. A nil error gives nil and touches nothing.
\<close>

theorem propagate_as_classifies:
  assumes "propagate_as site k err msg opts w = (Ret r, w')"
    and "\<And>kc. Option.bind err error_kind = Some kc \<Longrightarrow> pinned_ok kc"
  shows "case err of
      None \<Rightarrow> r = None \<and> w' = w
    | Some c \<Rightarrow> (\<exists>e. r = Some e \<and> unwrap e = Some c
        \<and> error_text e = msg @ '': '' @ error_text c
        \<and> (\<forall>q. is_kind (Some e) q = (kind_is k q \<or> is_kind (Some c) q))
        \<and> error_status_code e = Some (case error_kind c of
              None \<Rightarrow> status_code k
            | Some kc \<Rightarrow> if custom_status kc \<and> \<not> custom_status k then status_code kc else status_code k))"
proof (cases err)
  case None
  then show ?thesis using assms(1) by (simp add: propagate_as_def ret_def)
next
  case (Some c)
  with assms(1) obtain k' a where r: "r = Some (ErrorT k' msg (Some c) None a)"
    and k': "k' = (case error_kind c of None \<Rightarrow> k | Some kc \<Rightarrow> inherit_status_customization k kc)"
    using propagate_as_shape by blast
  have "kind_is k' q = kind_is k q" for q
    using k' by (simp split: option.split)
  with Some r k' assms(2) show ?thesis
    by (auto simp: is_kind_ErrorT error_status_code_def inherit_status split: option.split)
qed

theorem propagate_as_classifies_witness:
  "\<exists>e w'. propagate_as ''f'' KindUserError (Some sample_error) ''one'' [] sample_world = (Ret (Some e), w')
    \<and> error_text e = ''one: m'' \<and> error_status_code e = Some 400 \<and> is_kind (Some e) KindUserError"
proof -
  obtain e w' where run:
    "propagate_as ''f'' KindUserError (Some sample_error) ''one'' [] sample_world = (Ret (Some e), w')"
    using sample_propagate by blast
  have "pinned_ok kc" if "Option.bind (Some sample_error) error_kind = Some kc" for kc
    using that by (auto simp: pinned_ok_def KindError_def)
  from propagate_as_classifies [OF run this] run show ?thesis
    by (auto simp: KindUserError_def KindError_def kind_defs)
qed

text \<open>
  Propagate keeps the classification of a garlic error: the result has the very kind of the
  error it wraps (pinned status included), so no IsKind question changes its answer and the
  reported status is the same; any other error becomes KindError, an unmapped one.
\<close>

theorem propagate_keeps_kind:
  assumes "propagate site (Some c) msg opts w = (Ret r, w')"
  shows "\<exists>e. r = Some e \<and> unwrap e = Some c
    \<and> error_kind e = (case error_kind c of Some kc \<Rightarrow> Some kc | None \<Rightarrow> Some KindError)
    \<and> (\<forall>q. is_kind (Some e) q =
          (is_kind (Some c) q \<or> error_kind c = None \<and> kind_code q = ''P00000''))"
proof -
  have root: "kind_is KindError q = (kind_code q = ''P00000'')" for q
    by (auto simp: KindError_def)
  show ?thesis
  proof (cases "error_kind c")
    case None
    then have "propagate_as site KindError (Some c) msg opts w = (Ret r, w')"
      using assms by (cases c) (simp_all add: propagate_def)
    from propagate_as_shape [OF this] None root show ?thesis
      by (auto simp: is_kind_ErrorT)
  next
    case (Some kc)
    then obtain m c' o' a where c: "c = ErrorT kc m c' o' a" by (cases c) auto
    then have "propagate_as site kc (Some c) msg opts w = (Ret r, w')"
      using assms by (simp add: propagate_def)
    from propagate_as_shape [OF this] c show ?thesis
      by (auto simp: is_kind_ErrorT)
  qed
qed

theorem propagate_keeps_kind_witness:
  "\<exists>e w'. propagate ''f'' (Some sample_error) ''one'' [] sample_world = (Ret (Some e), w')
    \<and> error_kind e = Some KindError"
proof -
  obtain e w' where run:
    "propagate ''f'' (Some sample_error) ''one'' [] sample_world = (Ret (Some e), w')"
    using sample_propagate [of "''f''" KindError "''one''"] by (auto simp: propagate_def)
  from propagate_keeps_kind [OF run] run show ?thesis by auto
qed

section \<open>Memory\<close>

lemma new_errort_props:
  assumes "new_errort k msg origin w = (e, v)" and "wf_world w"
  shows "e = ErrorT k msg None origin (next_addr w)" and "wf_world v" and "same_env w v"
    and "next_addr v = Suc (Suc (next_addr w))"
    and "cells v = (cells w)(next_addr w := empty_cell\<lparr>cell_details := Some (Suc (next_addr w))\<rparr>)"
    and "details_maps v = (details_maps w)(Suc (next_addr w) := Map.empty)"
    and "arrays v = arrays w" and "context_maps v = context_maps w"
proof -
  have v: "v = w\<lparr>next_addr := Suc (Suc (next_addr w)),
      cells := (cells w)(next_addr w := empty_cell\<lparr>cell_details := Some (Suc (next_addr w))\<rparr>),
      details_maps := (details_maps w)(Suc (next_addr w) := Map.empty)\<rparr>"
    and e: "e = ErrorT k msg None origin (next_addr w)"
    using assms(1) by (auto simp: new_errort_def Let_def)
  have "cell_ok v (cells w b)" for b
    using wf_cell [OF assms(2), of b] by (rule cell_ok_mono) (simp_all add: v)
  moreover have "cell_ok v (empty_cell\<lparr>cell_details := Some (Suc (next_addr w))\<rparr>)"
    by (simp add: v cell_ok_def empty_cell_def ref_ok_def slice_ok_def)
  ultimately show "wf_world v" using assms(2) by (simp add: wf_world_def v)
  show "e = ErrorT k msg None origin (next_addr w)" by (rule e)
qed (use assms(1) in \<open>auto simp: new_errort_def Let_def same_env_def\<close>)

lemma slice_elems_arrays: "arrays v = arrays w \<Longrightarrow> slice_elems v s = slice_elems w s"
  by (simp add: slice_elems_def split: slice.split)

text \<open>Every error that existed before is as it was.\<close>

definition errors_kept :: "world \<Rightarrow> world \<Rightarrow> bool" where
  "errors_kept w w' \<longleftrightarrow>
     (\<forall>b. b < next_addr w \<longrightarrow>
        cells w' b = cells w b \<and> trace_of w' b = trace_of w b \<and> details_of w' b = details_of w b)"

lemma errors_keptD:
  "errors_kept w w' \<Longrightarrow> b < next_addr w \<Longrightarrow> trace_of w' b = trace_of w b"
  "errors_kept w w' \<Longrightarrow> b < next_addr w \<Longrightarrow> details_of w' b = details_of w b"
  by (simp_all add: errors_kept_def)

lemma build_fresh:
  assumes wf: "wf_world w" and ok: "opts_ok opts"
    and new: "new_errort k msg origin w = (e, v)"
  shows "\<exists>w'. with_opts e opts v = (Ret (ErrorT k msg None origin (next_addr w)), w')
    \<and> opt_step (next_addr w) v w' \<and> errors_kept w w'"
proof -
  let ?a = "next_addr w"
  note v = new_errort_props [OF new wf]
  have g: "garlic_opt (apply_opts opts)" using ok by (rule garlic_opt_apply)
  let ?w = "snd (apply_opts opts ?a v)"
  have nn: "cell_details (cells v ?a) \<noteq> None" by (simp add: v(5) empty_cell_def)
  have ret: "apply_opts opts ?a v = (Ret (), ?w)"
    using garlic_opt.returns [OF g v(2) nn] .
  have st: "opt_step ?a v ?w" using garlic_opt.step [OF g v(2)] .
  have "errors_kept w ?w"
    unfolding errors_kept_def
  proof (intro allI impI)
    fix b assume b: "b < next_addr w"
    then have cb: "cells v b = cells w b" by (simp add: v(5))
    have ok: "cell_ok w (cells w b)" using wf by (rule wf_cell)
    have "trace_of ?w b = trace_of v b"
      using opt_step_other_trace [OF st v(2)] b
      by (simp add: v(5) empty_cell_def clear_of_def split: slice.split)
    moreover have "details_of ?w b = details_of v b"
      using opt_step_other_details [OF st v(2)] b ok
      by (simp add: v(5) empty_cell_def cell_ok_def ref_ok_def split: option.splits)
    moreover have "details_of v b = details_of w b"
      using ok by (auto simp: details_of_def cb v(6) cell_ok_def ref_ok_def split: option.split)
    ultimately show "cells ?w b = cells w b \<and> trace_of ?w b = trace_of w b
        \<and> details_of ?w b = details_of w b"
      using b opt_step_cells [OF st, of b] cb slice_elems_arrays [OF v(7)]
      by (simp add: trace_of_def)
  qed
  moreover have "with_opts e opts v = (Ret (ErrorT k msg None origin ?a), ?w)"
    using v(1) ret by (simp only: with_opts_def gerror.case bind_act_eq_Ret) (simp add: ret_def)
  ultimately show ?thesis using st by blast
qed

lemma apply_opts_append:
  "apply_opts (xs @ ys) a = bind_act (apply_opts xs a) (\<lambda>_. apply_opts ys a)"
  by (induction xs) (simp_all add: bind_act_assoc)

lemma with_opts_append_Ret:
  "with_opts (ErrorT k m c o' a) (xs @ ys) v = (Ret e, w') \<longleftrightarrow>
     e = ErrorT k m c o' a \<and> (\<exists>u. apply_opts xs a v = (Ret (), u) \<and> apply_opts ys a u = (Ret (), w'))"
  by (auto simp: with_opts_def apply_opts_append bind_act_eq_Ret ret_def)

lemma apply_rev_trace:
  assumes "apply_opts [rev_trace_opt t] a u = (Ret (), w')" and "wf_world u"
  shows "trace_of w' a = trace_of u a @ [t]" and "opt_step a u w'"
proof -
  have "w' = snd (rev_trace_opt t a u)"
    using assms(1) by (auto simp: bind_act_def ret_def split: prod.splits outcome.splits)
  then show "trace_of w' a = trace_of u a @ [t]" and "opt_step a u w'"
    using opt_step_rev_trace [OF assms(2), where t = t and a = a] by simp_all
qed

text \<open>
  New never panics, whatever package options it is given. The error it returns is fresh, has
  the given kind and message, no cause and no origin, its reverse trace ends with the entry of the
  call site, and every error that existed before keeps its details and its trace.
\<close>

theorem new_error_correct:
  assumes "wf_world w" and "opts_ok opts"
  shows "\<exists>w' ys. new_error site k msg opts w = (Ret (ErrorT k msg None None (next_addr w)), w')
    \<and> wf_world w'
    \<and> trace_of w' (next_addr w) = ys @ [rev_trace_text (stack_at w site)]
    \<and> (\<forall>b < next_addr w. trace_of w' b = trace_of w b \<and> details_of w' b = details_of w b)"
proof -
  let ?t = "rev_trace_text (stack_at w site)"
  obtain e v where new: "new_errort k msg None w = (e, v)" by fastforce
  have ok: "opts_ok (opts @ [rev_trace_opt ?t])" using assms(2) by simp
  obtain w' where run: "with_opts e (opts @ [rev_trace_opt ?t]) v
        = (Ret (ErrorT k msg None None (next_addr w)), w')"
    and st: "opt_step (next_addr w) v w'" and kept: "errors_kept w w'"
    using build_fresh [OF assms(1) ok new] by blast
  note v = new_errort_props [OF new assms(1)]
  obtain u where u: "apply_opts opts (next_addr w) v = (Ret (), u)"
      "apply_opts [rev_trace_opt ?t] (next_addr w) u = (Ret (), w')"
    using run unfolding v(1) with_opts_append_Ret by blast
  have "opt_step (next_addr w) v u"
    using garlic_opt.step [OF garlic_opt_apply [OF assms(2)] v(2)] u(1) by (metis snd_conv)
  then have "wf_world u" by (simp add: opt_step_def)
  from apply_rev_trace(1) [OF u(2) this] obtain ys where "trace_of w' (next_addr w) = ys @ [?t]"
    by blast
  moreover have "new_error site k msg opts w = (Ret (ErrorT k msg None None (next_addr w)), w')"
    using new run by (simp add: new_error_def raw_error_def)
  ultimately show ?thesis
    using st kept by (auto simp: opt_step_def errors_kept_def)
qed

theorem new_error_correct_witness:
  "\<exists>w'. new_error ''f'' KindUserError ''bad'' [hint_opt ''h''] sample_world
      = (Ret (ErrorT KindUserError ''bad'' None None 3), w')
    \<and> trace_of w' 0 = [''x'', ''y'', ''z''] \<and> last (trace_of w' 3) = ''[app.go:1] app.f''"
proof -
  have "opts_ok [hint_opt ''h'']" by simp
  moreover have "rev_trace_text (stack_at sample_world ''f'') = ''[app.go:1] app.f''"
    "trace_of sample_world 0 = [''x'', ''y'', ''z'']" "next_addr sample_world = 3"
    by code_simp+
  ultimately show ?thesis
    using new_error_correct [OF sample_world_wf, of "[hint_opt ''h'']" "''f''" KindUserError "''bad''"]
    by fastforce
qed

text \<open>Wrapping an \<open>ErrorT\<close>: the new error starts from the cell of its cause.\<close>

lemma wrap_props:
  assumes new: "new_errort k msg None w = (e, v)" and wf: "wf_world w"
    and c: "c = ErrorT k2 m2 c2 o2 a2" and a2: "a2 < next_addr w"
  shows "wrap_error e c v =
      (ErrorT (inherit_status_customization k k2) msg (Some c) None (next_addr w),
       v\<lparr>cells := (cells v)(next_addr w := cells w a2)\<rparr>)"
    and "wf_world (v\<lparr>cells := (cells v)(next_addr w := cells w a2)\<rparr>)"
proof -
  note v = new_errort_props [OF new wf]
  have same: "cells v a2 = cells w a2" using a2 by (simp add: v(5))
  then show "wrap_error e c v =
      (ErrorT (inherit_status_customization k k2) msg (Some c) None (next_addr w),
       v\<lparr>cells := (cells v)(next_addr w := cells w a2)\<rparr>)"
    by (simp add: wrap_error_def v(1) c)
  have "cell_ok v (cells w a2)" using wf_cell [OF v(2), of a2] same by simp
  with v(2) show "wf_world (v\<lparr>cells := (cells v)(next_addr w := cells w a2)\<rparr>)"
    by (rule wf_put_cell)
qed

lemma rev_trace_returns: "\<exists>w'. rev_trace_opt t a u = (Ret (), w')"
  by (simp add: rev_trace_opt_def ret_def split: prod.split)

lemma propagate_as_run:
  assumes wf: "wf_world w" and ok: "opts_ok opts"
    and c: "c = ErrorT k2 m2 c2 o2 a2" and a2: "a2 < next_addr w"
    and nn: "cell_details (cells w a2) \<noteq> None"
  shows "\<exists>v u w'. propagate_as site k (Some c) msg opts w =
      (Ret (Some (ErrorT (inherit_status_customization k k2) msg (Some c) None (next_addr w))), w')
    \<and> wf_world v \<and> cells v = (cells w)(next_addr w := cells w a2) \<and> arrays v = arrays w
    \<and> same_env w v \<and> next_addr w < next_addr v
    \<and> opt_step (next_addr w) v u \<and> apply_opts opts (next_addr w) v = (Ret (), u)
    \<and> w' = snd (rev_trace_opt (rev_trace_text (stack_at w site)) (next_addr w) u)"
proof -
  let ?a = "next_addr w" and ?t = "rev_trace_text (stack_at w site)"
  obtain e v0 where new: "new_errort k msg None w = (e, v0)" by fastforce
  note v0 = new_errort_props [OF new wf]
  let ?v = "v0\<lparr>cells := (cells v0)(?a := cells w a2)\<rparr>"
  note wr = wrap_props [OF new wf c a2]
  have g: "garlic_opt (apply_opts opts)" using ok by (rule garlic_opt_apply)
  have nnv: "cell_details (cells ?v ?a) \<noteq> None" using nn by simp
  let ?u = "snd (apply_opts opts ?a ?v)"
  have u: "apply_opts opts ?a ?v = (Ret (), ?u)"
    using garlic_opt.returns [OF g wr(2) nnv] .
  have su: "opt_step ?a ?v ?u" using garlic_opt.step [OF g wr(2)] .
  obtain w' where w': "rev_trace_opt ?t ?a ?u = (Ret (), w')"
    using rev_trace_returns by blast
  have "with_opts (ErrorT (inherit_status_customization k k2) msg (Some c) None ?a)
      (opts @ [rev_trace_opt ?t]) ?v
    = (Ret (ErrorT (inherit_status_customization k k2) msg (Some c) None ?a), w')"
    unfolding with_opts_append_Ret using u w' by (auto simp: bind_act_eq_Ret ret_def)
  then have "propagate_as site k (Some c) msg opts w =
      (Ret (Some (ErrorT (inherit_status_customization k k2) msg (Some c) None ?a)), w')"
    using new wr(1) by (simp add: propagate_as_def from_error_def bind_act_def ret_def)
  moreover have "cells ?v = (cells w)(?a := cells w a2)" by (simp add: v0(5))
  moreover have "arrays ?v = arrays w" by (simp add: v0(7))
  moreover have "same_env w ?v" using v0(3) by (simp add: same_env_def)
  moreover have "?a < next_addr ?v" by (simp add: v0(4))
  ultimately show ?thesis using wr(2) su u w' by (metis snd_conv)
qed

lemma propagate_as_frame:
  assumes wf: "wf_world w" and ok: "opts_ok opts"
    and c: "c = ErrorT k2 m2 c2 o2 a2" and a2: "a2 < next_addr w"
    and nn: "cell_details (cells w a2) \<noteq> None"
  shows "\<exists>w'. propagate_as site k (Some c) msg opts w =
      (Ret (Some (ErrorT (inherit_status_customization k k2) msg (Some c) None (next_addr w))), w')
    \<and> wf_world w' \<and> same_env w w' \<and> next_addr w < next_addr w'"
proof -
  let ?a = "next_addr w" and ?t = "rev_trace_text (stack_at w site)"
  obtain v u w' where run: "propagate_as site k (Some c) msg opts w =
      (Ret (Some (ErrorT (inherit_status_customization k k2) msg (Some c) None ?a)), w')"
    and v: "wf_world v" "same_env w v" "?a < next_addr v" and su: "opt_step ?a v u"
    and w': "w' = snd (rev_trace_opt ?t ?a u)"
    using propagate_as_run [OF assms, of site k msg] by blast
  have wfu: "wf_world u" using su by (simp add: opt_step_def)
  have "opt_step ?a v w'"
    using su opt_step_rev_trace(1) [OF wfu] unfolding w' by (rule opt_step_trans)
  then show ?thesis
    using run v by (auto simp: opt_step_def same_env_def)
qed



section \<open>Where sharing shows\<close>

text \<open>
  Two propagations of one error can share the last entry of their traces. When the error's
  trace slice has spare capacity, propagating it twice from two sites makes the second call write
  its entry into the backing array of the first result: the first result, whose trace ended with
  its own site, now ends with the other one.
\<close>

theorem fork_overwrites_trace:
  assumes "wf_world w" and "a2 < next_addr w"
    and "cell_rtrace (cells w a2) = Slice r n c" and "n < c"
    and "propagate_as site1 k1 (Some (ErrorT k m c' o' a2)) msg1 [] w
        = (Ret (Some (ErrorT kx mx cx ox b)), w1)"
    and "propagate_as site2 k2 (Some (ErrorT k m c' o' a2)) msg2 [] w1 = (Ret r2, w2)"
  shows "trace_of w1 b = trace_of w a2 @ [rev_trace_text (stack_at w site1)]
    \<and> trace_of w2 b = trace_of w a2 @ [rev_trace_text (stack_at w site2)]"
proof -
  let ?a = "next_addr w"
  have len: "length (arrays w r) = c"
    using wf_cell [OF assms(1), of a2] assms(3) by (simp add: cell_ok_def slice_ok_def)
  have b: "b = ?a" and w1: "w1 = w\<lparr>next_addr := Suc (Suc ?a),
       cells := (cells w)(?a := (cells w a2)\<lparr>cell_rtrace := Slice r (Suc n) c\<rparr>),
       details_maps := (details_maps w)(Suc ?a := Map.empty),
       arrays := (arrays w)(r := (arrays w r)[n := rev_trace_text (stack_at w site1)])\<rparr>"
    using assms(5) unfolding propagate_plain_spare [OF assms(2-4)] by auto
  have "a2 < next_addr w1" "cell_rtrace (cells w1 a2) = Slice r n c"
    using assms(2,3) by (auto simp: w1)
  from propagate_plain_spare [OF this assms(4)] assms(6)
  have w2: "cells w2 ?a = cells w1 ?a"
    "arrays w2 r = (arrays w1 r)[n := rev_trace_text (stack_at w1 site2)]"
    by (auto simp: w1)
  have take: "take (Suc n) ((arrays w r)[n := x]) = take n (arrays w r) @ [x]" for x
    using len assms(4) by (simp add: take_Suc_conv_app_nth take_list_update_ge)
  show ?thesis
    using assms(3) w2 take by (simp add: b w1 trace_of_def slice_elems_def)
qed

theorem fork_overwrites_trace_witness:
  "\<exists>w1 w2 b r2.
     propagate_as ''f'' KindError (Some (ErrorT KindError ''m'' None None 0)) ''one'' [] sample_world
       = (Ret (Some (ErrorT KindError ''one'' (Some (ErrorT KindError ''m'' None None 0)) None b)), w1)
   \<and> propagate_as ''g'' KindError (Some (ErrorT KindError ''m'' None None 0)) ''two'' [] w1 = (Ret r2, w2)
   \<and> trace_of w1 b = [''x'', ''y'', ''z'', ''[app.go:1] app.f'']
   \<and> trace_of w2 b = [''x'', ''y'', ''z'', ''[app.go:1] app.g'']"
proof -
  have h: "0 < next_addr sample_world" "cell_rtrace (cells sample_world 0) = Slice 2 3 4" "(3::nat) < 4"
    by simp_all
  let ?e = "ErrorT KindError ''m'' None None 0"
  obtain b w1 where r1: "propagate_as ''f'' KindError (Some ?e) ''one'' [] sample_world
       = (Ret (Some (ErrorT KindError ''one'' (Some ?e) None b)), w1)"
    and h1: "0 < next_addr w1" "cell_rtrace (cells w1 0) = Slice 2 3 4"
    unfolding propagate_plain_spare [OF h] using h by auto
  obtain r2 w2 where r2: "propagate_as ''g'' KindError (Some ?e) ''two'' [] w1 = (Ret r2, w2)"
    unfolding propagate_plain_spare [OF h1 h(3)] by auto
  have texts: "rev_trace_text (stack_at sample_world ''f'') = ''[app.go:1] app.f''"
    "rev_trace_text (stack_at sample_world ''g'') = ''[app.go:1] app.g''"
    "trace_of sample_world 0 = [''x'', ''y'', ''z'']"
    by code_simp+
  show ?thesis
    using fork_overwrites_trace [OF sample_world_wf h r1 r2] r1 r2 texts by auto
qed

end
