(* ===== verification/Dto.thy ===== *)
theory Dto
  imports Propagation
begin

text \<open>
  The transferable form of an error (\<open>errors/dto.go\<close>): encoding an error into a DTO and decoding
  a DTO received from a peer. A DTO points at the details map of the error it was made from.
\<close>

section \<open>DTOs\<close>

record dto =
  dto_name :: string
  dto_error :: string
  dto_code :: string
  dto_origin :: string
  dto_details :: "addr option"

text \<open>\<open>ErrorT.ErrorDTO\<close>; only \<open>*ErrorT\<close> implements \<open>Transferable\<close>.\<close>

fun error_dto :: "world \<Rightarrow> gerror \<Rightarrow> dto option" where
  "error_dto w (ErrorT k m c o' a) =
     Some \<lparr>dto_name = fqn k, dto_error = m, dto_code = kind_code k, dto_origin = code_of o',
           dto_details = cell_details (cells w a)\<rparr>"
| "error_dto w _ = None"

definition new_dto :: "gerror option \<Rightarrow> (world, dto option) act" where
  "new_dto err w =
     (case err of
        None \<Rightarrow> ret None w
      | Some e \<Rightarrow>
          (case error_dto w e of
             Some d \<Rightarrow> ret (Some d) w
           | None \<Rightarrow> bind_act (raw_error KindError (error_text e) []) (\<lambda>r w. ret (error_dto w r) w) w))"

text \<open>The error a DTO becomes once its kind is known: \<open>newErrorT\<close>, then \<open>Details\<close> replaced.\<close>

definition decode_with :: "kind \<Rightarrow> dto \<Rightarrow> world \<Rightarrow> gerror \<times> world" where
  "decode_with k d w =
     (let a = next_addr w;
          (e, w') = new_errort k (dto_error d) (new_headless_error (dto_origin d)) w
      in (e, w'\<lparr>cells := (cells w')(a := (cells w' a)\<lparr>cell_details := dto_details d\<rparr>)\<rparr>))"

definition must_decode :: "dto \<Rightarrow> (world, gerror) act" where
  "must_decode d w =
     (case get_by_code (dto_code d) (kinds_reg w) of
        (Panic p, _) \<Rightarrow> panic p w
      | (Ret k, _) \<Rightarrow> (let (e, w') = decode_with k d w in ret e w'))"

definition decode :: "dto \<Rightarrow> world \<Rightarrow> gerror option \<times> world" where
  "decode d w =
     (case lookup_by_code (kinds_reg w) (dto_code d) of
        None \<Rightarrow> (None, w)
      | Some k \<Rightarrow> (let (e, w') = decode_with k d w in (Some e, w')))"

definition decode_for :: "int \<Rightarrow> dto \<Rightarrow> world \<Rightarrow> gerror option \<times> world" where
  "decode_for status d w =
     (case decode d w of
        (Some (ErrorT k m c o' a), w') \<Rightarrow>
          (Some (ErrorT (if 0 < status \<and> status_code k \<noteq> status
                         then customize_status_code k status else k) m c o' a), w')
      | (_, w') \<Rightarrow> (None, w'))"

section \<open>The lookup a decoder relies on\<close>

text \<open>
  Decoding needs one law of the registry: a kind found under a code has that code. It is what
  makes the decoded error answer for the identifier that was received.
\<close>

locale kind_source =
  fixes lookup :: "string \<Rightarrow> kind option"
  assumes lookup_code: "lookup c = Some k \<Longrightarrow> kind_code k = c"
begin

lemma lookup_identity: "lookup (kind_code k) = Some k' \<Longrightarrow> kind_is k'' k' = kind_is k'' k"
  using lookup_code kind_is_code_cong by blast

lemma decoded_code:
  assumes "lookup (dto_code d) = Some k" and "decode_with k d w = (e, w')"
  shows "error_dto w' e = Some (d\<lparr>dto_name := fqn k\<rparr>)"
proof -
  have "code_of (new_headless_error (dto_origin d)) = dto_origin d"
    by (simp add: new_headless_error_def code_of_def)
  then show ?thesis
    using assms lookup_code [OF assms(1)]
    by (auto simp: decode_with_def new_errort_def Let_def)
qed

end

lemma reg_inv_source: "reg_inv r \<Longrightarrow> kind_source (lookup_by_code r)"
  by unfold_locales (simp add: lookup_by_code_def reg_inv_def)

text \<open>The registry reached by any sequence of Register calls provides the law.\<close>

interpretation registered: kind_source "lookup_by_code (snd (register ks empty_registry))" for ks
  using register_inv [OF reg_inv_empty] by (rule reg_inv_source)

section \<open>Round trips\<close>

text \<open>
  What one process sends and another decodes: the same name, text, code and origin, with details
  the receiver's JSON decoder allocated.
\<close>

lemma decode_for_sent:
  assumes "lookup_by_code (kinds_reg v) (dto_code d) = Some k"
  shows "decode_for status d v =
    (Some (ErrorT (if 0 < status \<and> status_code k \<noteq> status
                   then customize_status_code k status else k)
             (dto_error d) None (new_headless_error (dto_origin d)) (next_addr v)),
     snd (decode_with k d v))"
  using assms by (simp add: decode_for_def decode_def decode_with_def new_errort_def Let_def)

lemma decoded_cell: "cells (snd (decode_with k d v)) (next_addr v) = empty_cell\<lparr>cell_details := dto_details d\<rparr>"
  by (simp add: decode_with_def new_errort_def Let_def)

lemma code_of_headless [simp]: "code_of (new_headless_error c) = c"
  by (simp add: new_headless_error_def code_of_def)


definition receiver :: world where
  "receiver = init_world (snd (register primitive_kinds empty_registry)) sample_frames"


text \<open>
  A decoded error cannot take a hint. A DTO that carries no details decodes to an error whose
  details map is nil, and propagating that error with the Hint option panics, although the same
  call on an error the program built itself never does.
\<close>

theorem hint_on_decoded_panics:
  assumes "lookup_by_code (kinds_reg w) (dto_code d) = Some k" and "dto_details d = None"
  shows "\<exists>e w'. decode_for status d w = (Some e, w')
    \<and> fst (propagate site (Some e) msg [hint_opt h] w') = Panic nil_map_write"
proof -
  let ?w = "snd (decode_with k d w)"
  have n: "next_addr ?w = Suc (Suc (next_addr w))"
    by (simp add: decode_with_def new_errort_def Let_def)
  show ?thesis
    using assms
    by (simp add: decode_for_sent propagate_def propagate_as_def from_error_def new_errort_def
        wrap_error_def with_opts_def bind_act_def hint_opt_def decoded_cell empty_cell_def panic_def
        n Let_def)
qed

theorem hint_on_decoded_panics_witness:
  "\<exists>e w'. decode_for 500 \<lparr>dto_name = [], dto_error = ''m'', dto_code = ''P00001'', dto_origin = [],
       dto_details = None\<rparr> receiver = (Some e, w')
    \<and> fst (propagate ''s'' (Some e) ''again'' [hint_opt ''h''] w') = Panic nil_map_write"
  by (rule hint_on_decoded_panics [of receiver _ KindUserError])
    (simp_all add: receiver_def init_world_def lookup_by_code_def primitive_kinds_def bind_act_def
        ret_def empty_registry_def KindUserError_def KindError_def KindSystemError_def)

end
