(* ===== verification/Contexts.thy ===== *)
theory Contexts
  imports Dto
begin

text \<open>
  Values carried by a context: the logger (\<open>logging/context.go\<close>), the request and session ids
  (\<open>tracing/tracing.go\<close>), and the accessors that take them from a request
  (\<open>request/logging.go\<close>, \<open>request/tracing.go\<close>).
\<close>

section \<open>Contexts\<close>

text \<open>
  A context is what \<open>ctx.Value\<close> and \<open>ctx.Deadline\<close> answer; \<open>context.WithValue\<close> gives a new one. When
  a context is cancelled is an event of its environment, modelled where the code observes it. The
  keys are unexported types of their packages, so keys of different packages never meet.
\<close>

datatype uuid = Uuid string

definition uuid_Nil :: uuid where
  "uuid_Nil = Uuid (replicate 16 (CHR 0x00))"

text \<open>A logger, as the fields \<open>With\<close> gave it and whether it is the global one's descendant.\<close>

datatype log_field = LogField string gval | LogContext context_t | LogError zap_field

datatype logger = Logger string "log_field list"

fun log_with :: "logger \<Rightarrow> log_field list \<Rightarrow> logger" where
  "log_with (Logger n fs) gs = Logger n (fs @ gs)"

datatype ctx_key = LoggerKey | RequestIdKey | SessionIdKey | TransactionKey | OtherKey string

datatype ctx_val = CVUuid uuid | CVStr string | CVLogger logger | CVTx nat | CVAny gval

record go_ctx =
  ctx_value :: "ctx_key \<Rightarrow> ctx_val option"
  ctx_deadline :: "int option"

definition background :: go_ctx where
  "background = \<lparr>ctx_value = Map.empty, ctx_deadline = None\<rparr>"

definition with_value :: "go_ctx \<Rightarrow> ctx_key \<Rightarrow> ctx_val \<Rightarrow> go_ctx" where
  "with_value c k v = c\<lparr>ctx_value := (ctx_value c)(k \<mapsto> v)\<rparr>"

lemma with_value_lookup [simp]:
  "ctx_value (with_value c k v) k' = (if k' = k then Some v else ctx_value c k')"
  by (simp add: with_value_def)

lemma with_value_deadline [simp]: "ctx_deadline (with_value c k v) = ctx_deadline c"
  by (simp add: with_value_def)

text \<open>A context value as an entry of an error: opaque values are shown by their dynamic type.\<close>

fun ctx_field_value :: "ctx_val \<Rightarrow> gval" where
  "ctx_field_value (CVUuid (Uuid b)) = VObj [(''uuid.UUID'', VStr b)]"
| "ctx_field_value (CVStr s) = VStr s"
| "ctx_field_value (CVLogger l) = VObj [(''*zap.Logger'', VNil)]"
| "ctx_field_value (CVTx t) = VObj [(''*sqlx.Tx'', VNil)]"
| "ctx_field_value (CVAny v) = v"

section \<open>The logger of a context\<close>

definition logger_missing :: string where
  "logger_missing = ''Failed to get logger from context''"

definition get_logger_from_context :: "go_ctx \<Rightarrow> ('s, logger) act" where
  "get_logger_from_context c =
     (case ctx_value c LoggerKey of Some (CVLogger l) \<Rightarrow> ret l | _ \<Rightarrow> panic logger_missing)"

definition set_context_logger :: "go_ctx \<Rightarrow> logger \<Rightarrow> go_ctx" where
  "set_context_logger c l = with_value c LoggerKey (CVLogger l)"

section \<open>Request and session ids\<close>

text \<open>
  Go returns a value and an error; a failing call returns a zero value with it. Here a result is
  the error or the value.
\<close>

definition get_request_id_from_context :: "go_ctx \<Rightarrow> (world, gerror + uuid) act" where
  "get_request_id_from_context c w =
     (case ctx_value c RequestIdKey of
        None \<Rightarrow>
          bind_act (new_error ''GetRequestIdFromContext#1'' KindContextValueNotFoundError
            ''request id is not set in this context'' []) (\<lambda>e. ret (Inl e)) w
      | Some (CVUuid u) \<Rightarrow> ret (Inr u) w
      | Some v \<Rightarrow>
          bind_act (new_error ''GetRequestIdFromContext#2'' KindContextError
            ''invalid request id found in context''
            [context_opt (context_new (stack_at w ''GetRequestIdFromContext#2'')
               [Field ''invalid_request_id'' (ctx_field_value v)])]) (\<lambda>e. ret (Inl e)) w)"

definition set_context_request_id :: "go_ctx \<Rightarrow> uuid \<Rightarrow> go_ctx" where
  "set_context_request_id c u = with_value c RequestIdKey (CVUuid u)"

definition get_session_id_from_context :: "go_ctx \<Rightarrow> (world, gerror + string) act" where
  "get_session_id_from_context c w =
     (case ctx_value c SessionIdKey of
        None \<Rightarrow>
          bind_act (new_error ''GetSessionIdFromContext#1'' KindContextValueNotFoundError
            ''session id is not set in this context'' []) (\<lambda>e. ret (Inl e)) w
      | Some (CVStr s) \<Rightarrow> ret (Inr s) w
      | Some v \<Rightarrow>
          bind_act (new_error ''GetSessionIdFromContext#2'' KindContextError
            ''invalid session id found in context''
            [context_opt (context_new (stack_at w ''GetSessionIdFromContext#2'')
               [Field ''invalid_session_id'' (ctx_field_value v)])]) (\<lambda>e. ret (Inl e)) w)"

definition set_context_session_id :: "go_ctx \<Rightarrow> string \<Rightarrow> go_ctx" where
  "set_context_session_id c s = with_value c SessionIdKey (CVStr s)"

text \<open>The \<open>Must\<close> variants end the process through \<open>Fatal\<close>: a panic nothing recovers.\<close>

definition fatal_exit :: "string \<Rightarrow> string" where
  "fatal_exit msg = ''exit status 1: '' @ msg"

definition must_get_request_id_from_context :: "go_ctx \<Rightarrow> (world, uuid) act" where
  "must_get_request_id_from_context c =
     bind_act (get_request_id_from_context c) (\<lambda>r.
       case r of
         Inr u \<Rightarrow> ret u
       | Inl e \<Rightarrow>
           bind_act (propagate ''MustGetRequestIdFromContext'' (Some e)
             ''Failed to get request ID from context'' [])
             (\<lambda>_. panic (fatal_exit ''Failed to get request ID from context'')))"

definition must_get_session_id_from_context :: "go_ctx \<Rightarrow> (world, string) act" where
  "must_get_session_id_from_context c =
     bind_act (get_session_id_from_context c) (\<lambda>r.
       case r of
         Inr s \<Rightarrow> ret s
       | Inl e \<Rightarrow>
           bind_act (propagate ''MustGetSessionIdFromContext'' (Some e)
             ''Failed to get session ID from context'' [])
             (\<lambda>_. panic (fatal_exit ''Failed to get session ID from context'')))"

section \<open>The same values, of a request\<close>

text \<open>Of a request only the context matters here: \<open>r.Context()\<close> and \<open>r.WithContext\<close>.\<close>

definition request_get_logger :: "go_ctx \<Rightarrow> ('s, logger) act" where
  "request_get_logger c = get_logger_from_context c"

definition request_set_logger :: "go_ctx \<Rightarrow> logger \<Rightarrow> go_ctx" where
  "request_set_logger c l = set_context_logger c l"

definition propagate_left ::
  "string \<Rightarrow> string \<Rightarrow> opt list \<Rightarrow> gerror + 'a \<Rightarrow> (world, gerror + 'a) act" where
  "propagate_left site msg opts r =
     (case r of
        Inr x \<Rightarrow> ret (Inr x)
      | Inl e \<Rightarrow> bind_act (propagate site (Some e) msg opts)
          (\<lambda>p. ret (case p of None \<Rightarrow> Inl e | Some e' \<Rightarrow> Inl e')))"

definition get_request_id :: "go_ctx \<Rightarrow> (world, gerror + uuid) act" where
  "get_request_id c =
     bind_act (get_request_id_from_context c)
       (propagate_left ''request.GetRequestId'' ''failed to get request id in this request'' [])"

definition set_request_id :: "go_ctx \<Rightarrow> uuid \<Rightarrow> go_ctx" where
  "set_request_id c u = set_context_request_id c u"

definition get_session_id :: "go_ctx \<Rightarrow> (world, gerror + string) act" where
  "get_session_id c =
     bind_act (get_session_id_from_context c)
       (propagate_left ''request.GetSessionId'' ''failed to get session id in this request'' [])"

definition set_session_id :: "go_ctx \<Rightarrow> string \<Rightarrow> go_ctx" where
  "set_session_id c s = set_context_session_id c s"

section \<open>Errors that may be propagated\<close>

text \<open>
  What a caller needs of an error to propagate it without a panic and to know its kind: it is a
  garlic error whose cell lies in the heap and has a details map.
\<close>

definition live_error :: "world \<Rightarrow> kind \<Rightarrow> gerror \<Rightarrow> bool" where
  "live_error w k e \<longleftrightarrow>
     (case e of
        ErrorT k' m c o' a \<Rightarrow> k' = k \<and> a < next_addr w \<and> cell_details (cells w a) \<noteq> None
      | _ \<Rightarrow> False)"

lemma live_errorD:
  "live_error w k e \<Longrightarrow>
   \<exists>m c o' a. e = ErrorT k m c o' a \<and> a < next_addr w \<and> cell_details (cells w a) \<noteq> None"
  by (cases e) (auto simp: live_error_def)

end
