(* ===== verification/Calls.thy ===== *)
theory Calls
  imports Contexts
begin

text \<open>
  Reasoning about code that builds and propagates errors. A run that returns ends in a well-formed
  world that extends the one it started in; every constructor of the errors package runs this way
  whatever package options it is given, so the components that report errors inherit it step by
  step.
\<close>

section \<open>Extending worlds\<close>

definition world_le :: "world \<Rightarrow> world \<Rightarrow> bool" where
  "world_le w w' \<longleftrightarrow>
     same_env w w' \<and>
     (\<forall>a < next_addr w. cell_details (cells w a) \<noteq> None \<longrightarrow> cell_details (cells w' a) \<noteq> None)"

lemma world_le_refl [simp]: "world_le w w"
  by (simp add: world_le_def)

lemma world_le_trans: "world_le u v \<Longrightarrow> world_le v w \<Longrightarrow> world_le u w"
  by (auto simp: world_le_def same_env_def)

lemma world_le_stack: "world_le w w' \<Longrightarrow> stack_at w' = stack_at w"
  by (simp add: world_le_def same_env_def)

lemma world_le_reg: "world_le w w' \<Longrightarrow> kinds_reg w' = kinds_reg w"
  by (simp add: world_le_def same_env_def)

text \<open>An error that may be handed to the package: of an \<open>ErrorT\<close>, the cell exists.\<close>

definition good_error :: "world \<Rightarrow> gerror \<Rightarrow> bool" where
  "good_error w e =
     (case e of
        ErrorT k m c o' a \<Rightarrow> a < next_addr w \<and> cell_details (cells w a) \<noteq> None
      | _ \<Rightarrow> True)"

lemma good_error_simps [simp]:
  "good_error w (HeadlessErrorT h)" "good_error w (ForeignErr t m cd c)" "good_error w (JoinedErr m es)"
  by (simp_all add: good_error_def)

lemma good_error_le: "good_error w e \<Longrightarrow> world_le w w' \<Longrightarrow> good_error w' e"
  by (auto simp: good_error_def world_le_def same_env_def split: gerror.splits)

lemma live_good: "live_error w k e \<Longrightarrow> good_error w e"
  by (auto simp: live_error_def good_error_def split: gerror.splits)

lemma live_kind: "live_error w k e \<Longrightarrow> error_kind e = Some k"
  by (auto simp: live_error_def split: gerror.splits)

lemma live_error_le: "live_error w k e \<Longrightarrow> world_le w w' \<Longrightarrow> live_error w' k e"
  by (auto simp: live_error_def world_le_def same_env_def split: gerror.splits)

lemma live_is_kind: "live_error w k e \<Longrightarrow> kind_is k q \<Longrightarrow> is_kind (Some e) q"
  by (auto simp: live_error_def is_kind_ErrorT split: gerror.splits)

section \<open>Runs\<close>

definition runs :: "world \<Rightarrow> (world, 'a) act \<Rightarrow> ('a \<Rightarrow> world \<Rightarrow> bool) \<Rightarrow> bool" where
  "runs w m Q \<longleftrightarrow> (\<exists>x w'. m w = (Ret x, w') \<and> wf_world w' \<and> world_le w w' \<and> Q x w')"

lemma runsD: "runs w m Q \<Longrightarrow> \<exists>x w'. m w = (Ret x, w') \<and> wf_world w' \<and> world_le w w' \<and> Q x w'"
  by (simp add: runs_def)

lemma runs_ret: "wf_world w \<Longrightarrow> Q x w \<Longrightarrow> runs w (ret x) Q"
  by (simp add: runs_def ret_def)

lemma runs_bind:
  assumes "runs w m P" and "\<And>x w'. wf_world w' \<Longrightarrow> world_le w w' \<Longrightarrow> P x w' \<Longrightarrow> runs w' (f x) Q"
  shows "runs w (bind_act m f) Q"
proof -
  obtain x w' where 1: "m w = (Ret x, w')" "wf_world w'" "world_le w w'" "P x w'"
    using assms(1) by (auto simp: runs_def)
  with assms(2) obtain y w'' where "f x w' = (Ret y, w'')" "wf_world w''" "world_le w' w''" "Q y w''"
    by (fastforce simp: runs_def)
  with 1 show ?thesis
    by (auto simp: runs_def bind_act_def intro: world_le_trans)
qed

lemma runs_weaken: "runs w m P \<Longrightarrow> (\<And>x w'. P x w' \<Longrightarrow> world_le w w' \<Longrightarrow> Q x w') \<Longrightarrow> runs w m Q"
  by (fastforce simp: runs_def)

lemma runs_cong: "m w = m' w \<Longrightarrow> runs w m Q = runs w m' Q"
  by (simp add: runs_def)

lemma errors_kept_le: "errors_kept w w' \<Longrightarrow> same_env w w' \<Longrightarrow> world_le w w'"
  by (simp add: errors_kept_def world_le_def)

section \<open>The constructors\<close>

lemma runs_build:
  assumes wf: "wf_world w" and ok: "opts_ok opts"
  shows "runs w (\<lambda>w. case new_errort k msg origin w of (e, v) \<Rightarrow> with_opts e opts v)
    (\<lambda>e w'. live_error w' k e \<and> e = ErrorT k msg None origin (next_addr w))"
proof -
  obtain e v where new: "new_errort k msg origin w = (e, v)" by fastforce
  note v = new_errort_props [OF new wf]
  obtain w' where run: "with_opts e opts v = (Ret (ErrorT k msg None origin (next_addr w)), w')"
    and st: "opt_step (next_addr w) v w'" and kept: "errors_kept w w'"
    using build_fresh [OF wf ok new] by blast
  have se: "same_env w w'" using st v(3) same_env_trans by (auto simp: opt_step_def)
  have "cell_details (cells v (next_addr w)) = Some (Suc (next_addr w))" by (simp add: v(5))
  then have "cell_details (cells w' (next_addr w)) = Some (Suc (next_addr w))"
    by (rule opt_step_details [OF st])
  moreover have "next_addr w < next_addr w'" using st v(4) by (simp add: opt_step_def same_env_def)
  ultimately have "live_error w' k (ErrorT k msg None origin (next_addr w))"
    by (simp add: live_error_def)
  moreover have "wf_world w'" using st by (simp add: opt_step_def)
  ultimately show ?thesis
    using new run errors_kept_le [OF kept se] by (simp add: runs_def)
qed

lemma runs_raw_error:
  assumes "wf_world w" and "opts_ok opts"
  shows "runs w (raw_error k msg opts)
    (\<lambda>e w'. live_error w' k e \<and> e = ErrorT k msg None None (next_addr w))"
  using runs_build [OF assms, of k msg None] by (simp add: raw_error_def runs_def split: prod.splits)

lemma runs_new_error:
  assumes "wf_world w" and "opts_ok opts"
  shows "runs w (new_error site k msg opts)
    (\<lambda>e w'. live_error w' k e \<and> e = ErrorT k msg None None (next_addr w))"
proof -
  have "opts_ok (opts @ [rev_trace_opt (rev_trace_text (stack_at w site))])" using assms(2) by simp
  from runs_raw_error [OF assms(1) this] show ?thesis by (simp add: runs_def new_error_def)
qed

lemma runs_override_error:
  assumes "wf_world w" and "opts_ok opts"
  shows "runs w (override_error k origin msg opts)
    (\<lambda>e w'. live_error w' k e \<and> e = ErrorT k msg None origin (next_addr w))"
  using runs_build [OF assms, of k msg origin]
  by (simp add: override_error_def runs_def split: prod.splits)

lemma runs_mirror_override:
  assumes "wf_world w" and "opts_ok opts"
  shows "runs w (mirror_override k origin opts)
    (\<lambda>e w'. live_error w' k e \<and> e = ErrorT k (kind_description k) None origin (next_addr w))"
  using runs_build [OF assms, of k "kind_description k" origin]
  by (simp add: mirror_override_def runs_def split: prod.splits)

lemma runs_mirror_error:
  assumes "wf_world w" and "opts_ok opts"
  shows "runs w (mirror_error k opts)
    (\<lambda>e w'. live_error w' k e \<and> e = ErrorT k (kind_description k) None None (next_addr w))"
  using runs_build [OF assms, of k "kind_description k" None]
  by (simp add: mirror_error_def runs_def split: prod.splits)

section \<open>Wrapping\<close>

definition wrapped_kind :: "kind \<Rightarrow> gerror \<Rightarrow> kind" where
  "wrapped_kind k c =
     (case error_kind c of None \<Rightarrow> k | Some kc \<Rightarrow> inherit_status_customization k kc)"

lemma wrapped_kind_fields [simp]:
  "kind_is (wrapped_kind k c) q = kind_is k q" "kind_code (wrapped_kind k c) = kind_code k"
  "fqn (wrapped_kind k c) = fqn k"
  by (simp_all add: wrapped_kind_def split: option.split)

definition wraps :: "kind \<Rightarrow> string \<Rightarrow> gerror \<Rightarrow> gerror option \<Rightarrow> world \<Rightarrow> bool" where
  "wraps k msg c r w \<longleftrightarrow>
     (\<exists>a. r = Some (ErrorT (wrapped_kind k c) msg (Some c) None a)
        \<and> live_error w (wrapped_kind k c) (ErrorT (wrapped_kind k c) msg (Some c) None a))"

lemma runs_from_foreign:
  assumes wf: "wf_world w" and ok: "opts_ok opts" and c: "error_kind c = None"
  shows "runs w (from_error k (Some c) msg opts) (wraps k msg c)"
proof -
  obtain e v where new: "new_errort k msg None w = (e, v)" by fastforce
  have e: "e = ErrorT k msg None None (next_addr w)" using new by (auto simp: new_errort_def Let_def)
  have wrap: "wrap_error e c v = (ErrorT k msg (Some c) None (next_addr w), v)"
    using c by (cases c) (simp_all add: e wrap_error_def)
  obtain e' w' where run: "with_opts e opts v = (Ret e', w')"
    and w': "wf_world w'" "world_le w w'" "live_error w' k e'" "e' = ErrorT k msg None None (next_addr w)"
    using runs_build [OF wf ok, of k msg None] new by (auto simp: runs_def)
  have wk: "wrapped_kind k c = k" using c by (simp add: wrapped_kind_def)
  have "with_opts (ErrorT k msg (Some c) None (next_addr w)) opts v
      = (Ret (ErrorT k msg (Some c) None (next_addr w)), w')"
    using run unfolding e by (auto simp: with_opts_def bind_act_eq_Ret ret_def)
  then have "from_error k (Some c) msg opts w =
      (Ret (Some (ErrorT k msg (Some c) None (next_addr w))), w')"
    using new wrap by (simp add: from_error_def bind_act_def ret_def)
  moreover have "live_error w' k (ErrorT k msg (Some c) None (next_addr w))"
    using w'(3,4) by (simp add: live_error_def)
  ultimately show ?thesis using w'(1,2) by (simp add: runs_def wraps_def wk)
qed

lemma runs_from_error:
  assumes wf: "wf_world w" and ok: "opts_ok opts" and good: "good_error w c"
  shows "runs w (from_error k (Some c) msg opts) (wraps k msg c)"
proof (cases "error_kind c")
  case None
  then show ?thesis by (rule runs_from_foreign [OF wf ok])
next
  case (Some kc)
  then obtain m c2 o2 a2 where c: "c = ErrorT kc m c2 o2 a2" by (cases c) auto
  with good obtain d where a2: "a2 < next_addr w" and d: "cell_details (cells w a2) = Some d"
    by (auto simp: good_error_def)
  let ?a = "next_addr w" and ?e = "ErrorT (inherit_status_customization k kc) msg (Some c) None (next_addr w)"
  obtain e v0 where new: "new_errort k msg None w = (e, v0)" by fastforce
  note v0 = new_errort_props [OF new wf] and wr = wrap_props [OF new wf c a2]
  let ?v = "v0\<lparr>cells := (cells v0)(?a := cells w a2)\<rparr>"
  have dv: "cell_details (cells ?v ?a) = Some d" using d by simp
  have g: "garlic_opt (apply_opts opts)" using ok by (rule garlic_opt_apply)
  obtain u where u: "apply_opts opts ?a ?v = (Ret (), u)" using garlic_opt.returns [OF g wr(2)] dv by blast
  have su: "opt_step ?a ?v u" using garlic_opt.step [OF g wr(2), of ?a] u by simp
  have run: "from_error k (Some c) msg opts w = (Ret (Some ?e), u)"
    using new wr(1) u by (simp add: from_error_def with_opts_def bind_act_def ret_def)
  have se: "same_env w u" using su v0(3) by (auto simp: opt_step_def same_env_def)
  have "cell_details (cells u ?a) = Some d" by (rule opt_step_details [OF su dv])
  moreover have "?a < next_addr u" using su v0(4) by (simp add: opt_step_def same_env_def)
  ultimately have "live_error u (inherit_status_customization k kc) ?e" by (simp add: live_error_def)
  moreover have "cells u b = cells w b" if "b < ?a" for b
    using opt_step_cells [OF su, of b] that by (simp add: v0(5))
  moreover have "wf_world u" using su by (simp add: opt_step_def)
  ultimately show ?thesis
    using run se by (auto simp: runs_def wraps_def wrapped_kind_def c world_le_def)
qed

lemma runs_propagate_as:
  assumes wf: "wf_world w" and ok: "opts_ok opts" and good: "good_error w c"
  shows "runs w (propagate_as site k (Some c) msg opts) (wraps k msg c)"
proof -
  have "opts_ok (opts @ [rev_trace_opt (rev_trace_text (stack_at w site))])" using ok by simp
  from runs_from_error [OF wf this good] show ?thesis by (simp add: runs_def propagate_as_def)
qed

lemma runs_propagate:
  assumes wf: "wf_world w" and ok: "opts_ok opts" and good: "good_error w c"
  shows "runs w (propagate site (Some c) msg opts)
    (wraps (case error_kind c of None \<Rightarrow> KindError | Some k \<Rightarrow> k) msg c)"
  using runs_propagate_as [OF assms, of site] by (cases c) (simp_all add: propagate_def)

lemma wraps_live: "wraps k msg c r w \<Longrightarrow> \<exists>e. r = Some e \<and> live_error w (wrapped_kind k c) e \<and> unwrap e = Some c"
  by (auto simp: wraps_def)

lemma wrapped_kind_self: "error_kind c = Some k \<Longrightarrow> wrapped_kind k c = k"
  by (simp add: wrapped_kind_def)

text \<open>The form most callers use: a result that is an error is propagated, a value passes through.\<close>

lemma runs_propagate_left:
  assumes wf: "wf_world w" and ok: "opts_ok opts"
    and good: "\<And>e. r = Inl e \<Longrightarrow> good_error w e"
  shows "runs w (propagate_left site msg opts r)
    (\<lambda>r' w'. case r of
        Inr x \<Rightarrow> r' = Inr x
      | Inl e \<Rightarrow> \<exists>e'. r' = Inl e' \<and> unwrap e' = Some e
          \<and> live_error w' (case error_kind e of None \<Rightarrow> KindError | Some k \<Rightarrow> k) e')"
proof (cases r)
  case (Inr x)
  then show ?thesis using wf by (simp add: propagate_left_def runs_ret)
next
  case (Inl e)
  have "runs w (propagate site (Some e) msg opts)
    (wraps (case error_kind e of None \<Rightarrow> KindError | Some k \<Rightarrow> k) msg e)"
    by (rule runs_propagate [OF wf ok good [OF Inl]])
  then show ?thesis
    unfolding propagate_left_def Inl sum.case
    by (rule runs_bind) (auto intro!: runs_ret simp: wraps_def wrapped_kind_def split: option.splits)
qed

end
