(* ===== verification/Http.thy ===== *)
theory Http
  imports Calls
begin

text \<open>
  What the program uses of \<open>net/http\<close>: header maps with canonical keys, the response a client
  receives, and the writer a server answers on.
\<close>

section \<open>Headers\<close>

definition token_char :: "char \<Rightarrow> bool" where
  "token_char c \<longleftrightarrow>
     c \<in> set ''ABCDEFGHIJKLMNOPQRSTUVWXYZabcdefghijklmnopqrstuvwxyz0123456789!#$%&*+-.^_`|~''
     \<or> c = CHR 0x27"

definition upper_char :: "char \<Rightarrow> char" where
  "upper_char c = (if c \<in> set ''abcdefghijklmnopqrstuvwxyz'' then char_of (of_char c - 32 :: nat) else c)"

definition lower_char :: "char \<Rightarrow> char" where
  "lower_char c = (if c \<in> set ''ABCDEFGHIJKLMNOPQRSTUVWXYZ'' then char_of (of_char c + 32 :: nat) else c)"

text \<open>\<open>textproto.CanonicalMIMEHeaderKey\<close>: a key with a byte no token may have is left alone.\<close>

fun canonical_from :: "bool \<Rightarrow> string \<Rightarrow> string" where
  "canonical_from up [] = []"
| "canonical_from up (c # cs) =
     (if up then upper_char c else lower_char c) # canonical_from (c = CHR ''-'') cs"

definition canonical_key :: "string \<Rightarrow> string" where
  "canonical_key k = (if list_all token_char k then canonical_from True k else k)"

text \<open>A header map; a key without values is absent.\<close>

type_synonym header = "string \<Rightarrow> string list"

definition no_header :: header where
  "no_header = (\<lambda>_. [])"

definition header_get :: "header \<Rightarrow> string \<Rightarrow> string" where
  "header_get h k = (case h (canonical_key k) of [] \<Rightarrow> [] | v # _ \<Rightarrow> v)"

definition header_set :: "string \<Rightarrow> string \<Rightarrow> header \<Rightarrow> header" where
  "header_set k v h = h(canonical_key k := [v])"

definition header_add :: "string \<Rightarrow> string \<Rightarrow> header \<Rightarrow> header" where
  "header_add k v h = h(canonical_key k := h (canonical_key k) @ [v])"

lemma header_get_set [simp]:
  "header_get (header_set k v h) k' = (if canonical_key k' = canonical_key k then v else header_get h k')"
  by (simp add: header_get_def header_set_def)

lemma header_get_none [simp]: "header_get no_header k = []"
  by (simp add: header_get_def no_header_def)

text \<open>The keys the program uses, in canonical form.\<close>

lemma canonical_keys [simp]:
  "canonical_key ''Content-Type'' = ''Content-Type''" "canonical_key ''Retry-After'' = ''Retry-After''"
  "canonical_key ''Authorization'' = ''Authorization''"
  "canonical_key ''X-Session-ID'' = ''X-Session-Id''" "canonical_key ''X-Request-ID'' = ''X-Request-Id''"
  by code_simp+

section \<open>The response of a server, as its client sees it\<close>

text \<open>
  A body is a stream; here what reading it to the end yields: bytes, and the error the read ended
  with, if any.
\<close>

record http_body =
  hb_bytes :: string
  hb_error :: "gerror option"

record http_response =
  resp_status :: int
  resp_header :: header
  resp_body :: "http_body option"

section \<open>The writer a handler answers on\<close>

text \<open>
  \<open>WriteHeader\<close> sends the status and a snapshot of the headers. A later call is superfluous and has
  no effect on the wire, a 1xx status other than 101 is informational and not final, and a code
  outside 100..999 panics. \<open>Write\<close> sends 200 first when no status was sent.
\<close>

record writer =
  wr_header :: header
  wr_sent :: "(int \<times> header) option"
  wr_body :: "string list"

definition new_writer :: writer where
  "new_writer = \<lparr>wr_header = no_header, wr_sent = None, wr_body = []\<rparr>"

definition write_header :: "int \<Rightarrow> (writer, unit) act" where
  "write_header code w =
     (if code < 100 \<or> 999 < code then panic (''invalid WriteHeader code '' @ int_str code) w
      else if wr_sent w \<noteq> None then ret () w
      else if code < 200 \<and> code \<noteq> 101 then ret () w
      else ret () (w\<lparr>wr_sent := Some (code, wr_header w)\<rparr>))"

definition write_bytes :: "string \<Rightarrow> (writer, unit) act" where
  "write_bytes b =
     (\<lambda>w. let w' = (if wr_sent w = None then w\<lparr>wr_sent := Some (200, wr_header w)\<rparr> else w)
          in ret () (w'\<lparr>wr_body := wr_body w' @ [b]\<rparr>))"

definition set_header :: "string \<Rightarrow> string \<Rightarrow> (writer, unit) act" where
  "set_header k v w = ret () (w\<lparr>wr_header := header_set k v (wr_header w)\<rparr>)"

definition del_header :: "string \<Rightarrow> (writer, unit) act" where
  "del_header k w = ret () (w\<lparr>wr_header := (wr_header w)(canonical_key k := [])\<rparr>)"

text \<open>\<open>http.Error\<close>.\<close>

definition http_error :: "string \<Rightarrow> int \<Rightarrow> (writer, unit) act" where
  "http_error msg code =
     bind_act (del_header ''Content-Length'') (\<lambda>_.
     bind_act (set_header ''Content-Type'' ''text/plain; charset=utf-8'') (\<lambda>_.
     bind_act (set_header ''X-Content-Type-Options'' ''nosniff'') (\<lambda>_.
     bind_act (write_header code) (\<lambda>_.
     write_bytes (msg @ [CHR 0x0A])))))"

text \<open>The status the client sees once the handler has returned.\<close>

definition final_status :: "writer \<Rightarrow> int" where
  "final_status w = (case wr_sent w of Some (c, _) \<Rightarrow> c | None \<Rightarrow> 200)"

lemma write_header_first:
  "200 \<le> code \<Longrightarrow> code \<le> 999 \<Longrightarrow>
   write_header code w = (Ret (), case wr_sent w of Some _ \<Rightarrow> w | None \<Rightarrow> w\<lparr>wr_sent := Some (code, wr_header w)\<rparr>)"
  by (auto simp: write_header_def ret_def split: option.split)

lemma write_bytes_sent:
  "wr_sent w = Some s \<Longrightarrow> write_bytes b w = (Ret (), w\<lparr>wr_body := wr_body w @ [b]\<rparr>)"
  by (simp add: write_bytes_def ret_def)

lemma http_error_sent:
  assumes "wr_sent w = Some s" and "200 \<le> code" and "code \<le> 999"
  shows "\<exists>w'. http_error msg code w = (Ret (), w') \<and> wr_sent w' = Some s
    \<and> wr_body w' = wr_body w @ [msg @ [CHR 0x0A]]"
  using assms
  by (simp add: http_error_def bind_act_def ret_def set_header_def del_header_def write_header_def write_bytes_def)

end
