(* ===== verification/Rest.thy ===== *)
theory Rest
  imports Http
begin

text \<open>
  How a server answers with an error: \<open>rest/response.go\<close>, \<open>rest/route.go\<close> and \<open>rest/unrouted.go\<close>.
  The router is chi's; the model starts at the handlers it calls.
\<close>

section \<open>The state of a request being served\<close>

datatype log_level = LDebug | LInfo | LWarn | LErr | LFatal

record srv =
  sv_world :: world
  sv_writer :: writer
  sv_log :: "(log_level \<times> string \<times> log_field list) list"

definition on_world :: "(world, 'a) act \<Rightarrow> (srv, 'a) act" where
  "on_world m s = (case m (sv_world s) of (r, w) \<Rightarrow> (r, s\<lparr>sv_world := w\<rparr>))"

definition on_writer :: "(writer, 'a) act \<Rightarrow> (srv, 'a) act" where
  "on_writer m s = (case m (sv_writer s) of (r, w) \<Rightarrow> (r, s\<lparr>sv_writer := w\<rparr>))"

text \<open>A log record holds the fields of the logger it was written to, then its own.\<close>

fun log_to :: "logger \<Rightarrow> log_level \<Rightarrow> string \<Rightarrow> log_field list \<Rightarrow> (srv, unit) act" where
  "log_to (Logger n fs) lvl msg gs s = ret () (s\<lparr>sv_log := sv_log s @ [(lvl, msg, fs @ gs)]\<rparr>)"

section \<open>Responses\<close>

datatype payload = PMessage string | PDTO "dto option" | PValue gval

record response =
  rs_status :: int
  rs_payload :: payload

definition write_response :: "int \<Rightarrow> payload \<Rightarrow> response" where
  "write_response code p = \<lparr>rs_status = code, rs_payload = p\<rparr>"

definition write_message :: "int \<Rightarrow> string \<Rightarrow> response" where
  "write_message code msg = write_response code (PMessage msg)"

text \<open>
  \<open>Must\<close>: JSON encoding writes nothing when it fails, so the fallback is what the body holds then.
  What the encoder makes of a payload, in the current heap, is an argument: \<open>None\<close> is an error.
\<close>

definition fallback_body :: string where
  "fallback_body = ''{\"error\":\"Internal Server Error\",\"kind\":\"P00002\"}''"

definition response_must ::
  "(world \<Rightarrow> payload \<Rightarrow> string option) \<Rightarrow> response \<Rightarrow> (srv, unit) act" where
  "response_must json r =
     bind_act (on_writer (set_header ''Content-Type'' ''application/json'')) (\<lambda>_.
     bind_act (on_writer (write_header (rs_status r))) (\<lambda>_ s.
       (case json (sv_world s) (rs_payload r) of
          Some b \<Rightarrow> on_writer (write_bytes b)
        | None \<Rightarrow> on_writer (http_error fallback_body 500)) s))"

section \<open>Error responses\<close>

definition SUPPRESSED_HINT :: string where
  "SUPPRESSED_HINT = ''Suppressed system error, contact the support''"

text \<open>\<open>protectErrorDTO\<close> takes an \<open>*ErrorT\<close>, so it always has a kind.\<close>

definition protect_error_dto :: "gerror \<Rightarrow> (world, dto option) act" where
  "protect_error_dto e w =
     (case error_kind e of
        None \<Rightarrow> ret None w
      | Some k \<Rightarrow>
          if \<not> kind_is k KindUserError then
            bind_act (mirror_override (kind_for_status (status_code k)) (Some e) [hint_opt SUPPRESSED_HINT])
              (\<lambda>g w. ret (error_dto w g) w) w
          else ret (error_dto w e) w)"

text \<open>\<open>unknownErrorResponse\<close> is a package variable, built once at start-up.\<close>

definition make_unknown_error_response :: "(world, response) act" where
  "make_unknown_error_response =
     bind_act (raw_error KindSystemError ''unknown error'' []) (\<lambda>e.
     bind_act (protect_error_dto e) (\<lambda>d. ret (write_response 500 (PDTO d))))"

definition write_error :: "response \<Rightarrow> gerror option \<Rightarrow> (world, response) act" where
  "write_error unknown err =
     (case err of
        None \<Rightarrow> ret unknown
      | Some c \<Rightarrow>
          bind_act (case as_errort c of
                      Some e \<Rightarrow> ret e
                    | None \<Rightarrow> raw_error KindSystemError ''internal server error'' []) (\<lambda>e.
          bind_act (protect_error_dto e) (\<lambda>d.
          ret (write_response (case error_status_code e of Some s \<Rightarrow> s | None \<Rightarrow> 500) (PDTO d)))))"

section \<open>Routes\<close>

record route =
  rt_method :: string
  rt_pattern :: string
  rt_fn :: "go_ctx \<Rightarrow> (srv, gerror option) act"

definition Get :: "string \<Rightarrow> (go_ctx \<Rightarrow> (srv, gerror option) act) \<Rightarrow> route" where
  "Get url f = \<lparr>rt_method = ''GET'', rt_pattern = url, rt_fn = f\<rparr>"

definition Post :: "string \<Rightarrow> (go_ctx \<Rightarrow> (srv, gerror option) act) \<Rightarrow> route" where
  "Post url f = \<lparr>rt_method = ''POST'', rt_pattern = url, rt_fn = f\<rparr>"

definition Put :: "string \<Rightarrow> (go_ctx \<Rightarrow> (srv, gerror option) act) \<Rightarrow> route" where
  "Put url f = \<lparr>rt_method = ''PUT'', rt_pattern = url, rt_fn = f\<rparr>"

definition Patch :: "string \<Rightarrow> (go_ctx \<Rightarrow> (srv, gerror option) act) \<Rightarrow> route" where
  "Patch url f = \<lparr>rt_method = ''PATCH'', rt_pattern = url, rt_fn = f\<rparr>"

definition Delete :: "string \<Rightarrow> (go_ctx \<Rightarrow> (srv, gerror option) act) \<Rightarrow> route" where
  "Delete url f = \<lparr>rt_method = ''DELETE'', rt_pattern = url, rt_fn = f\<rparr>"

definition route_handler ::
  "(world \<Rightarrow> payload \<Rightarrow> string option) \<Rightarrow> response \<Rightarrow> route \<Rightarrow> go_ctx \<Rightarrow> (srv, unit) act" where
  "route_handler json unknown rt ctx =
     bind_act (rt_fn rt ctx) (\<lambda>err.
       case err of
         None \<Rightarrow> ret ()
       | Some e \<Rightarrow>
           bind_act (get_logger_from_context ctx) (\<lambda>l.
           bind_act
             (if is_kind (Some e) KindUserError
              then log_to l LWarn ''[USER ERROR]'' [LogError (zap_error (Some e))]
              else log_to l LErr ''[SYSTEM ERROR]'' [LogError (zap_error (Some e))]) (\<lambda>_.
           bind_act (on_world (write_error unknown (Some e))) (\<lambda>r. response_must json r))))"

section \<open>Unrouted requests\<close>

definition unrouted_logger :: "logger \<Rightarrow> go_ctx \<Rightarrow> logger" where
  "unrouted_logger global ctx =
     (case ctx_value ctx LoggerKey of Some (CVLogger l) \<Rightarrow> l | _ \<Rightarrow> global)"

definition log_unrouted :: "logger \<Rightarrow> go_ctx \<Rightarrow> string \<Rightarrow> string \<Rightarrow> string \<Rightarrow> (srv, unit) act" where
  "log_unrouted global ctx meth path message =
     log_to (unrouted_logger global ctx) LWarn message
       [LogField ''method'' (VStr meth), LogField ''path'' (VStr path)]"

definition unrouted ::
  "(world \<Rightarrow> payload \<Rightarrow> string option) \<Rightarrow> response \<Rightarrow> int \<Rightarrow> string \<Rightarrow> (srv, unit) act" where
  "unrouted json unknown status hint =
     bind_act (on_world (mirror_error (kind_for_status status) [hint_opt hint])) (\<lambda>e.
     bind_act (on_world (write_error unknown (Some e))) (\<lambda>r. response_must json r))"

definition not_found_handler ::
  "(world \<Rightarrow> payload \<Rightarrow> string option) \<Rightarrow> response \<Rightarrow> logger \<Rightarrow> go_ctx \<Rightarrow> string \<Rightarrow> string \<Rightarrow> (srv, unit) act"
where
  "not_found_handler json unknown global ctx meth path =
     bind_act (log_unrouted global ctx meth path ''No route matches the request path.'') (\<lambda>_.
     unrouted json unknown 404 ''No route matches the requested path.'')"

definition method_not_allowed_handler ::
  "(world \<Rightarrow> payload \<Rightarrow> string option) \<Rightarrow> response \<Rightarrow> logger \<Rightarrow> go_ctx \<Rightarrow> string \<Rightarrow> string \<Rightarrow> (srv, unit) act"
where
  "method_not_allowed_handler json unknown global ctx meth path =
     bind_act (log_unrouted global ctx meth path ''No route matches the request method.'') (\<lambda>_.
     unrouted json unknown 405 ''The request method is not allowed for this path.'')"

end
