(* ===== verification/Rest_Props.thy ===== *)
theory Rest_Props
  imports Rest
begin

text \<open>
  What a client learns from an error response: user errors in full, every other error only as its
  status and its code; and what the handler of a route sends and logs.
\<close>

section \<open>The projection of an error\<close>

lemma protect_user_run:
  "kind_is k KindUserError \<Longrightarrow>
   protect_error_dto (ErrorT k m c o' a) w = (Ret (error_dto w (ErrorT k m c o' a)), w)"
  by (simp add: protect_error_dto_def ret_def)

definition suppressed_world :: "world \<Rightarrow> world" where
  "suppressed_world w = w\<lparr>next_addr := Suc (Suc (next_addr w)),
     cells := (cells w)(next_addr w := empty_cell\<lparr>cell_details := Some (Suc (next_addr w))\<rparr>),
     details_maps := (details_maps w)(Suc (next_addr w) := [''hint'' \<mapsto> VStr SUPPRESSED_HINT])\<rparr>"

definition suppressed_dto :: "world \<Rightarrow> kind \<Rightarrow> dto" where
  "suppressed_dto w k =
     (let g = kind_for_status (status_code k) in
      \<lparr>dto_name = fqn g, dto_error = kind_description g, dto_code = kind_code g,
       dto_origin = kind_code k, dto_details = Some (Suc (next_addr w))\<rparr>)"

lemma protect_system_run:
  "\<not> kind_is k KindUserError \<Longrightarrow>
   protect_error_dto (ErrorT k m c o' a) w = (Ret (Some (suppressed_dto w k)), suppressed_world w)"
  by (simp add: protect_error_dto_def mirror_override_def new_errort_def with_opts_def hint_opt_def
      put_detail_def bind_act_def ret_def Let_def code_of_def suppressed_dto_def suppressed_world_def
      empty_cell_def)

lemma suppressed_kept:
  assumes "wf_world w"
  shows "errors_kept w (suppressed_world w)"
proof -
  have nd: "cell_details (cells w b) \<noteq> Some (Suc (next_addr w))" for b
    using wf_cell [OF assms, of b] by (auto simp: cell_ok_def ref_ok_def)
  show ?thesis
    unfolding errors_kept_def
  proof (intro allI impI conjI)
    fix b assume b: "b < next_addr w"
    show "cells (suppressed_world w) b = cells w b" using b by (simp add: suppressed_world_def)
    then show "trace_of (suppressed_world w) b = trace_of w b"
      by (simp add: trace_of_def slice_elems_def suppressed_world_def split: slice.split)
    show "details_of (suppressed_world w) b = details_of w b"
      using b nd [of b] by (auto simp: details_of_def suppressed_world_def split: option.split)
  qed
qed

text \<open>The details a DTO carries over the wire.\<close>

definition dto_details_of :: "world \<Rightarrow> dto \<Rightarrow> string \<Rightarrow> gval option" where
  "dto_details_of w d = (case dto_details d of None \<Rightarrow> Map.empty | Some p \<Rightarrow> details_maps w p)"

lemma write_error_user:
  assumes "as_errort c = Some (ErrorT k m c' o' a)" and "kind_is k KindUserError"
  shows "write_error unknown (Some c) w =
    (Ret (write_response (status_code k) (PDTO (error_dto w (ErrorT k m c' o' a)))), w)"
  using assms
  by (simp add: write_error_def bind_act_def ret_def protect_user_run error_status_code_def)

lemma write_error_system:
  assumes "as_errort c = Some (ErrorT k m c' o' a)" and "\<not> kind_is k KindUserError"
  shows "write_error unknown (Some c) w =
    (Ret (write_response (status_code k) (PDTO (Some (suppressed_dto w k)))), suppressed_world w)"
  using assms
  by (simp add: write_error_def bind_act_def ret_def protect_system_run error_status_code_def)

lemma suppressed_details: "dto_details_of (suppressed_world w) (suppressed_dto w k) = [''hint'' \<mapsto> VStr SUPPRESSED_HINT]"
  by (simp add: dto_details_of_def suppressed_dto_def suppressed_world_def Let_def)

text \<open>An answer for a nil error, for the examples.\<close>

definition no_answer :: response where
  "no_answer = write_response 500 (PDTO None)"



text \<open>
  C8: A suppressed error leaks nothing but its code and status. Two errors of non-user kinds with
  the same kind code and status, whatever their messages, causes, details, parents' names and
  heaps, are answered with the same status and DTOs that agree in every field and in the details.
\<close>

theorem suppressed_errors_indistinguishable:
  assumes "as_errort c1 = Some (ErrorT k1 m1 d1 o1 a1)" and "as_errort c2 = Some (ErrorT k2 m2 d2 o2 a2)"
    and "\<not> kind_is k1 KindUserError" and "\<not> kind_is k2 KindUserError"
    and "kind_code k1 = kind_code k2" and "status_code k1 = status_code k2"
  shows "\<exists>s e1 e2 w1' w2'.
      write_error unknown (Some c1) w1 = (Ret (write_response s (PDTO (Some e1))), w1')
    \<and> write_error unknown (Some c2) w2 = (Ret (write_response s (PDTO (Some e2))), w2')
    \<and> e1\<lparr>dto_details := None\<rparr> = e2\<lparr>dto_details := None\<rparr>
    \<and> dto_details_of w1' e1 = dto_details_of w2' e2"
proof -
  have "(suppressed_dto w1 k1)\<lparr>dto_details := None\<rparr> = (suppressed_dto w2 k2)\<lparr>dto_details := None\<rparr>"
    using assms(5,6) by (simp add: suppressed_dto_def Let_def)
  moreover have "dto_details_of (suppressed_world w1) (suppressed_dto w1 k1)
      = dto_details_of (suppressed_world w2) (suppressed_dto w2 k2)"
    by (simp only: suppressed_details)
  ultimately show ?thesis
    using write_error_system [OF assms(1,3), of unknown w1] write_error_system [OF assms(2,4), of unknown w2]
      assms(6) by metis
qed

theorem suppressed_errors_indistinguishable_witness:
  "\<exists>s e1 e2 w1' w2'.
      write_error no_answer (Some sample_error) sample_world = (Ret (write_response s (PDTO (Some e1))), w1')
    \<and> write_error no_answer (Some (ErrorT KindError ''password=x'' None None 0)) sample_world
        = (Ret (write_response s (PDTO (Some e2))), w2')
    \<and> dto_error e1 = dto_error e2"
proof -
  have a: "as_errort sample_error = Some sample_error"
    "as_errort (ErrorT KindError ''password=x'' None None 0) = Some (ErrorT KindError ''password=x'' None None 0)"
    by simp_all
  have k: "\<not> kind_is KindError KindUserError" by (simp add: KindError_def KindUserError_def)
  obtain s e1 e2 w1' w2' where
    r: "write_error no_answer (Some sample_error) sample_world = (Ret (write_response s (PDTO (Some e1))), w1')"
       "write_error no_answer (Some (ErrorT KindError ''password=x'' None None 0)) sample_world
         = (Ret (write_response s (PDTO (Some e2))), w2')"
    and eq: "e1\<lparr>dto_details := None\<rparr> = e2\<lparr>dto_details := None\<rparr>"
    using suppressed_errors_indistinguishable [OF a k k refl refl, of no_answer sample_world sample_world] by blast
  have "dto_error e1 = dto_error e2" using arg_cong [OF eq, of dto_error] by simp
  with r show ?thesis by blast
qed

section \<open>What goes out\<close>

definition body_sent :: "(world \<Rightarrow> payload \<Rightarrow> string option) \<Rightarrow> world \<Rightarrow> payload \<Rightarrow> string" where
  "body_sent json w p = (case json w p of Some b \<Rightarrow> b | None \<Rightarrow> fallback_body @ [CHR 0x0A])"

lemma response_must_run:
  assumes "wr_sent (sv_writer s) = None" and "200 \<le> rs_status r" and "rs_status r \<le> 999"
  shows "\<exists>s'. response_must json r s = (Ret (), s')
    \<and> wr_sent (sv_writer s') = Some (rs_status r, header_set ''Content-Type'' ''application/json'' (wr_header (sv_writer s)))
    \<and> wr_body (sv_writer s') = wr_body (sv_writer s) @ [body_sent json (sv_world s) (rs_payload r)]
    \<and> sv_world s' = sv_world s \<and> sv_log s' = sv_log s"
proof -
  let ?h = "header_set ''Content-Type'' ''application/json'' (wr_header (sv_writer s))"
  let ?wr = "(sv_writer s)\<lparr>wr_header := ?h, wr_sent := Some (rs_status r, ?h)\<rparr>"
  let ?s = "s\<lparr>sv_writer := ?wr\<rparr>"
  have "write_header (rs_status r) ((sv_writer s)\<lparr>wr_header := ?h\<rparr>) = (Ret (), ?wr)"
    using assms by (simp add: write_header_first)
  then have pre: "response_must json r s =
      (case json (sv_world s) (rs_payload r) of
         Some b \<Rightarrow> on_writer (write_bytes b)
       | None \<Rightarrow> on_writer (http_error fallback_body 500)) ?s"
    by (simp add: response_must_def bind_act_def on_writer_def set_header_def ret_def)
  show ?thesis
  proof (cases "json (sv_world s) (rs_payload r)")
    case None
    have snt: "wr_sent ?wr = Some (rs_status r, ?h)" by simp
    obtain w' where "http_error fallback_body 500 ?wr = (Ret (), w')"
      "wr_sent w' = Some (rs_status r, ?h)" "wr_body w' = wr_body ?wr @ [fallback_body @ [CHR 0x0A]]"
      using http_error_sent [OF snt, of 500 fallback_body] by auto
    with pre None show ?thesis by (simp add: on_writer_def body_sent_def)
  next
    case (Some b)
    with pre show ?thesis by (simp add: on_writer_def write_bytes_sent body_sent_def)
  qed
qed

text \<open>
  What the handler of a route does with an error. When the route function returns an error that
  holds a garlic error of kind k, before anything was sent, the handler sends exactly the status of
  k with a JSON content type and one body, the encoded projection of the error or, when encoding
  fails, the fixed fallback text under that same status; and it writes one log record, a warning
  exactly when any error of the chain is of a user kind, which a server error that wraps a user
  error is too.
\<close>

theorem route_handler_answers:
  assumes "rt_fn rt ctx s = (Ret (Some e), s1)" and "as_errort e = Some (ErrorT k m c o' a)"
    and "ctx_value ctx LoggerKey = Some (CVLogger (Logger n fs))"
    and "wr_sent (sv_writer s1) = None" and "200 \<le> status_code k" and "status_code k \<le> 999"
  shows "\<exists>s' d. route_handler json unknown rt ctx s = (Ret (), s')
    \<and> fst (protect_error_dto (ErrorT k m c o' a) (sv_world s1)) = Ret (Some d)
    \<and> map_option fst (wr_sent (sv_writer s')) = Some (status_code k)
    \<and> map_option (\<lambda>x. header_get (snd x) ''Content-Type'') (wr_sent (sv_writer s')) = Some ''application/json''
    \<and> wr_body (sv_writer s') = wr_body (sv_writer s1) @ [body_sent json (sv_world s') (PDTO (Some d))]
    \<and> sv_log s' = sv_log s1 @
        [if is_kind (Some e) KindUserError
         then (LWarn, ''[USER ERROR]'', fs @ [LogError (zap_error (Some e))])
         else (LErr, ''[SYSTEM ERROR]'', fs @ [LogError (zap_error (Some e))])]"
proof -
  obtain d w' where p: "protect_error_dto (ErrorT k m c o' a) (sv_world s1) = (Ret (Some d), w')"
    by (cases "kind_is k KindUserError") (simp_all add: protect_user_run protect_system_run)
  then have we: "write_error unknown (Some e) (sv_world s1)
      = (Ret (write_response (status_code k) (PDTO (Some d))), w')"
    using assms(2) by (simp add: write_error_def bind_act_def ret_def error_status_code_def)
  let ?log = "if is_kind (Some e) KindUserError
         then (LWarn, ''[USER ERROR]'', fs @ [LogError (zap_error (Some e))])
         else (LErr, ''[SYSTEM ERROR]'', fs @ [LogError (zap_error (Some e))])"
  let ?s2 = "s1\<lparr>sv_log := sv_log s1 @ [?log], sv_world := w'\<rparr>"
  let ?r = "write_response (status_code k) (PDTO (Some d))"
  have "route_handler json unknown rt ctx s = response_must json ?r ?s2"
    using assms(1,3) we
    by (simp add: route_handler_def bind_act_def get_logger_from_context_def ret_def on_world_def)
  moreover have "wr_sent (sv_writer ?s2) = None" "200 \<le> rs_status ?r" "rs_status ?r \<le> 999"
    using assms(4-6) by (simp_all add: write_response_def)
  ultimately show ?thesis
    using response_must_run [of ?s2 ?r json] p by (auto simp: write_response_def)
qed

definition sample_srv :: srv where
  "sample_srv = \<lparr>sv_world = sample_world, sv_writer = new_writer, sv_log = []\<rparr>"

definition wrapped_user_error :: gerror where
  "wrapped_user_error = ErrorT KindSystemError ''lookup failed''
     (Some (ErrorT KindUserError ''bad id'' None None 0)) None 0"

theorem route_handler_answers_witness:
  "\<exists>s'. route_handler (\<lambda>w p. Some ''{}'') no_answer (Get ''/x'' (\<lambda>ctx. ret (Some wrapped_user_error)))
        (set_context_logger background (Logger ''root'' [])) sample_srv = (Ret (), s')
    \<and> map_option fst (wr_sent (sv_writer s')) = Some 500
    \<and> sv_log s' = [(LWarn, ''[USER ERROR]'', [LogError (zap_error (Some wrapped_user_error))])]"
proof -
  let ?rt = "Get ''/x'' (\<lambda>ctx. ret (Some wrapped_user_error))"
  let ?ctx = "set_context_logger background (Logger ''root'' [])"
  have run: "rt_fn ?rt ?ctx sample_srv = (Ret (Some wrapped_user_error), sample_srv)"
    by (simp add: Get_def ret_def)
  have as: "as_errort wrapped_user_error = Some (ErrorT KindSystemError ''lookup failed''
     (Some (ErrorT KindUserError ''bad id'' None None 0)) None 0)"
    by (simp add: wrapped_user_error_def)
  have lg: "ctx_value ?ctx LoggerKey = Some (CVLogger (Logger ''root'' []))"
    by (simp add: set_context_logger_def)
  have wr: "wr_sent (sv_writer sample_srv) = None" "sv_log sample_srv = []"
    by (simp_all add: sample_srv_def new_writer_def)
  have st: "200 \<le> status_code KindSystemError" "status_code KindSystemError \<le> 999"
    "status_code KindSystemError = 500"
    by (simp_all add: KindSystemError_def kind_defs)
  have u: "is_kind (Some wrapped_user_error) KindUserError"
    by (simp add: wrapped_user_error_def is_kind_ErrorT)
  show ?thesis
    using route_handler_answers [OF run as lg wr(1) st(1,2), of "\<lambda>w p. Some ''{}''" no_answer] st(3) u wr(2)
    by auto
qed

text \<open>
  An unrouted request is answered in the error envelope. The handlers for an unknown path and for
  a method mismatch send 404 and 405 with the DTO of the kind for that status, the status text as
  the message and the handler's hint as the only detail, whether or not the request carries a
  logger.
\<close>

theorem unrouted_requests_answered:
  assumes "wr_sent (sv_writer s) = None" and "h = not_found_handler \<and> status = 404 \<and> hint = ''No route matches the requested path.''
      \<or> h = method_not_allowed_handler \<and> status = 405 \<and> hint = ''The request method is not allowed for this path.''"
  shows "\<exists>s' d. h json unknown global ctx meth path s = (Ret (), s')
    \<and> map_option fst (wr_sent (sv_writer s')) = Some status
    \<and> wr_body (sv_writer s') = wr_body (sv_writer s) @ [body_sent json (sv_world s') (PDTO (Some d))]
    \<and> dto_code d = kind_code (kind_for_status status) \<and> dto_error d = status_text status
    \<and> dto_origin d = [] \<and> dto_details_of (sv_world s') d = [''hint'' \<mapsto> VStr hint]"
proof -
  obtain n fs where lg: "unrouted_logger global ctx = Logger n fs" by (cases "unrouted_logger global ctx")
  let ?k = "kind_for_status status" and ?w = "sv_world s" and ?a = "next_addr (sv_world s)"
  have std: "status_text status \<noteq> []" using assms(2) by (auto simp: status_text_def http_statuses_def)
  have k: "kind_is ?k KindUserError" "kind_description ?k = status_text status" "status_code ?k = status"
    using assms(2) std by (auto simp: kind_for_status_eq http_kind_is_user status_http_kind)
  define w' where "w' = ?w\<lparr>next_addr := Suc (Suc ?a),
     cells := (cells ?w)(?a := empty_cell\<lparr>cell_details := Some (Suc ?a)\<rparr>),
     details_maps := (details_maps ?w)(Suc ?a := [''hint'' \<mapsto> VStr hint])\<rparr>"
  let ?e = "ErrorT ?k (status_text status) None None ?a"
  have me: "mirror_error ?k [hint_opt hint] ?w = (Ret ?e, w')"
    by (simp add: mirror_error_def new_errort_def with_opts_def hint_opt_def put_detail_def bind_act_def
        ret_def Let_def w'_def k(2) empty_cell_def)
  let ?d = "\<lparr>dto_name = fqn ?k, dto_error = status_text status, dto_code = kind_code ?k, dto_origin = [],
               dto_details = Some (Suc ?a)\<rparr>"
  have dto: "error_dto w' ?e = Some ?d" by (simp add: w'_def code_of_def)
  have we: "write_error unknown (Some ?e) w' = (Ret (write_response status (PDTO (Some ?d))), w')"
    using write_error_user [of ?e, OF _ k(1)] dto k(3) by simp
  obtain msg where h: "h json unknown global ctx meth path =
      bind_act (log_unrouted global ctx meth path msg) (\<lambda>_. unrouted json unknown status hint)"
    using assms(2) by (auto simp: not_found_handler_def method_not_allowed_handler_def)
  define s2 where "s2 = s\<lparr>sv_log := sv_log s @
      [(LWarn, msg, fs @ [LogField ''method'' (VStr meth), LogField ''path'' (VStr path)])], sv_world := w'\<rparr>"
  have "h json unknown global ctx meth path s = response_must json (write_response status (PDTO (Some ?d))) s2"
    using me we by (simp add: h bind_act_def log_unrouted_def lg ret_def unrouted_def on_world_def s2_def)
  moreover have "200 \<le> status" "status \<le> 999" "wr_sent (sv_writer s2) = None"
    using assms by (auto simp: s2_def)
  moreover have "dto_details_of w' ?d = [''hint'' \<mapsto> VStr hint]" by (simp add: dto_details_of_def w'_def)
  ultimately obtain s' where s': "h json unknown global ctx meth path s = (Ret (), s')"
      "map_option fst (wr_sent (sv_writer s')) = Some status"
      "wr_body (sv_writer s') = wr_body (sv_writer s) @ [body_sent json (sv_world s') (PDTO (Some ?d))]"
      "sv_world s' = w'"
    using response_must_run [of s2 "write_response status (PDTO (Some ?d))" json]
    by (auto simp: write_response_def s2_def)
  then show ?thesis
    using \<open>dto_details_of w' ?d = [''hint'' \<mapsto> VStr hint]\<close>
    by (intro exI [of _ s'] exI [of _ ?d]) simp
qed

theorem unrouted_requests_answered_witness:
  "\<exists>s' d. not_found_handler (\<lambda>w p. None) no_answer (Logger ''root'' []) background ''GET'' ''/nope'' sample_srv = (Ret (), s')
    \<and> map_option fst (wr_sent (sv_writer s')) = Some 404 \<and> wr_body (sv_writer s') = [fallback_body @ [CHR 0x0A]]
    \<and> dto_code (d :: dto) = ''S00404''"
proof -
  have wr: "wr_sent (sv_writer sample_srv) = None" "wr_body (sv_writer sample_srv) = []"
    by (simp_all add: sample_srv_def new_writer_def)
  have "status_text 404 \<noteq> []" by (simp add: status_text_def http_statuses_def)
  then have "kind_code (kind_for_status 404) = ''S'' @ pad_zeros 5 (int_str 404)" by (simp add: kind_for_status_eq)
  also have "\<dots> = ''S00404''" by code_simp
  finally have c: "kind_code (kind_for_status 404) = ''S00404''" .
  have sel: "not_found_handler = not_found_handler \<and> (404::int) = 404
      \<and> ''No route matches the requested path.'' = ''No route matches the requested path.''
    \<or> not_found_handler = method_not_allowed_handler \<and> (404::int) = 405
      \<and> ''No route matches the requested path.'' = ''The request method is not allowed for this path.''"
    by simp
  show ?thesis
    using unrouted_requests_answered [OF wr(1) sel, of "\<lambda>w p. None" no_answer "Logger ''root'' []" background
        "''GET''" "''/nope''"] c wr(2)
    by (simp only: body_sent_def option.case append_Nil) blast
qed

end
