(* ===== verification/Server.thy ===== *)
theory Server
  imports Rest_Props
begin

text \<open>
  \<open>rest/server.go\<close>: the table of named servers, and \<open>Listen\<close> as the two goroutines it starts, which
  share one channel of capacity one.
\<close>

section \<open>Named servers\<close>

text \<open>A hook is known by a name; running it is an effect outside the model.\<close>

record server =
  srv_name :: string
  srv_root :: "(string \<times> string) list"
  srv_shutdown_timeout :: int
  srv_on_shutdown :: "string option"

type_synonym server_option = "server \<Rightarrow> server"

definition DEFAULT_SHUTDOWN_TIMEOUT :: int where
  "DEFAULT_SHUTDOWN_TIMEOUT = 30 * 10 ^ 9"

definition with_shutdown_timeout :: "int \<Rightarrow> server_option" where
  "with_shutdown_timeout d s = s\<lparr>srv_shutdown_timeout := d\<rparr>"

definition with_on_shutdown :: "string \<Rightarrow> server_option" where
  "with_on_shutdown f s = s\<lparr>srv_on_shutdown := Some f\<rparr>"

text \<open>The router of a new server holds the two handlers for unrouted requests.\<close>

definition new_server :: "string \<Rightarrow> server_option list \<Rightarrow> server" where
  "new_server name opts =
     foldl (\<lambda>s opt. opt s)
       \<lparr>srv_name = name,
        srv_root = [(''NotFound'', ''notFoundHandler''), (''MethodNotAllowed'', ''methodNotAllowedHandler'')],
        srv_shutdown_timeout = DEFAULT_SHUTDOWN_TIMEOUT, srv_on_shutdown = None\<rparr> opts"

definition server_router :: "server \<Rightarrow> (string \<times> string) list" where
  "server_router s = srv_root s"

text \<open>Servers are shared by pointer: the table maps a name to an address.\<close>

record servers =
  srv_table :: "(string \<Rightarrow> nat option) option"
  srv_heap :: "nat \<Rightarrow> server option"
  srv_next :: nat

definition no_servers :: servers where
  "no_servers = \<lparr>srv_table = None, srv_heap = Map.empty, srv_next = 0\<rparr>"

definition get_server :: "string \<Rightarrow> server_option list \<Rightarrow> servers \<Rightarrow> nat \<times> servers" where
  "get_server name opts st =
     (let table = (case srv_table st of None \<Rightarrow> Map.empty | Some t \<Rightarrow> t) in
      case table name of
        Some a \<Rightarrow> (a, st\<lparr>srv_table := Some table\<rparr>)
      | None \<Rightarrow>
          let a = srv_next st
          in (a, st\<lparr>srv_table := Some (table(name \<mapsto> a)), srv_heap := (srv_heap st)(a \<mapsto> new_server name opts),
                   srv_next := Suc a\<rparr>))"

definition servers_inv :: "servers \<Rightarrow> bool" where
  "servers_inv st \<longleftrightarrow>
     (\<forall>t. srv_table st = Some t \<longrightarrow>
        (\<forall>n a. t n = Some a \<longrightarrow> a < srv_next st) \<and> inj_on t (dom t))"

fun get_servers :: "(string \<times> server_option list) list \<Rightarrow> servers \<Rightarrow> nat list \<times> servers" where
  "get_servers [] st = ([], st)"
| "get_servers ((n, o') # rest) st =
     (let (a, st1) = get_server n o' st; (as, st2) = get_servers rest st1 in (a # as, st2))"

lemma servers_inv_init: "servers_inv no_servers"
  by (simp add: servers_inv_def no_servers_def)

lemma servers_inv_get: "servers_inv st \<Longrightarrow> servers_inv (snd (get_server n opts st))"
  unfolding servers_inv_def get_server_def Let_def
  by (auto split: option.splits simp: inj_on_def dom_def intro: less_SucI) (metis less_irrefl)

lemma get_server_finds:
  "get_server n opts st = (a, st') \<Longrightarrow> \<exists>t. srv_table st' = Some t \<and> t n = Some a"
  by (auto simp: get_server_def Let_def split: option.splits)

lemma get_server_keeps:
  assumes "srv_table st = Some t" and "t n = Some a"
  shows "\<exists>t'. srv_table (snd (get_server n' opts st)) = Some t' \<and> t' n = Some a"
  using assms by (auto simp: get_server_def Let_def split: option.splits)

lemma get_server_heap:
  assumes "servers_inv st" and "srv_table st = Some t" and "t n = Some a"
  shows "srv_heap (snd (get_server n' opts st)) a = srv_heap st a"
  using assms by (force simp: servers_inv_def get_server_def Let_def split: option.splits)

lemma get_servers_keep:
  assumes "servers_inv st" and "srv_table st = Some t" and "t n = Some a"
  shows "servers_inv (snd (get_servers cs st))
    \<and> (\<exists>t'. srv_table (snd (get_servers cs st)) = Some t' \<and> t' n = Some a)
    \<and> srv_heap (snd (get_servers cs st)) a = srv_heap st a"
  using assms
proof (induction cs arbitrary: st t)
  case Nil
  then show ?case by auto
next
  case (Cons c cs)
  obtain n' o' where c: "c = (n', o')" by (cases c)
  let ?st = "snd (get_server n' o' st)"
  obtain t' where t': "srv_table ?st = Some t'" "t' n = Some a"
    using get_server_keeps [OF Cons.prems(2,3)] by blast
  have "snd (get_servers (c # cs) st) = snd (get_servers cs ?st)"
    by (simp add: c split: prod.split)
  then show ?case
    using Cons.IH [OF servers_inv_get [OF Cons.prems(1)] t'] get_server_heap [OF Cons.prems]
    by simp
qed

text \<open>
  GetServer is a multiton. From a fresh process, after any number of calls, asking again for a
  name already asked for gives the very same server, unchanged, whatever options the later calls
  pass, and two different names never give the same server.
\<close>

theorem get_server_multiton:
  assumes "get_server name opts (snd (get_servers before no_servers)) = (a, st)"
  shows "fst (get_server name opts' (snd (get_servers after st))) = a
    \<and> srv_heap (snd (get_servers after st)) a = srv_heap st a
    \<and> (name' \<noteq> name \<longrightarrow> fst (get_server name' opts' (snd (get_servers after st))) \<noteq> a)"
proof -
  have pre: "servers_inv (snd (get_servers cs s))" if "servers_inv s" for cs s
    using that
  proof (induction cs arbitrary: s)
    case (Cons c cs)
    then show ?case
      using servers_inv_get by (cases c) (simp add: split: prod.split, metis snd_conv)
  qed simp
  have inv: "servers_inv st"
    using servers_inv_get [OF pre [OF servers_inv_init], of name opts] assms by (metis snd_conv)
  obtain t where t: "srv_table st = Some t" "t name = Some a"
    using get_server_finds [OF assms] by blast
  let ?s = "snd (get_servers after st)"
  obtain t' where keep: "servers_inv ?s" "srv_table ?s = Some t'" "t' name = Some a"
    and heap: "srv_heap ?s a = srv_heap st a"
    using get_servers_keep [OF inv t, of after] by blast
  have "fst (get_server name' opts' ?s) \<noteq> a" if "name' \<noteq> name"
  proof
    assume eq: "fst (get_server name' opts' ?s) = a"
    obtain t2 where t2: "srv_table (snd (get_server name' opts' ?s)) = Some t2" "t2 name' = Some a"
      using get_server_finds [of name' opts' ?s] eq by (metis prod.collapse)
    obtain t3 where "srv_table (snd (get_server name' opts' ?s)) = Some t3" "t3 name = Some a"
      using get_server_keeps [OF keep(2,3)] by blast
    with t2 servers_inv_get [OF keep(1), of name' opts'] that show False
      by (auto simp: servers_inv_def inj_on_def dom_def)
  qed
  moreover have "fst (get_server name opts' ?s) = a"
    using keep(2,3) by (simp add: get_server_def)
  ultimately show ?thesis using heap by blast
qed

theorem get_server_multiton_witness:
  "fst (get_server ''api'' [] (snd (get_servers [(''admin'', [])]
      (snd (get_server ''api'' [with_shutdown_timeout 5] (snd (get_servers [] no_servers))))))) = 0
   \<and> map_option srv_shutdown_timeout (srv_heap (snd (get_servers [(''api'', [with_shutdown_timeout 7])]
      (snd (get_server ''api'' [with_shutdown_timeout 5] (snd (get_servers [] no_servers)))))) 0) = Some 5"
proof -
  obtain st where run: "get_server ''api'' [with_shutdown_timeout 5] (snd (get_servers [] no_servers)) = (0, st)"
    and h: "map_option srv_shutdown_timeout (srv_heap st 0) = Some 5"
    by (simp add: get_server_def no_servers_def new_server_def with_shutdown_timeout_def)
  show ?thesis
    using get_server_multiton [OF run, where after = "[(''admin'', [])]" and opts' = "[]"]
      get_server_multiton [OF run, where after = "[(''api'', [with_shutdown_timeout 7])]"] run h
    by simp
qed

section \<open>Listen\<close>

text \<open>
  The outer goroutine waits for the context, calls the hook and \<open>Shutdown\<close>, reports its error and
  closes the channel; the inner one runs \<open>ListenAndServe\<close> and reports any error other than
  \<open>ErrServerClosed\<close>. The context, the results of the two \<open>http.Server\<close> calls and the receiver are
  the environment: they act at any time.
\<close>

datatype listen_error = StartFailed | ShutdownFailed

text \<open>Both are \<open>PropagateAs(KindSystemError, ...)\<close> of the error of the call, under these messages.\<close>

fun listen_message :: "listen_error \<Rightarrow> string" where
  "listen_message StartFailed = ''failed to start HTTP server''"
| "listen_message ShutdownFailed = ''failed to gracefully shutdown HTTP server''"

datatype outer_pc = OWait | OShutdown | OSend | OClose | ODone
datatype inner_pc = IServe | ISend | IDone | IPanic

record listen =
  li_outer :: outer_pc
  li_inner :: inner_pc
  li_buf :: "listen_error list"
  li_closed :: bool
  li_got :: "listen_error list"

definition listen_start :: listen where
  "listen_start = \<lparr>li_outer = OWait, li_inner = IServe, li_buf = [], li_closed = False, li_got = []\<rparr>"

inductive listen_step :: "listen \<Rightarrow> listen \<Rightarrow> bool" where
  serve_closed: "li_inner s = IServe \<Longrightarrow> li_outer s \<noteq> OWait \<Longrightarrow> listen_step s (s\<lparr>li_inner := IDone\<rparr>)"
| serve_failed: "li_inner s = IServe \<Longrightarrow> listen_step s (s\<lparr>li_inner := ISend\<rparr>)"
| inner_send: "li_inner s = ISend \<Longrightarrow> \<not> li_closed s \<Longrightarrow> li_buf s = [] \<Longrightarrow>
    listen_step s (s\<lparr>li_inner := IDone, li_buf := [StartFailed]\<rparr>)"
| inner_send_closed: "li_inner s = ISend \<Longrightarrow> li_closed s \<Longrightarrow> listen_step s (s\<lparr>li_inner := IPanic\<rparr>)"
| ctx_done: "li_outer s = OWait \<Longrightarrow> listen_step s (s\<lparr>li_outer := OShutdown\<rparr>)"
| shutdown_ok: "li_outer s = OShutdown \<Longrightarrow> listen_step s (s\<lparr>li_outer := OClose\<rparr>)"
| shutdown_failed: "li_outer s = OShutdown \<Longrightarrow> listen_step s (s\<lparr>li_outer := OSend\<rparr>)"
| outer_send: "li_outer s = OSend \<Longrightarrow> li_buf s = [] \<Longrightarrow>
    listen_step s (s\<lparr>li_outer := OClose, li_buf := [ShutdownFailed]\<rparr>)"
| outer_close: "li_outer s = OClose \<Longrightarrow> listen_step s (s\<lparr>li_outer := ODone, li_closed := True\<rparr>)"
| receive: "li_buf s = e # es \<Longrightarrow> listen_step s (s\<lparr>li_buf := es, li_got := li_got s @ [e]\<rparr>)"

inductive listen_reach :: "listen \<Rightarrow> bool" where
  start: "listen_reach listen_start"
| step: "listen_reach s \<Longrightarrow> listen_step s t \<Longrightarrow> listen_reach t"

definition listen_inv :: "listen \<Rightarrow> bool" where
  "listen_inv s \<longleftrightarrow>
     (li_closed s \<longleftrightarrow> li_outer s = ODone)
   \<and> length (li_buf s) \<le> 1
   \<and> distinct (li_got s @ li_buf s)
   \<and> (StartFailed \<in> set (li_got s @ li_buf s) \<longrightarrow> li_inner s = IDone)
   \<and> (ShutdownFailed \<in> set (li_got s @ li_buf s) \<longrightarrow> li_outer s \<in> {OClose, ODone})
   \<and> (li_inner s = IPanic \<longrightarrow> li_closed s)"

lemma listen_inv_step: "listen_step s t \<Longrightarrow> listen_inv s \<Longrightarrow> listen_inv t"
  by (induction rule: listen_step.induct) (auto simp: listen_inv_def)

lemma listen_reach_inv: "listen_reach s \<Longrightarrow> listen_inv s"
proof (induction rule: listen_reach.induct)
  case start
  then show ?case by (simp add: listen_inv_def listen_start_def)
next
  case (step s t)
  then show ?case using listen_inv_step by blast
qed

text \<open>
  C39: What a receiver of Listen's channel can see. In every reachable state the channel delivers each
  of the two errors at most once and never holds more than one, it is closed exactly when the outer
  goroutine has finished, so never before the context is done, and the only send on a closed
  channel is the one of a server that fails to start after that.
\<close>

theorem listen_channel_discipline:
  assumes "listen_reach s"
  shows "length (li_buf s) \<le> 1 \<and> distinct (li_got s @ li_buf s)
    \<and> (li_closed s = (li_outer s = ODone))
    \<and> (li_outer s = OWait \<longrightarrow> \<not> li_closed s \<and> ShutdownFailed \<notin> set (li_got s @ li_buf s))
    \<and> (li_inner s = IPanic \<longrightarrow> li_closed s \<and> StartFailed \<notin> set (li_got s @ li_buf s))"
  using listen_reach_inv [OF assms] by (auto simp: listen_inv_def)

text \<open>
  Listen can panic. A server whose start fails while the context is being cancelled can send its
  error after the channel was closed: a panic that ends the process.
\<close>

theorem listen_send_on_closed_reachable: "\<exists>s. listen_reach s \<and> li_inner s = IPanic"
proof -
  let ?s1 = "listen_start\<lparr>li_outer := OShutdown\<rparr>"
  let ?s2 = "?s1\<lparr>li_outer := OClose\<rparr>"
  let ?s3 = "?s2\<lparr>li_inner := ISend\<rparr>"
  let ?s4 = "?s3\<lparr>li_outer := ODone, li_closed := True\<rparr>"
  have "listen_reach ?s1"
    by (rule listen_reach.step [OF listen_reach.start]) (rule ctx_done, simp add: listen_start_def)
  then have "listen_reach ?s2" by (rule listen_reach.step) (rule shutdown_ok, simp)
  then have "listen_reach ?s3" by (rule listen_reach.step) (rule serve_failed, simp add: listen_start_def)
  then have "listen_reach ?s4" by (rule listen_reach.step) (rule outer_close, simp)
  then have "listen_reach (?s4\<lparr>li_inner := IPanic\<rparr>)"
    by (rule listen_reach.step) (rule inner_send_closed, simp_all)
  then show ?thesis by (rule exI [where x = "?s4\<lparr>li_inner := IPanic\<rparr>", OF conjI]) simp
qed

theorem listen_channel_discipline_witness:
  "listen_reach (listen_start\<lparr>li_outer := OShutdown\<rparr>)
   \<and> length (li_buf (listen_start\<lparr>li_outer := OShutdown\<rparr>)) \<le> 1"
proof -
  have r: "listen_reach (listen_start\<lparr>li_outer := OShutdown\<rparr>)"
    by (rule listen_reach.step [OF listen_reach.start]) (rule ctx_done, simp add: listen_start_def)
  with listen_channel_discipline [OF r] show ?thesis by blast
qed

end
