(* ===== verification/Validation.thy ===== *)
theory Validation
  imports Rest
begin

text \<open>
  The validator package: messages for the field errors of the validation library, the option that
  merges them into an error's details, the two validations the package adds, and the process-wide
  validator (\<open>validator/error.go\<close>, \<open>validation.go\<close>, \<open>validator.go\<close>). Which fields of a form fail
  which tags is decided by the third-party library: its result is an input.
\<close>

section \<open>Field errors\<close>

record field_error =
  fe_field :: string
  fe_tag :: string
  fe_param :: string

text \<open>What the library returns: field errors, or an error about its use. Both are Go errors.\<close>

datatype val_err = ValErrs string "field_error list" | OtherValErr string

fun val_gerror :: "val_err \<Rightarrow> gerror" where
  "val_gerror (ValErrs msg es) = ForeignErr ''validator.ValidationErrors'' msg None None"
| "val_gerror (OtherValErr msg) = ForeignErr ''error'' msg None None"

fun val_errors :: "val_err \<Rightarrow> field_error list" where
  "val_errors (ValErrs msg es) = es"
| "val_errors (OtherValErr msg) = []"

definition validation_message :: "field_error \<Rightarrow> string" where
  "validation_message e =
     (let field = fe_field e in
      if fe_tag e = ''required'' then field @ '' is a required field''
      else if fe_tag e = ''max'' then field @ '' must be a maximum of '' @ fe_param e @ '' in length''
      else if fe_tag e = ''url'' then field @ '' must be a valid URL''
      else if fe_tag e = ''alpha_space'' then field @ '' can only contain alphabetic and space characters''
      else if fe_tag e = ''datetime'' then
        (if fe_param e = ''2006-01-02'' then field @ '' must be a valid date''
         else field @ '' must follow '' @ fe_param e @ '' format'')
      else ''something wrong on '' @ field @ ''; '' @ fe_tag e)"

definition validation_value :: "field_error list \<Rightarrow> string \<Rightarrow> string option" where
  "validation_value es = foldl (\<lambda>m e. m(fe_field e \<mapsto> validation_message e)) Map.empty es"

text \<open>
  The option. The map under \<open>"validation"\<close> is a reference: an error that shares it sees the new
  messages. Reading a nil details map is allowed, writing to it panics.
\<close>

definition alloc_str_map :: "world \<Rightarrow> addr \<times> world" where
  "alloc_str_map w =
     (let p = next_addr w in
      (p, w\<lparr>next_addr := Suc p, str_maps := (str_maps w)(p := Map.empty)\<rparr>))"

definition validation_opt :: "field_error list \<Rightarrow> opt" where
  "validation_opt es a w =
     (let merge = (\<lambda>p w. w\<lparr>str_maps := (str_maps w)(p := str_maps w p ++ validation_value es)\<rparr>) in
      case cell_details (cells w a) of
        None \<Rightarrow> panic nil_map_write (snd (alloc_str_map w))
      | Some d \<Rightarrow>
          (case details_maps w d ''validation'' of
             Some (VStrMap p) \<Rightarrow> ret () (merge p w)
           | _ \<Rightarrow>
               let (p, w1) = alloc_str_map w
               in ret () (merge p (put_detail d ''validation'' (VStrMap p) w1))))"

definition VALIDATION_HINT :: string where
  "VALIDATION_HINT =
     ''One or more fields of the form were completed incorrectly. Please, fix the errors and try again.''"

definition parse_validation_errors :: "val_err option \<Rightarrow> (world, gerror option) act" where
  "parse_validation_errors err =
     (case err of
        None \<Rightarrow> ret None
      | Some v \<Rightarrow>
          propagate_as ''ParseValidationErrors'' KindValidationError (Some (val_gerror v))
            ''validation error'' [hint_opt VALIDATION_HINT, validation_opt (val_errors v)])"

section \<open>The package's own validations\<close>

definition is_safe_path :: "string \<Rightarrow> bool" where
  "is_safe_path s \<longleftrightarrow> \<not> contains s ''..''"

definition alpha_or_space :: "char \<Rightarrow> bool" where
  "alpha_or_space c \<longleftrightarrow> c \<in> set ''abcdefghijklmnopqrstuvwxyzABCDEFGHIJKLMNOPQRSTUVWXYZ ''"

text \<open>The regular expression \<open>^[a-zA-Z ]+$\<close>.\<close>

definition alpha_space :: "string \<Rightarrow> bool" where
  "alpha_space s \<longleftrightarrow> s \<noteq> [] \<and> list_all alpha_or_space s"

type_synonym validation = "string \<times> (string \<Rightarrow> bool)"

definition new_validation :: "string \<Rightarrow> (string \<Rightarrow> bool) \<Rightarrow> validation" where
  "new_validation key f = (key, f)"

definition validation_key :: "validation \<Rightarrow> string" where
  "validation_key v = fst v"

definition run_validation :: "validation \<Rightarrow> string \<Rightarrow> bool" where
  "run_validation v field = snd v field"

definition default_extended_validations :: "validation list" where
  "default_extended_validations = [new_validation ''is_safe_path'' is_safe_path, new_validation ''alpha_space'' alpha_space]"

section \<open>The process-wide validator\<close>

text \<open>
  A validator is what is registered under each key; whether the library accepts a key is an input.
  The name function reads a field's \<open>json\<close> tag. The state is the singleton.
\<close>

type_synonym validator = "string \<Rightarrow> (string \<Rightarrow> bool) option"

definition json_tag_name :: "string \<Rightarrow> string" where
  "json_tag_name tag =
     (let name = hd (split_on (CHR '','') tag) in if name = ''-'' then [] else name)"

definition register_fatal :: string where
  "register_fatal = ''exit status 1: Failed to register field validator''"

fun extend :: "(string \<Rightarrow> bool) \<Rightarrow> validation list \<Rightarrow> validator \<Rightarrow> validator outcome" where
  "extend accepts [] v = Ret v"
| "extend accepts (x # vs) v =
     (if accepts (validation_key x) then extend accepts vs (v(validation_key x \<mapsto> run_validation x))
      else Panic register_fatal)"

definition new_validator :: "(string \<Rightarrow> bool) \<Rightarrow> validator outcome" where
  "new_validator accepts = extend accepts default_extended_validations Map.empty"

definition validator_global :: "(string \<Rightarrow> bool) \<Rightarrow> (validator option, validator) act" where
  "validator_global accepts s =
     (case s of
        Some v \<Rightarrow> ret v s
      | None \<Rightarrow>
          (case new_validator accepts of
             Ret v \<Rightarrow> ret v (Some v)
           | Panic p \<Rightarrow> panic p s))"

definition init_fatal :: string where
  "init_fatal = ''exit status 1: Failed to initialize new global validator: this is already set''"

definition validator_init_global ::
  "(string \<Rightarrow> bool) \<Rightarrow> validation list \<Rightarrow> (validator option, unit) act" where
  "validator_init_global accepts vs s =
     (if s \<noteq> None then panic init_fatal s
      else case new_validator accepts of
             Panic p \<Rightarrow> panic p s
           | Ret v \<Rightarrow>
               (case extend accepts vs v of
                  Panic p \<Rightarrow> panic p s
                | Ret v' \<Rightarrow> ret () (Some v')))"

section \<open>The option keeps the contract\<close>

lemma wf_alloc_str_map: "wf_world w \<Longrightarrow> wf_world (snd (alloc_str_map w))"
proof -
  assume wf: "wf_world w"
  have "cell_ok (snd (alloc_str_map w)) (cells w a)" for a
    using wf_cell [OF wf, of a] by (rule cell_ok_mono) (simp_all add: alloc_str_map_def Let_def)
  then show ?thesis using wf by (simp add: wf_world_def alloc_str_map_def Let_def)
qed

lemma opt_step_str_maps: "wf_world w \<Longrightarrow> opt_step a w (w\<lparr>str_maps := m\<rparr>)"
  by (auto simp: opt_step_def same_env_def opt_frame_def own_refs_def ref_step_def trace_of_def)

lemma opt_step_alloc_str_map: "wf_world w \<Longrightarrow> opt_step a w (snd (alloc_str_map w))"
  using wf_alloc_str_map [of w]
  by (auto simp: alloc_str_map_def Let_def opt_step_def same_env_def opt_frame_def own_refs_def
      ref_step_def trace_of_def slice_ok_next)

interpretation validation: garlic_opt "validation_opt es" for es
proof
  fix w :: world and a
  assume wf: "wf_world w"
  show "opt_step a w (snd (validation_opt es a w))"
  proof (cases "cell_details (cells w a)")
    case None
    then show ?thesis
      using opt_step_alloc_str_map [OF wf] by (simp add: validation_opt_def panic_def Let_def)
  next
    case (Some d)
    let ?w1 = "snd (alloc_str_map w)"
    have c1: "cell_details (cells ?w1 a) = Some d" using Some by (simp add: alloc_str_map_def Let_def)
    have wf1: "wf_world ?w1" using wf by (rule wf_alloc_str_map)
    have s1: "opt_step a w ?w1" using wf by (rule opt_step_alloc_str_map)
    have s2: "opt_step a ?w1 (put_detail d ''validation'' v ?w1)" for v
      unfolding put_detail_def by (rule opt_step_put_detail [OF wf1 c1])
    have wf2: "wf_world (put_detail d ''validation'' v ?w1)" for v
      using wf1 by (simp add: put_detail_def)
    have s3: "opt_step a w ((put_detail d ''validation'' v ?w1)\<lparr>str_maps := m\<rparr>)" for v m
      by (intro opt_step_trans [OF opt_step_trans [OF s1 s2] opt_step_str_maps [OF wf2]])
    show ?thesis
      using Some s3 opt_step_str_maps [OF wf]
      by (auto simp: validation_opt_def ret_def Let_def split: option.split gval.split prod.split)
  qed
next
  fix w :: world and a
  assume "cell_details (cells w a) \<noteq> None"
  then show "fst (validation_opt es a w) = Ret ()"
    by (auto simp: validation_opt_def ret_def Let_def split: option.split gval.split prod.split)
qed

section \<open>What a validation error tells\<close>

lemma foldl_message:
  "foldl (\<lambda>m e. m(fe_field e \<mapsto> validation_message e)) m es f =
     (case find (\<lambda>e. fe_field e = f) (rev es) of None \<Rightarrow> m f | Some e \<Rightarrow> Some (validation_message e))"
proof (induction es arbitrary: m)
  case Nil
  then show ?case by simp
next
  case (Cons e es)
  have "find P (xs @ [x]) = (case find P xs of Some y \<Rightarrow> Some y | None \<Rightarrow> if P x then Some x else None)"
    for P and xs :: "field_error list" and x
    by (induction xs) auto
  with Cons show ?case by (auto split: option.split)
qed

text \<open>
  C38: ParseValidationErrors reports every failing field. For any error of the validation library it
  returns a fresh error of kind KindValidationError, so status 400, that wraps it; its details are
  the general hint and, under "validation", a new map that gives each failing field the message of
  its last error and no other field anything. A nil error stays nil.
\<close>

theorem validation_errors_reported:
  "parse_validation_errors None w = (Ret None, w)
   \<and> (\<exists>w' p. parse_validation_errors (Some v) w =
        (Ret (Some (ErrorT KindValidationError ''validation error'' (Some (val_gerror v)) None (next_addr w))), w')
     \<and> status_code KindValidationError = 400 \<and> kind_is KindValidationError KindInvalidRequestError
     \<and> details_of w' (next_addr w) = [''hint'' \<mapsto> VStr VALIDATION_HINT, ''validation'' \<mapsto> VStrMap p]
     \<and> next_addr w \<le> p
     \<and> (\<forall>f. str_maps w' p f =
          map_option validation_message (find (\<lambda>e. fe_field e = f) (rev (val_errors v)))))"
proof -
  let ?a = "next_addr w" and ?d = "Suc (next_addr w)" and ?p = "Suc (Suc (next_addr w))"
  let ?t = "rev_trace_text (stack_at w ''ParseValidationErrors'')"
  define w1 where "w1 = w\<lparr>cells := (cells w)(?a := empty_cell\<lparr>cell_details := Some ?d\<rparr>),
     next_addr := Suc ?p,
     details_maps := (details_maps w)(?d := [''hint'' \<mapsto> VStr VALIDATION_HINT, ''validation'' \<mapsto> VStrMap ?p]),
     str_maps := (str_maps w)(?p := validation_value (val_errors v))\<rparr>"
  obtain s w2 where app: "slice_append NilSlice ?t w1 = (s, w2)" by fastforce
  note fr = slice_append_frame [OF app]
  have sm: "str_maps w2 = str_maps w1"
    using app by (auto simp: slice_append_def fresh_array_def Let_def)
  define w' where "w' = w2\<lparr>cells := (cells w2)(?a := (cells w2 ?a)\<lparr>cell_rtrace := s\<rparr>)\<rparr>"
  have foreign: "wrap_error (ErrorT k m None None a) (val_gerror v) x = (ErrorT k m (Some (val_gerror v)) None a, x)"
    for k m a x by (cases v) (simp_all add: wrap_error_def)
  have "parse_validation_errors (Some v) w =
      (Ret (Some (ErrorT KindValidationError ''validation error'' (Some (val_gerror v)) None ?a)), w')"
    using app
    by (simp add: parse_validation_errors_def propagate_as_def from_error_def new_errort_def foreign
        with_opts_def bind_act_def ret_def hint_opt_def validation_opt_def put_detail_def alloc_str_map_def
        rev_trace_opt_def empty_cell_def Let_def w1_def w'_def fun_upd_twist)
  moreover have "details_of w' ?a = [''hint'' \<mapsto> VStr VALIDATION_HINT, ''validation'' \<mapsto> VStrMap ?p]"
    by (simp add: details_of_def w'_def fr w1_def)
  moreover have "str_maps w' ?p = validation_value (val_errors v)"
    by (simp add: w'_def sm w1_def)
  moreover have "validation_value es f =
      map_option validation_message (find (\<lambda>e. fe_field e = f) (rev es))" for es f
    by (simp add: validation_value_def foldl_message split: option.split)
  moreover have "status_code KindValidationError = 400"
  proof -
    have "http_kinds 400 = Some (http_kind 400)"
      by (simp add: http_kinds_eq status_text_def http_statuses_def)
    then show ?thesis
      by (simp add: KindValidationError_def KindInvalidRequestError_def kind_defs status_http_kind)
  qed
  moreover have "kind_is KindValidationError KindInvalidRequestError"
    by (simp add: KindValidationError_def)
  ultimately show ?thesis
    by (auto simp: parse_validation_errors_def ret_def)
qed

text \<open>
  A path that is_safe_path accepts stays below its base: none of its segments is "..".
\<close>

theorem safe_path_segments: "is_safe_path s \<longrightarrow> ''..'' \<notin> set (split_on (CHR ''/'') s)"
proof
  assume safe: "is_safe_path s"
  have "x \<in> set (split_on c s) \<Longrightarrow> \<exists>a b. s = a @ x @ b" for x c and s :: string
  proof (induction s arbitrary: x)
    case Nil
    then show ?case by simp
  next
    case (Cons y s)
    show ?case
    proof (cases "y = c")
      case True
      with Cons.prems consider "x = []" | "x \<in> set (split_on c s)" by auto
      then show ?thesis
      proof cases
        case 1
        then show ?thesis by (intro exI [of _ "[]"] exI [of _ "y # s"]) simp
      next
        case 2
        then obtain a b where "s = a @ x @ b" using Cons.IH by blast
        then show ?thesis by (intro exI [of _ "y # a"] exI [of _ b]) simp
      qed
    next
      case False
      obtain z zs where z: "split_on c s = z # zs" by (cases "split_on c s") auto
      have pre: "\<exists>b. s = hd (split_on c s) @ b" for s :: string
      proof (induction s)
        case (Cons u v)
        obtain p ps where "split_on c v = p # ps" by (cases "split_on c v") auto
        with Cons show ?case by auto
      qed simp
      from Cons.prems False z consider "x = y # z" | "x \<in> set (split_on c s)" by auto
      then show ?thesis
      proof cases
        case 1
        obtain b where "s = z @ b" using pre [of s] z by auto
        with 1 show ?thesis by (intro exI [of _ "[]"] exI [of _ b]) simp
      next
        case 2
        then obtain a b where "s = a @ x @ b" using Cons.IH by blast
        then show ?thesis by (intro exI [of _ "y # a"] exI [of _ b]) simp
      qed
    qed
  qed
  then show "''..'' \<notin> set (split_on (CHR ''/'') s)"
    using safe unfolding is_safe_path_def contains_iff by blast
qed

theorem safe_path_segments_witness: "''..'' \<notin> set (split_on (CHR ''/'') ''a/b.txt'')"
  by (rule mp [OF safe_path_segments]) code_simp

end
