(* ===== verification/Requests.thy ===== *)
theory Requests
  imports Validation
begin

text \<open>
  Reading a request: path and query parameters (\<open>request/requests.go\<close>) and decoding and validating
  its body into a form and a model (\<open>request/parser.go\<close>).
\<close>

section \<open>Requests and the libraries that parse them\<close>

text \<open>
  A request, as far as these functions look at it: its context, what \<open>chi.URLParam\<close> and
  \<open>r.URL.Query().Get\<close> return for a name (the empty string when absent), its content length and
  its body. \<open>uuid.Parse\<close>, a third-party function, and the wording of the errors of \<open>strconv\<close>,
  \<open>url\<close> and \<open>uuid\<close> for a given input are arguments.
\<close>

record http_request =
  rq_ctx :: go_ctx
  rq_param :: "string \<Rightarrow> string"
  rq_query :: "string \<Rightarrow> string"
  rq_length :: int
  rq_body :: string

record request_lib =
  lib_uuid_parse :: "string \<Rightarrow> uuid option"
  lib_error_text :: "string \<Rightarrow> string \<Rightarrow> string"

definition lib_error :: "request_lib \<Rightarrow> string \<Rightarrow> string \<Rightarrow> gerror" where
  "lib_error lib f s = ForeignErr f (lib_error_text lib f s) None None"

definition InvalidRequestError :: kind where
  "InvalidRequestError = KindInvalidRequestError"

definition quoted :: "string \<Rightarrow> string" where
  "quoted s = [CHR 0x27] @ s @ [CHR 0x27]"

text \<open>A parse step: the value, or the library's error propagated as an invalid request.\<close>

definition parse_or_invalid ::
  "string \<Rightarrow> 'a option \<Rightarrow> gerror \<Rightarrow> string \<Rightarrow> string \<Rightarrow> (world, gerror + 'a) act" where
  "parse_or_invalid site v err msg hint =
     (case v of
        Some x \<Rightarrow> ret (Inr x)
      | None \<Rightarrow>
          bind_act (propagate_as site InvalidRequestError (Some err) msg [hint_opt hint])
            (\<lambda>r. ret (Inl (case r of Some e \<Rightarrow> e | None \<Rightarrow> err))))"

definition missing_param :: "string \<Rightarrow> string \<Rightarrow> string \<Rightarrow> (world, gerror + 'a) act" where
  "missing_param site msg hint =
     bind_act (new_error site InvalidRequestError msg [hint_opt hint]) (\<lambda>e. ret (Inl e))"

section \<open>Path parameters\<close>

definition parse_resource_uuid ::
  "request_lib \<Rightarrow> http_request \<Rightarrow> string \<Rightarrow> (world, gerror + uuid) act" where
  "parse_resource_uuid lib r param =
     (let raw = rq_param r param in
      parse_or_invalid ''ParseResourceUUID'' (lib_uuid_parse lib raw) (lib_error lib ''uuid.Parse'' raw)
        ''failed to parse resource id (int)'' (''Something is wrong with the request field '' @ quoted param))"

definition parse_resource_int ::
  "request_lib \<Rightarrow> http_request \<Rightarrow> string \<Rightarrow> (world, gerror + int) act" where
  "parse_resource_int lib r param =
     (let raw = rq_param r param in
      parse_or_invalid ''ParseResourceInt'' (atoi raw) (lib_error lib ''strconv.Atoi'' raw)
        ''failed to parse resource id (int)'' (''Something is wrong with the request field '' @ quoted param))"

text \<open>\<open>url.PathUnescape\<close>: every \<open>%\<close> must introduce two hexadecimal digits.\<close>

definition hex_value :: "char \<Rightarrow> nat option" where
  "hex_value c =
     (let n = of_char c in
      if 48 \<le> n \<and> n \<le> 57 then Some (n - 48)
      else if 65 \<le> n \<and> n \<le> 70 then Some (n - 55)
      else if 97 \<le> n \<and> n \<le> 102 then Some (n - 87)
      else None)"

fun path_unescape :: "string \<Rightarrow> string option" where
  "path_unescape [] = Some []"
| "path_unescape (c # cs) =
     (if c = CHR ''%'' then
        (case cs of
           a # b # rest \<Rightarrow>
             (case (hex_value a, hex_value b) of
                (Some x, Some y) \<Rightarrow> map_option (\<lambda>s. char_of (16 * x + y) # s) (path_unescape rest)
              | _ \<Rightarrow> None)
         | _ \<Rightarrow> None)
      else map_option (\<lambda>s. c # s) (path_unescape cs))"

definition parse_resource_string ::
  "request_lib \<Rightarrow> http_request \<Rightarrow> string \<Rightarrow> (world, gerror + string) act" where
  "parse_resource_string lib r param =
     (let str = rq_param r param in
      if str = [] then
        missing_param ''ParseResourceString#1'' ''path string is empty''
          (''String path '' @ quoted param @ '' can'' @ [CHR 0x27] @ ''t be empty'')
      else
        parse_or_invalid ''ParseResourceString#2'' (path_unescape str) (lib_error lib ''url.PathUnescape'' str)
          ''failed to unescape path string''
          (''We couldn'' @ [CHR 0x27] @ ''t unescape the path string '' @ quoted param))"

section \<open>Query parameters\<close>

definition pagination_limit :: "string \<Rightarrow> int" where
  "pagination_limit raw =
     (let limit = (case atoi raw of None \<Rightarrow> 0 | Some n \<Rightarrow> if n < 0 then 0 else n)
      in if limit > 1000 then 1000 else limit)"

definition pagination_start :: "string \<Rightarrow> int" where
  "pagination_start raw = (case atoi raw of None \<Rightarrow> 0 | Some n \<Rightarrow> if n < 0 then 0 else n)"

definition unusable :: "string \<Rightarrow> bool" where
  "unusable raw = (case atoi raw of None \<Rightarrow> True | Some n \<Rightarrow> n < 0)"

definition parse_param_pagination :: "http_request \<Rightarrow> (srv, int \<times> int) act" where
  "parse_param_pagination r =
     bind_act (get_logger_from_context (rq_ctx r)) (\<lambda>l.
       let raw_limit = rq_query r ''limit''; raw_start = rq_query r ''start'' in
       bind_act
         (if unusable raw_limit
          then log_to l LDebug ''Pagination limit not set or invalid, defaults to 0'' [] else ret ()) (\<lambda>_.
       bind_act
         (if unusable raw_start
          then log_to l LDebug ''Pagination start not set or invalid, defaults to 0'' [] else ret ()) (\<lambda>_.
       ret (pagination_limit raw_limit, pagination_start raw_start))))"

definition parse_param_uuid ::
  "request_lib \<Rightarrow> http_request \<Rightarrow> string \<Rightarrow> (world, gerror + uuid) act" where
  "parse_param_uuid lib r param =
     (let raw = rq_query r param; hint = ''Something is wrong with the request param '' @ quoted param in
      if raw = [] then missing_param ''ParseParamUUID#1'' ''required request param is missing'' hint
      else parse_or_invalid ''ParseParamUUID#2'' (lib_uuid_parse lib raw) (lib_error lib ''uuid.Parse'' raw)
             ''malformed required request param'' hint)"

definition parse_optional_param_uuid ::
  "request_lib \<Rightarrow> http_request \<Rightarrow> string \<Rightarrow> (world, gerror + uuid) act" where
  "parse_optional_param_uuid lib r param =
     (let raw = rq_query r param in
      if raw = [] then ret (Inr uuid_Nil)
      else parse_or_invalid ''ParseOptionalParamUUID'' (lib_uuid_parse lib raw) (lib_error lib ''uuid.Parse'' raw)
             ''malformed optional request param''
             (''Something is wrong with the optional request param '' @ quoted param))"

definition parse_param_string :: "http_request \<Rightarrow> string \<Rightarrow> (world, gerror + string) act" where
  "parse_param_string r param =
     (let raw = rq_query r param in
      if raw = [] then
        missing_param ''ParseParamString'' ''missing required request param''
          (''Request param '' @ quoted param @ '' is missing'')
      else ret (Inr raw))"

text \<open>\<open>strconv.ParseBool\<close> accepts twelve spellings.\<close>

definition parse_bool :: "string \<Rightarrow> bool option" where
  "parse_bool s =
     (if s \<in> {''1'', ''t'', ''T'', ''true'', ''TRUE'', ''True''} then Some True
      else if s \<in> {''0'', ''f'', ''F'', ''false'', ''FALSE'', ''False''} then Some False
      else None)"

definition parse_optional_param_bool ::
  "request_lib \<Rightarrow> http_request \<Rightarrow> string \<Rightarrow> (srv, gerror + bool) act" where
  "parse_optional_param_bool lib r param =
     bind_act (get_logger_from_context (rq_ctx r)) (\<lambda>l.
       let raw = rq_query r param in
       if raw = [] then
         bind_act (log_to l LDebug ''Optional request param not set'' [LogField ''param'' (VStr param)])
           (\<lambda>_. ret (Inr False))
       else
         on_world (parse_or_invalid ''ParseOptionalParamBool'' (parse_bool raw)
           (lib_error lib ''strconv.ParseBool'' raw)
           ''Optional request param bool was provided but cannot be parsed''
           (''make sure '' @ quoted param @ '' request param is either '' @ quoted ''true'' @ '' or ''
             @ quoted ''false'' @ '', no other value is accepted'')))"

text \<open>Whether the pattern of the request's route matches; compiling a regular expression may panic.\<close>

definition route_contains_pattern :: "(string \<Rightarrow> (string \<Rightarrow> bool) option) \<Rightarrow> string \<Rightarrow> string \<Rightarrow> bool outcome" where
  "route_contains_pattern compile route_pattern pattern =
     (case compile pattern of
        None \<Rightarrow> Panic (''regexp: Compile('' @ pattern @ '')'')
      | Some matches \<Rightarrow> Ret (matches route_pattern))"

section \<open>Forms\<close>

text \<open>
  A form type is given by its JSON decoder, which fills the form it is given (and may have filled
  part of it when it fails), by the verdict of the validator on a form, and by its \<open>ToModel\<close>.
\<close>

record ('f, 'm) form_type =
  form_decode :: "string \<Rightarrow> 'f \<Rightarrow> gerror option \<times> 'f"
  form_check :: "'f \<Rightarrow> val_err option"
  form_model :: "'f \<Rightarrow> (world, gerror + 'm) act"

definition FORM_HINT :: string where
  "FORM_HINT = ''please, verify the correctness of the fields''"

definition validate_form :: "('f, 'm) form_type \<Rightarrow> 'f \<Rightarrow> (world, gerror option) act" where
  "validate_form ft form =
     (case form_check ft form of
        None \<Rightarrow> ret None
      | Some v \<Rightarrow>
          bind_act (parse_validation_errors (Some v)) (\<lambda>e.
          propagate ''ValidateForm'' e ''failed to validate form'' [hint_opt FORM_HINT]))"

definition after_decoding :: "('f, 'm) form_type \<Rightarrow> gerror option \<Rightarrow> 'f \<Rightarrow> (srv, gerror option \<times> 'f) act" where
  "after_decoding ft derr form =
     (case derr of
        Some err \<Rightarrow>
          bind_act (on_world (propagate_as ''DecodeRequestBody#1'' InvalidRequestError (Some err)
            ''invalid request body''
            [hint_opt ''something may be wrong with formatting or the content of the request body'']))
            (\<lambda>e. ret (e, form))
      | None \<Rightarrow>
          bind_act (on_world (validate_form ft form)) (\<lambda>verr.
          bind_act (on_world (propagate ''DecodeRequestBody#2'' verr ''failed to validate form'' []))
            (\<lambda>e. ret (e, form))))"

definition decode_request_body ::
  "('f, 'm) form_type \<Rightarrow> http_request \<Rightarrow> 'f \<Rightarrow> (srv, gerror option \<times> 'f) act" where
  "decode_request_body ft r form =
     bind_act (get_logger_from_context (rq_ctx r)) (\<lambda>l.
     bind_act
       (if rq_length r = 0 then bind_act (log_to l LWarn ''Empty request body'' []) (\<lambda>_. ret (None, form))
        else ret (form_decode ft (rq_body r) form))
       (\<lambda>d. after_decoding ft (fst d) (snd d)))"

text \<open>
  \<open>ParseForm\<close> and \<open>ParseUnsafeForm\<close> differ in their messages and in the crypto manager the latter
  hands to \<open>ToModel\<close>: a form type built with it.
\<close>

definition parse_form_with ::
  "string \<Rightarrow> string \<Rightarrow> string \<Rightarrow> ('f, 'm) form_type \<Rightarrow> http_request \<Rightarrow> 'f \<Rightarrow> (srv, gerror + 'm) act" where
  "parse_form_with site msg1 msg2 ft r form =
     bind_act (decode_request_body ft r form) (\<lambda>(err, form').
       case err of
         Some e \<Rightarrow> on_world (propagate_left site msg1 [] (Inl e))
       | None \<Rightarrow>
           bind_act (on_world (form_model ft form')) (\<lambda>m.
           on_world (propagate_left site msg2 [] m)))"

definition parse_form :: "('f, 'm) form_type \<Rightarrow> http_request \<Rightarrow> 'f \<Rightarrow> (srv, gerror + 'm) act" where
  "parse_form =
     parse_form_with ''ParseForm'' ''failed to decode request body'' ''failed to parse form''"

definition parse_unsafe_form ::
  "('c \<Rightarrow> ('f, 'm) form_type) \<Rightarrow> http_request \<Rightarrow> 'f \<Rightarrow> 'c \<Rightarrow> (srv, gerror + 'm) act" where
  "parse_unsafe_form ft r form crpt =
     parse_form_with ''ParseUnsafeForm'' ''failed to decode unsafe request body into a form''
       ''failed to parse unsafe form into model'' (ft crpt) r form"

section \<open>Running over the state of a request\<close>

definition sruns :: "srv \<Rightarrow> (srv, 'a) act \<Rightarrow> ('a \<Rightarrow> srv \<Rightarrow> bool) \<Rightarrow> bool" where
  "sruns s m Q \<longleftrightarrow>
     (\<exists>x s'. m s = (Ret x, s') \<and> wf_world (sv_world s') \<and> world_le (sv_world s) (sv_world s')
        \<and> sv_writer s' = sv_writer s \<and> Q x s')"

lemma sruns_ret: "wf_world (sv_world s) \<Longrightarrow> Q x s \<Longrightarrow> sruns s (ret x) Q"
  by (simp add: sruns_def ret_def)

lemma sruns_bind:
  assumes "sruns s m P"
    and "\<And>x s'. wf_world (sv_world s') \<Longrightarrow> world_le (sv_world s) (sv_world s') \<Longrightarrow> P x s' \<Longrightarrow> sruns s' (f x) Q"
  shows "sruns s (bind_act m f) Q"
proof -
  obtain x s' where 1: "m s = (Ret x, s')" "wf_world (sv_world s')" "world_le (sv_world s) (sv_world s')"
      "sv_writer s' = sv_writer s" "P x s'"
    using assms(1) by (auto simp: sruns_def)
  with assms(2) obtain y s'' where "f x s' = (Ret y, s'')" "wf_world (sv_world s'')"
      "world_le (sv_world s') (sv_world s'')" "sv_writer s'' = sv_writer s'" "Q y s''"
    by (fastforce simp: sruns_def)
  with 1 show ?thesis by (auto simp: sruns_def bind_act_def intro: world_le_trans)
qed

lemma sruns_on_world: "runs (sv_world s) m Q \<Longrightarrow> sruns s (on_world m) (\<lambda>x s'. Q x (sv_world s') \<and> sv_log s' = sv_log s)"
  by (auto simp: runs_def sruns_def on_world_def)

lemma sruns_log: "wf_world (sv_world s) \<Longrightarrow> sruns s (log_to l lvl msg fs) (\<lambda>_ s'. sv_world s' = sv_world s)"
  by (cases l) (simp add: sruns_def ret_def)

lemma sruns_logger:
  "wf_world (sv_world s) \<Longrightarrow> ctx_value c LoggerKey = Some (CVLogger l) \<Longrightarrow>
   sruns s (get_logger_from_context c) (\<lambda>x s'. x = l \<and> s' = s)"
  by (simp add: sruns_def get_logger_from_context_def ret_def)

lemma sruns_weaken: "sruns s m P \<Longrightarrow> (\<And>x s'. P x s' \<Longrightarrow> Q x s') \<Longrightarrow> sruns s m Q"
  by (fastforce simp: sruns_def)

section \<open>What the parsers return\<close>

definition invalid_request :: "world \<Rightarrow> gerror + 'a \<Rightarrow> bool" where
  "invalid_request w r \<longleftrightarrow> (\<exists>e. r = Inl e \<and> live_error w KindInvalidRequestError e)"

lemma runs_missing_param:
  "wf_world w \<Longrightarrow> runs w (missing_param site msg hint) (\<lambda>r w'. invalid_request w' r)"
  unfolding missing_param_def InvalidRequestError_def
  by (rule runs_bind [OF runs_new_error]) (auto intro!: runs_ret simp: invalid_request_def)

lemma runs_parse_or_invalid:
  assumes "wf_world w" and "error_kind err = None"
  shows "runs w (parse_or_invalid site v err msg hint)
    (\<lambda>r w'. case v of Some x \<Rightarrow> r = Inr x | None \<Rightarrow> invalid_request w' r)"
proof (cases v)
  case None
  have "good_error w err" using assms(2) by (cases err) simp_all
  then have "runs w (propagate_as site InvalidRequestError (Some err) msg [hint_opt hint])
      (wraps InvalidRequestError msg err)"
    using assms(1) by (intro runs_propagate_as) simp_all
  then show ?thesis
    unfolding parse_or_invalid_def None option.case
    by (rule runs_bind)
      (auto intro!: runs_ret simp: wraps_def wrapped_kind_def assms(2) invalid_request_def InvalidRequestError_def)
next
  case (Some x)
  then show ?thesis using assms(1) by (simp add: parse_or_invalid_def runs_ret)
qed

lemma lib_error_foreign [simp]: "error_kind (lib_error lib f s) = None"
  by (simp add: lib_error_def)


definition sample_request :: http_request where
  "sample_request =
     \<lparr>rq_ctx = set_context_logger background (Logger ''root'' []),
      rq_param = (\<lambda>p. if p = ''id'' then ''42'' else if p = ''path'' then ''a%2Fb'' else []),
      rq_query = (\<lambda>p. if p = ''limit'' then ''5000'' else []), rq_length = 2, rq_body = ''{}''\<rparr>"

definition sample_lib :: request_lib where
  "sample_lib = \<lparr>lib_uuid_parse = (\<lambda>s. if length s = 16 then Some (Uuid s) else None),
                 lib_error_text = (\<lambda>f s. f @ '': '' @ s)\<rparr>"


text \<open>
  Pagination is bounded. For every query string and a request that carries a logger,
  ParseParamPagination returns a limit between 0 and 1000 and a start that is not negative; a usable
  value is returned as it is, except that a limit above 1000 becomes 1000, and an unusable one is 0.
\<close>

theorem pagination_bounded:
  assumes "ctx_value (rq_ctx r) LoggerKey = Some (CVLogger l)"
  shows "\<exists>limit start s'. parse_param_pagination r s = (Ret (limit, start), s')
    \<and> 0 \<le> limit \<and> limit \<le> 1000 \<and> 0 \<le> start
    \<and> limit = (case atoi (rq_query r ''limit'') of None \<Rightarrow> 0 | Some n \<Rightarrow> max 0 (min 1000 n))
    \<and> start = (case atoi (rq_query r ''start'') of None \<Rightarrow> 0 | Some n \<Rightarrow> max 0 n)
    \<and> sv_world s' = sv_world s \<and> sv_writer s' = sv_writer s"
proof -
  obtain n fs where l: "l = Logger n fs" by (cases l)
  have "parse_param_pagination r s =
      (Ret (pagination_limit (rq_query r ''limit''), pagination_start (rq_query r ''start'')),
       snd (parse_param_pagination r s))
    \<and> sv_world (snd (parse_param_pagination r s)) = sv_world s
    \<and> sv_writer (snd (parse_param_pagination r s)) = sv_writer s"
    using assms
    by (simp add: parse_param_pagination_def get_logger_from_context_def bind_act_def ret_def l Let_def)
  then show ?thesis
    by (intro exI [of _ "pagination_limit (rq_query r ''limit'')"] exI [of _ "pagination_start (rq_query r ''start'')"]
        exI [of _ "snd (parse_param_pagination r s)"])
      (auto simp: pagination_limit_def pagination_start_def Let_def split: option.split)
qed

theorem pagination_bounded_witness:
  "\<exists>s'. parse_param_pagination sample_request
      \<lparr>sv_world = sample_world, sv_writer = new_writer, sv_log = []\<rparr> = (Ret (1000, 0), s')"
proof -
  have l: "ctx_value (rq_ctx sample_request) LoggerKey = Some (CVLogger (Logger ''root'' []))"
    by (simp add: sample_request_def set_context_logger_def)
  have v: "atoi (rq_query sample_request ''limit'') = Some 5000" "atoi (rq_query sample_request ''start'') = None"
    by code_simp+
  show ?thesis
    using pagination_bounded [OF l, of "\<lparr>sv_world = sample_world, sv_writer = new_writer, sv_log = []\<rparr>"] v
    by auto
qed

section \<open>Forms\<close>

lemma validation_kind_codes: "kind_is KindValidationError KindInvalidRequestError"
  by (simp add: KindValidationError_def)

lemma val_gerror_foreign [simp]: "error_kind (val_gerror v) = None" "good_error w (val_gerror v)"
  by (cases v; simp)+

lemma runs_parse_validation_errors:
  assumes "wf_world w"
  shows "runs w (parse_validation_errors (Some v))
    (\<lambda>r w'. \<exists>e. r = Some e \<and> live_error w' KindValidationError e)"
proof -
  have ok: "opts_ok [hint_opt VALIDATION_HINT, validation_opt (val_errors v)]"
    by (simp add: validation.garlic_opt_axioms)
  have "runs w (propagate_as ''ParseValidationErrors'' KindValidationError (Some (val_gerror v))
      ''validation error'' [hint_opt VALIDATION_HINT, validation_opt (val_errors v)])
    (wraps KindValidationError ''validation error'' (val_gerror v))"
    by (rule runs_propagate_as [OF assms ok]) simp
  then show ?thesis
    unfolding parse_validation_errors_def option.case
    by (rule runs_weaken) (auto simp: wraps_def wrapped_kind_def)
qed

lemma runs_propagate_live:
  assumes "wf_world w" and "opts_ok opts" and "live_error w k e"
  shows "runs w (propagate site (Some e) msg opts) (\<lambda>r w'. \<exists>e'. r = Some e' \<and> live_error w' k e' \<and> unwrap e' = Some e)"
  by (rule runs_weaken [OF runs_propagate [OF assms(1,2) live_good [OF assms(3)]]])
    (auto simp: wraps_def wrapped_kind_def live_kind [OF assms(3)])

lemma runs_validate_form:
  assumes "wf_world w"
  shows "runs w (validate_form ft form)
    (\<lambda>r w'. case form_check ft form of None \<Rightarrow> r = None \<and> w' = w
       | Some v \<Rightarrow> \<exists>e. r = Some e \<and> live_error w' KindValidationError e)"
proof (cases "form_check ft form")
  case None
  then show ?thesis using assms by (simp add: validate_form_def runs_ret)
next
  case (Some v)
  have "runs w (bind_act (parse_validation_errors (Some v)) (\<lambda>e.
      propagate ''ValidateForm'' e ''failed to validate form'' [hint_opt FORM_HINT]))
    (\<lambda>r w'. \<exists>e. r = Some e \<and> live_error w' KindValidationError e)"
  proof (rule runs_bind [OF runs_parse_validation_errors [OF assms]])
    fix r w' assume "wf_world w'" "\<exists>e. r = Some e \<and> live_error w' KindValidationError e"
    then obtain e where "r = Some e" "live_error w' KindValidationError e" "wf_world w'" by blast
    then have "runs w' (propagate ''ValidateForm'' r ''failed to validate form'' [hint_opt FORM_HINT])
        (\<lambda>r w'. \<exists>e'. r = Some e' \<and> live_error w' KindValidationError e' \<and> unwrap e' = Some e)"
      using runs_propagate_live [of w' "[hint_opt FORM_HINT]"] by simp
    then show "runs w' (propagate ''ValidateForm'' r ''failed to validate form'' [hint_opt FORM_HINT])
        (\<lambda>r w'. \<exists>e. r = Some e \<and> live_error w' KindValidationError e)"
      by (rule runs_weaken) blast
  qed
  with Some show ?thesis by (simp add: validate_form_def)
qed

definition decoded :: "('f, 'm) form_type \<Rightarrow> http_request \<Rightarrow> 'f \<Rightarrow> gerror option \<times> 'f" where
  "decoded ft r form = (if rq_length r = 0 then (None, form) else form_decode ft (rq_body r) form)"

text \<open>The error of a body that cannot be used: which kind it has, by what went wrong.\<close>

definition body_error :: "('f, 'm) form_type \<Rightarrow> http_request \<Rightarrow> 'f \<Rightarrow> kind option" where
  "body_error ft r form =
     (case decoded ft r form of
        (Some _, _) \<Rightarrow> Some KindInvalidRequestError
      | (None, f) \<Rightarrow> map_option (\<lambda>_. KindValidationError) (form_check ft f))"

lemma foreign_good: "error_kind e = None \<Longrightarrow> good_error w e"
  by (cases e) simp_all

lemma sruns_after_decoding:
  assumes wf: "wf_world (sv_world s)" and good: "\<forall>err. derr = Some err \<longrightarrow> error_kind err = None"
  shows "sruns s (after_decoding ft derr f)
    (\<lambda>x s'. snd x = f
       \<and> (case (case derr of Some err \<Rightarrow> Some KindInvalidRequestError
                | None \<Rightarrow> map_option (\<lambda>_. KindValidationError) (form_check ft f)) of
            None \<Rightarrow> fst x = None \<and> sv_world s' = sv_world s
          | Some k \<Rightarrow> \<exists>e. fst x = Some e \<and> live_error (sv_world s') k e))"
    (is "sruns s _ ?Q")
proof (cases derr)
  case None
  have "sruns s (bind_act (on_world (validate_form ft f)) (\<lambda>verr.
      bind_act (on_world (propagate ''DecodeRequestBody#2'' verr ''failed to validate form'' []))
        (\<lambda>e. ret (e, f)))) ?Q"
  proof (rule sruns_bind [OF sruns_on_world [OF runs_validate_form [OF wf, of ft f]]])
    fix verr and s3 :: srv
    assume wf3: "wf_world (sv_world s3)" and v: "(case form_check ft f of
        None \<Rightarrow> verr = None \<and> sv_world s3 = sv_world s
      | Some v \<Rightarrow> \<exists>e. verr = Some e \<and> live_error (sv_world s3) KindValidationError e) \<and> sv_log s3 = sv_log s"
    show "sruns s3 (bind_act (on_world (propagate ''DecodeRequestBody#2'' verr ''failed to validate form'' []))
       (\<lambda>e. ret (e, f))) ?Q"
    proof (cases "form_check ft f")
      case None
      then show ?thesis using v wf3 \<open>derr = None\<close>
        by (simp add: propagate_def on_world_def bind_act_def ret_def sruns_def)
    next
      case (Some vv)
      then obtain e where e: "verr = Some e" "live_error (sv_world s3) KindValidationError e" using v by auto
      have "runs (sv_world s3) (propagate ''DecodeRequestBody#2'' (Some e) ''failed to validate form'' [])
          (\<lambda>r w'. \<exists>e'. r = Some e' \<and> live_error w' KindValidationError e' \<and> unwrap e' = Some e)"
        by (rule runs_propagate_live [OF wf3 _ e(2)]) simp
      note run = sruns_on_world [OF this]
      show ?thesis
        unfolding e(1) by (rule sruns_bind [OF run]) (use \<open>derr = None\<close> Some in \<open>auto intro!: sruns_ret\<close>)
    qed
  qed
  then show ?thesis using None by (simp add: after_decoding_def)
next
  case (Some err)
  have "runs (sv_world s) (propagate_as ''DecodeRequestBody#1'' InvalidRequestError (Some err)
       ''invalid request body''
       [hint_opt ''something may be wrong with formatting or the content of the request body''])
     (wraps InvalidRequestError ''invalid request body'' err)"
    using good Some by (intro runs_propagate_as [OF wf]) (simp_all add: foreign_good)
  note run = sruns_on_world [OF this]
  show ?thesis
    unfolding after_decoding_def Some option.case
    by (rule sruns_bind [OF run]) (use good Some in \<open>auto simp: wraps_def wrapped_kind_def InvalidRequestError_def intro!: sruns_ret\<close>)
qed

lemma sruns_decode_request_body:
  assumes wf: "wf_world (sv_world s)" and lg: "ctx_value (rq_ctx r) LoggerKey = Some (CVLogger l)"
    and good: "\<forall>err. fst (decoded ft r form) = Some err \<longrightarrow> error_kind err = None"
  shows "sruns s (decode_request_body ft r form)
    (\<lambda>x s'. snd x = snd (decoded ft r form)
       \<and> (case body_error ft r form of None \<Rightarrow> fst x = None \<and> sv_world s' = sv_world s
          | Some k \<Rightarrow> \<exists>e. fst x = Some e \<and> live_error (sv_world s') k e))"
    (is "sruns s _ ?Q")
  unfolding decode_request_body_def
proof (rule sruns_bind [OF sruns_logger [OF wf lg]])
  fix x and s1 :: srv assume x: "x = l \<and> s1 = s"
  obtain derr f where d: "decoded ft r form = (derr, f)" by (cases "decoded ft r form")
  have first: "sruns s (if rq_length r = 0
        then bind_act (log_to x LWarn ''Empty request body'' []) (\<lambda>_. ret (None, form))
        else ret (form_decode ft (rq_body r) form))
      (\<lambda>y s'. y = (derr, f) \<and> sv_world s' = sv_world s)"
    using wf d by (auto simp: decoded_def intro!: sruns_bind [OF sruns_log] sruns_ret)
  have be: "body_error ft r form = (case derr of Some err \<Rightarrow> Some KindInvalidRequestError
                | None \<Rightarrow> map_option (\<lambda>_. KindValidationError) (form_check ft f))"
    by (simp add: body_error_def d split: option.split)
  have gd: "\<forall>err. derr = Some err \<longrightarrow> error_kind err = None" using good d by simp
  have second: "sruns s' (after_decoding ft (fst y) (snd y)) ?Q"
    if "wf_world (sv_world s')" "y = (derr, f) \<and> sv_world s' = sv_world s" for y and s' :: srv
  proof -
    have eq: "sv_world s' = sv_world s" "y = (derr, f)" using that(2) by simp_all
    note ad = sruns_after_decoding [OF that(1), of derr ft f, OF gd]
    show ?thesis using ad unfolding be d eq fst_conv snd_conv .
  qed
  have "sruns s (bind_act (if rq_length r = 0
        then bind_act (log_to x LWarn ''Empty request body'' []) (\<lambda>_. ret (None, form))
        else ret (form_decode ft (rq_body r) form)) (\<lambda>d. after_decoding ft (fst d) (snd d))) ?Q"
    by (rule sruns_bind [OF first]) (rule second)
  then show "sruns s1 (bind_act (if rq_length r = 0
        then bind_act (log_to x LWarn ''Empty request body'' []) (\<lambda>_. ret (None, form))
        else ret (form_decode ft (rq_body r) form)) (\<lambda>d. after_decoding ft (fst d) (snd d))) ?Q"
    using x by simp
qed

text \<open>
  C26: ParseForm returns the model, or an error that tells whose fault it was. For a request with a
  logger it never panics. A body that does not decode gives an error of kind InvalidRequestError,
  one whose form fails validation gives KindValidationError, a kind of InvalidRequestError, and in
  both cases ToModel is not called; otherwise the result is ToModel's on the decoded form, its error
  propagated under the kind it has. An empty body is not decoded: the form is validated as it was
  given.
\<close>

theorem parse_form_correct:
  assumes "wf_world (sv_world s)" and "ctx_value (rq_ctx r) LoggerKey = Some (CVLogger l)"
    and "\<forall>err. fst (decoded ft r form) = Some err \<longrightarrow> error_kind err = None"
    and "\<And>f w. wf_world w \<Longrightarrow> runs w (form_model ft f) (\<lambda>m w'. \<forall>e. m = Inl e \<longrightarrow> good_error w' e)"
  shows "\<exists>x s'. parse_form ft r form s = (Ret x, s')
    \<and> (case body_error ft r form of
         Some k \<Rightarrow> (\<exists>e. x = Inl e \<and> error_kind e = Some k \<and> kind_is k KindInvalidRequestError)
       | None \<Rightarrow> (\<exists>m w1. form_model ft (snd (decoded ft r form)) (sv_world s) = (Ret m, w1)
            \<and> (case m of
                 Inr v \<Rightarrow> x = Inr v
               | Inl e \<Rightarrow> \<exists>e'. x = Inl e' \<and> unwrap e' = Some e
                   \<and> error_kind e' = (case error_kind e of None \<Rightarrow> Some KindError | Some k \<Rightarrow> Some k))))"
proof -
  note sd = sruns_decode_request_body [where ft = ft and r = r and form = form, OF assms(1-3)]
  obtain z s1 where z: "decode_request_body ft r form s = (Ret z, s1)" "wf_world (sv_world s1)"
      "snd z = snd (decoded ft r form)"
      "case body_error ft r form of None \<Rightarrow> fst z = None \<and> sv_world s1 = sv_world s
       | Some k \<Rightarrow> \<exists>e. fst z = Some e \<and> live_error (sv_world s1) k e"
    using sd unfolding sruns_def by (elim exE conjE) (rule that)
  show ?thesis
  proof (cases "body_error ft r form")
    case None
    then have fz: "fst z = None" "sv_world s1 = sv_world s" using z(4) by auto
    obtain m w1 where m: "form_model ft (snd z) (sv_world s1) = (Ret m, w1)" "wf_world w1"
        "\<forall>e. m = Inl e \<longrightarrow> good_error w1 e"
      using assms(4) [OF z(2)] by (force simp: runs_def)
    obtain x w2 where x: "propagate_left ''ParseForm'' ''failed to parse form'' [] m w1 = (Ret x, w2)"
        "case m of Inr v \<Rightarrow> x = Inr v
         | Inl e \<Rightarrow> \<exists>e'. x = Inl e' \<and> unwrap e' = Some e
             \<and> live_error w2 (case error_kind e of None \<Rightarrow> KindError | Some k \<Rightarrow> k) e'"
      using runs_propagate_left [where opts = "[]" and r = m and site = "''ParseForm''"
          and msg = "''failed to parse form''", OF m(2)] m(3)
      by (auto simp: runs_def)
    have "parse_form ft r form s = (Ret x, s1\<lparr>sv_world := w2\<rparr>)"
      using z(1) fz m(1) x(1)
      by (cases z) (simp add: parse_form_def parse_form_with_def bind_act_def on_world_def)
    moreover have "case m of Inr v \<Rightarrow> x = Inr v
         | Inl e \<Rightarrow> \<exists>e'. x = Inl e' \<and> unwrap e' = Some e
             \<and> error_kind e' = (case error_kind e of None \<Rightarrow> Some KindError | Some k \<Rightarrow> Some k)"
      using x(2) by (auto split: sum.splits option.splits dest: live_kind)
    ultimately show ?thesis using None m(1) z(3) fz(2) by auto
  next
    case (Some k)
    then obtain e where e: "fst z = Some e" "live_error (sv_world s1) k e" using z(4) by auto
    have g: "\<And>e'. (Inl e :: gerror + 'b) = Inl e' \<Longrightarrow> good_error (sv_world s1) e'"
      using live_good [OF e(2)] by simp
    obtain x w2 where x: "propagate_left ''ParseForm'' ''failed to decode request body'' [] (Inl e :: gerror + 'b)
          (sv_world s1) = (Ret x, w2)" "\<exists>e'. x = Inl e' \<and> live_error w2 k e'"
      using runs_propagate_left [where opts = "[]" and r = "Inl e :: gerror + 'b" and site = "''ParseForm''"
          and msg = "''failed to decode request body''", OF z(2) _ g] live_kind [OF e(2)]
      by (auto simp: runs_def)
    have "parse_form ft r form s = (Ret x, s1\<lparr>sv_world := w2\<rparr>)"
      using z(1) e(1) x(1)
      by (cases z) (simp add: parse_form_def parse_form_with_def bind_act_def on_world_def)
    moreover have "kind_is k KindInvalidRequestError"
      using Some validation_kind_codes by (auto simp: body_error_def split: prod.splits option.splits)
    ultimately show ?thesis using Some x(2) live_kind by fastforce
  qed
qed

definition sample_form :: "(string, string) form_type" where
  "sample_form =
     \<lparr>form_decode = (\<lambda>b f. (None, b)),
      form_check = (\<lambda>f. if f = ''{}'' then Some (ValErrs ''bad'' [\<lparr>fe_field = ''name'', fe_tag = ''required'', fe_param = []\<rparr>]) else None),
      form_model = (\<lambda>f. ret (Inr f))\<rparr>"

theorem parse_form_correct_witness:
  "\<exists>x s'. parse_form sample_form sample_request []
        \<lparr>sv_world = sample_world, sv_writer = new_writer, sv_log = []\<rparr> = (Ret x, s')
    \<and> (\<exists>e. x = Inl e \<and> error_kind e = Some KindValidationError)"
proof -
  let ?s = "\<lparr>sv_world = sample_world, sv_writer = new_writer, sv_log = []\<rparr>"
  have wf: "wf_world (sv_world ?s)" using sample_world_wf by simp
  have l: "ctx_value (rq_ctx sample_request) LoggerKey = Some (CVLogger (Logger ''root'' []))"
    by (simp add: sample_request_def set_context_logger_def)
  have d: "decoded sample_form sample_request [] = (None, ''{}'')"
    by (simp add: decoded_def sample_form_def sample_request_def)
  have b: "body_error sample_form sample_request [] = Some KindValidationError"
    by (simp add: body_error_def d) (simp add: sample_form_def)
  have h: "runs w (form_model sample_form f) (\<lambda>m w'. \<forall>e. m = Inl e \<longrightarrow> good_error w' e)"
    if "wf_world w" for f w
    using that by (simp add: sample_form_def runs_ret)
  have g: "\<forall>err. fst (decoded sample_form sample_request []) = Some err \<longrightarrow> error_kind err = None"
    using d by simp
  note c = parse_form_correct [where r = sample_request and ft = sample_form and form = "[]", OF wf l g h]
  show ?thesis using c unfolding b by auto
qed

end
