(* ===== verification/Retry.thy ===== *)
theory Retry
  imports Complex_Main Http
begin

text \<open>
  When a request is sent again and how long the client waits first: \<open>httpclient/retry.go\<close>. Durations
  are \<open>int64\<close> nanoseconds.
\<close>

section \<open>Retry-After\<close>

definition IsIdempotent :: "string \<Rightarrow> bool" where
  "IsIdempotent meth \<longleftrightarrow>
     meth \<in> {''GET'', ''HEAD'', ''OPTIONS'', ''PUT'', ''DELETE'', ''TRACE''}"

definition time_Second :: int where
  "time_Second = 10 ^ 9"

text \<open>
  A number of seconds is multiplied in \<open>int64\<close>, which wraps. A date is parsed by \<open>http.ParseTime\<close>
  and compared with the clock: what \<open>time.Until\<close> gives for a header value that is a date is an
  argument.
\<close>

definition parse_retry_after :: "(string \<Rightarrow> int option) \<Rightarrow> string \<Rightarrow> int option" where
  "parse_retry_after until v0 =
     (let v = trim_space v0 in
      if v = [] then None
      else case atoi v of
             Some secs \<Rightarrow> if secs < 0 then None else Some (wrap64 (secs * time_Second))
           | None \<Rightarrow>
               (case until v of
                  Some d \<Rightarrow> if 0 < d then Some d else Some 0
                | None \<Rightarrow> None))"

definition clamp_duration :: "int \<Rightarrow> int \<Rightarrow> int \<Rightarrow> int" where
  "clamp_duration d min_wait max_wait =
     (if d < min_wait then min_wait else if max_wait < d then max_wait else d)"

section \<open>Policies\<close>

text \<open>
  What the loop asks a policy. \<open>CheckRetry\<close> gets what \<open>ctx.Err()\<close> is at that moment; \<open>Backoff\<close>
  reads the clock for a date and a random number in [0, 1).
\<close>

record retry_policy =
  check_retry :: "gerror option \<Rightarrow> string \<Rightarrow> http_response option \<Rightarrow> gerror option \<Rightarrow> nat
    \<Rightarrow> bool \<times> gerror option"
  backoff :: "(string \<Rightarrow> int option) \<Rightarrow> rat \<Rightarrow> int \<Rightarrow> int \<Rightarrow> nat \<Rightarrow> http_response option \<Rightarrow> int"

definition default_check_retry ::
  "gerror option \<Rightarrow> string \<Rightarrow> http_response option \<Rightarrow> gerror option \<Rightarrow> nat \<Rightarrow> bool \<times> gerror option"
where
  "default_check_retry ctx_err meth resp err attempt =
     (if ctx_err \<noteq> None then (False, ctx_err)
      else if err \<noteq> None then (True, None)
      else case resp of
             None \<Rightarrow> (False, None)
           | Some r \<Rightarrow>
               if resp_status r = 429 \<or> resp_status r = 503 then (True, None)
               else if 500 \<le> resp_status r \<and> resp_status r \<noteq> 501 then (True, None)
               else (False, None))"

text \<open>
  \<open>float64\<close> arithmetic on exact rationals. A wait below 2^53 nanoseconds (104 days) is exact as a
  \<open>float64\<close>, doubling it stays exact, and a value too large for one exceeds every maximum; the
  rounding of the jitter is not modelled. The conversion back truncates and, out of range, gives
  the smallest \<open>int64\<close>, as on amd64.
\<close>

definition float_to_int64 :: "rat \<Rightarrow> int" where
  "float_to_int64 x =
     (let n = (if 0 \<le> x then \<lfloor>x\<rfloor> else \<lceil>x\<rceil>)
      in if - (2 ^ 63) \<le> n \<and> n < 2 ^ 63 then n else - (2 ^ 63))"

definition exponential :: "int \<Rightarrow> int \<Rightarrow> nat \<Rightarrow> rat" where
  "exponential min_wait max_wait attempt =
     (let b = of_int min_wait * 2 ^ attempt
      in if of_int max_wait < b then of_int max_wait else b)"

definition default_backoff ::
  "(string \<Rightarrow> int option) \<Rightarrow> rat \<Rightarrow> int \<Rightarrow> int \<Rightarrow> nat \<Rightarrow> http_response option \<Rightarrow> int" where
  "default_backoff until rnd min_wait max_wait attempt resp =
     (case Option.bind resp (\<lambda>r. parse_retry_after until (header_get (resp_header r) ''Retry-After'')) of
        Some d \<Rightarrow> clamp_duration d min_wait max_wait
      | None \<Rightarrow>
          let b = exponential min_wait max_wait attempt; jitter = (rnd - 1 / 2) * b
          in clamp_duration (float_to_int64 (b + jitter)) min_wait max_wait)"

definition default_retry_policy :: retry_policy where
  "default_retry_policy = \<lparr>check_retry = default_check_retry, backoff = default_backoff\<rparr>"

section \<open>The contract of a policy\<close>

text \<open>
  What the interface's documentation asks of an implementation and the loop relies on: a done
  context is reported first and ends the request, an answer never comes with an error when it asks
  for a retry, and a wait lies between the bounds.
\<close>

locale retry_contract =
  fixes check :: "gerror option \<Rightarrow> string \<Rightarrow> http_response option \<Rightarrow> gerror option \<Rightarrow> nat
      \<Rightarrow> bool \<times> gerror option"
    and wait :: "(string \<Rightarrow> int option) \<Rightarrow> rat \<Rightarrow> int \<Rightarrow> int \<Rightarrow> nat \<Rightarrow> http_response option \<Rightarrow> int"
  assumes done_first: "check (Some e) meth resp err n = (False, Some e)"
    and retry_clean: "check ctx_err meth resp err n = (True, x) \<Longrightarrow> x = None"
    and wait_bounds: "lo \<le> hi \<Longrightarrow> lo \<le> wait u rnd lo hi n resp \<and> wait u rnd lo hi n resp \<le> hi"
begin

lemma retry_means_live: "check ctx_err meth resp err n = (True, x) \<Longrightarrow> ctx_err = None"
  using done_first by (cases ctx_err) auto

lemma wait_nonneg: "0 \<le> lo \<Longrightarrow> lo \<le> hi \<Longrightarrow> 0 \<le> wait u rnd lo hi n resp"
  using wait_bounds [of lo hi u rnd n resp] by simp

end

lemma clamp_bounds: "lo \<le> hi \<Longrightarrow> lo \<le> clamp_duration d lo hi \<and> clamp_duration d lo hi \<le> hi"
  by (auto simp: clamp_duration_def)

lemma clamp_id: "lo \<le> d \<Longrightarrow> d \<le> hi \<Longrightarrow> clamp_duration d lo hi = d"
  by (simp add: clamp_duration_def)

interpretation default_policy: retry_contract default_check_retry default_backoff
proof
  show "default_check_retry (Some e) meth resp err n = (False, Some e)" for e meth resp err n
    by (simp add: default_check_retry_def)
  show "x = None" if "default_check_retry ctx_err meth resp err n = (True, x)" for ctx_err meth resp err n x
    using that by (auto simp: default_check_retry_def split: option.splits if_splits)
  show "lo \<le> default_backoff u rnd lo hi n resp \<and> default_backoff u rnd lo hi n resp \<le> hi"
    if "lo \<le> hi" for lo hi u rnd n resp
    using clamp_bounds [OF that] by (simp add: default_backoff_def Let_def split: option.split)
qed

text \<open>
  The default wait grows and is jittered as documented. Whatever the server's headers, the clock,
  the random number and the attempt, a wait lies between MinWait and MaxWait. Without a usable
  Retry-After it is, up to that clamping, within half of the smaller of MinWait * 2^attempt and
  MaxWait, on either side.
\<close>

theorem default_backoff_bounded:
  assumes "lo \<le> hi" and "0 \<le> lo" and "hi < 2 ^ 62" and "0 \<le> rnd" and "rnd < 1"
  shows "lo \<le> default_backoff u rnd lo hi n resp \<and> default_backoff u rnd lo hi n resp \<le> hi
    \<and> (Option.bind resp (\<lambda>r. parse_retry_after u (header_get (resp_header r) ''Retry-After'')) = None \<longrightarrow>
         (\<exists>d. default_backoff u rnd lo hi n resp = clamp_duration d lo hi
            \<and> \<lfloor>exponential lo hi n / 2\<rfloor> \<le> d \<and> of_int d \<le> 3 / 2 * exponential lo hi n))"
proof -
  let ?b = "exponential lo hi n"
  let ?x = "?b + (rnd - 1 / 2) * ?b"
  have b: "0 \<le> ?b" "?b \<le> of_int hi"
    using assms(1,2) by (auto simp: exponential_def Let_def)
  have x: "?x = (rnd + 1 / 2) * ?b" by (simp add: algebra_simps)
  have lo: "?b / 2 \<le> ?x"
  proof -
    have "0 \<le> rnd * ?b" using b(1) assms(4) by simp
    then show ?thesis unfolding x by (simp add: algebra_simps)
  qed
  have hi: "?x \<le> 3 / 2 * ?b"
  proof -
    have "(rnd + 1 / 2) * ?b \<le> (3 / 2) * ?b" using b(1) assms(5) by (intro mult_right_mono) auto
    then show ?thesis unfolding x .
  qed
  have pos: "0 \<le> ?x" using lo b(1) by (simp add: field_simps)
  have "?x \<le> 3 / 2 * of_int hi" using hi b(2) by (simp add: field_simps)
  then have "?x < of_int (2 ^ 63)"
  proof -
    have "(3 / 2 :: rat) * of_int hi \<le> 3 / 2 * of_int (2 ^ 62)" using assms(3) by (simp del: of_int_power)
    also have "\<dots> < of_int (2 ^ 63)" by simp
    finally show ?thesis using \<open>?x \<le> 3 / 2 * of_int hi\<close> by linarith
  qed
  then have "\<lfloor>?x\<rfloor> < 2 ^ 63" by (simp add: floor_less_iff)
  moreover have "0 \<le> \<lfloor>?x\<rfloor>" using pos by simp
  ultimately have f: "float_to_int64 ?x = \<lfloor>?x\<rfloor>" using pos by (simp add: float_to_int64_def Let_def)
  have "\<lfloor>?b / 2\<rfloor> \<le> \<lfloor>?x\<rfloor>" using lo by (rule floor_mono)
  moreover have "of_int \<lfloor>?x\<rfloor> \<le> 3 / 2 * ?b" using hi by (meson of_int_floor_le order_trans)
  ultimately have "Option.bind resp (\<lambda>r. parse_retry_after u (header_get (resp_header r) ''Retry-After'')) = None \<longrightarrow>
         (\<exists>d. default_backoff u rnd lo hi n resp = clamp_duration d lo hi
            \<and> \<lfloor>?b / 2\<rfloor> \<le> d \<and> of_int d \<le> 3 / 2 * ?b)"
    using f by (auto simp: default_backoff_def Let_def intro!: exI [of _ "\<lfloor>?x\<rfloor>"])
  with default_policy.wait_bounds [OF assms(1)] show ?thesis by blast
qed

theorem default_backoff_bounded_witness:
  "(100000000::int) \<le> default_backoff (\<lambda>_. None) (1 / 4) 100000000 2000000000 10 None
   \<and> default_backoff (\<lambda>_. None) (1 / 4) 100000000 2000000000 10 None \<le> 2000000000"
  using default_backoff_bounded [of 100000000 2000000000 "1 / 4" "\<lambda>_. None" 10 None] by simp

text \<open>
  A very large Retry-After shortens the wait. A server that asks for 9223372037 to 18446744073
  seconds (292 to 584 years) is answered with a negative duration, because the product with
  time.Second overflows, and the client waits only MinWait, although any large but representable
  value makes it wait MaxWait.
\<close>

theorem huge_retry_after_waits_minimum:
  assumes "atoi (trim_space v) = Some secs" and "9223372037 \<le> secs" and "secs \<le> 18446744073"
    and "trim_space v \<noteq> []" and "header_get (resp_header r) ''Retry-After'' = v" and "0 \<le> lo"
  shows "\<exists>d. parse_retry_after u v = Some d \<and> d < 0 \<and> default_backoff u rnd lo hi n (Some r) = lo"
proof -
  have "wrap64 (secs * 10 ^ 9) = secs * 10 ^ 9 - 2 ^ 64"
  proof -
    have "(secs * 10 ^ 9 + 2 ^ 63) mod 2 ^ 64 = (secs * 10 ^ 9 + 2 ^ 63 - 2 ^ 64) mod 2 ^ 64"
      by (rule minus_mod_self2 [symmetric])
    also have "\<dots> = secs * 10 ^ 9 + 2 ^ 63 - 2 ^ 64"
      using assms(2,3) by (intro mod_pos_pos_trivial) auto
    finally have "(secs * 10 ^ 9 + 2 ^ 63) mod 2 ^ 64 = secs * 10 ^ 9 + 2 ^ 63 - 2 ^ 64" .
    then show ?thesis by (simp add: wrap64_def)
  qed
  then have w: "wrap64 (secs * time_Second) < 0" using assms(3) by (simp add: time_Second_def)
  have p: "parse_retry_after u v = Some (wrap64 (secs * time_Second))"
    using assms(1,2,4) by (simp add: parse_retry_after_def Let_def)
  with w assms(5,6) show ?thesis
    by (simp add: default_backoff_def clamp_duration_def)
qed

definition slow_down :: http_response where
  "slow_down = \<lparr>resp_status = 429, resp_header = header_set ''Retry-After'' ''10000000000'' no_header,
                resp_body = None\<rparr>"

theorem huge_retry_after_waits_minimum_witness:
  "default_backoff (\<lambda>_. None) 0 100 2000 0 (Some slow_down) = 100"
proof -
  have s: "trim_space ''10000000000'' = ''10000000000''" by code_simp
  have v: "atoi (trim_space ''10000000000'') = Some 10000000000" "trim_space ''10000000000'' \<noteq> []"
    by (simp_all add: s atoi_def parse_digits_def digit_value_def)
  have h: "header_get (resp_header slow_down) ''Retry-After'' = ''10000000000''"
    by (simp add: slow_down_def)
  show ?thesis
    using huge_retry_after_waits_minimum [OF v(1) _ _ v(2) h, of 100 "\<lambda>_. None" 0 2000 0] by auto
qed

end
