(* ===== verification/Client.thy ===== *)
theory Client
  imports Retry Base64
begin

text \<open>
  Building and sending a request: \<open>httpclient/client.go\<close>, \<open>request.go\<close>, \<open>body.go\<close> and
  \<open>tokensource.go\<close>. The transport, the clock, the random numbers and the moment a context is
  cancelled are the environment of a send; everything else is the code's.
\<close>

section \<open>Bodies\<close>

text \<open>
  A part of a multipart body is a text field, or a file whose content is what its reader delivers.
  A stream is the content its reader delivers the first time it is read.
\<close>

record multipart_field =
  mf_field :: string
  mf_filename :: string
  mf_value :: string
  mf_reader :: "string option"

datatype body_provider =
    MemoryBody string string
  | StreamBody string int string
  | MultipartBody "multipart_field list"

text \<open>
  \<open>body()\<close>, the n-th time it is called: what reading the reader it returns delivers, the content
  type, the length and whether it can be replayed. A drained stream delivers nothing; how
  \<open>mime/multipart\<close> writes the parts, with which boundary, is an argument.
\<close>

record body_result =
  br_content :: string
  br_type :: string
  br_length :: int
  br_replayable :: bool

definition body_of :: "(multipart_field list \<Rightarrow> string \<times> string) \<Rightarrow> body_provider \<Rightarrow> nat \<Rightarrow> body_result" where
  "body_of multipart p n =
     (case p of
        MemoryBody d ct \<Rightarrow>
          \<lparr>br_content = d, br_type = ct, br_length = int (length d), br_replayable = True\<rparr>
      | StreamBody d sz ct \<Rightarrow>
          \<lparr>br_content = (if n = 0 then d else []), br_type = ct, br_length = sz, br_replayable = False\<rparr>
      | MultipartBody fs \<Rightarrow>
          \<lparr>br_content = fst (multipart (if n = 0 then fs else map (mf_reader_update (map_option (\<lambda>_. []))) fs)),
           br_type = snd (multipart fs), br_length = - 1, br_replayable = False\<rparr>)"

text \<open>
  \<open>writeMultipart\<close>, over the four methods of a \<open>multipart.Writer\<close> (with \<open>io.Copy\<close> into the file it just
  created): the error, if any, and the state of the writer. The first error ends it unclosed.
\<close>

record 'm multipart_writer =
  mw_create_form_file :: "string \<Rightarrow> string \<Rightarrow> 'm \<Rightarrow> gerror option \<times> 'm"
  mw_copy :: "string \<Rightarrow> 'm \<Rightarrow> gerror option \<times> 'm"
  mw_write_field :: "string \<Rightarrow> string \<Rightarrow> 'm \<Rightarrow> gerror option \<times> 'm"
  mw_close :: "'m \<Rightarrow> gerror option \<times> 'm"

fun write_multipart :: "'m multipart_writer \<Rightarrow> multipart_field list \<Rightarrow> 'm \<Rightarrow> gerror option \<times> 'm" where
  "write_multipart mw [] m = mw_close mw m"
| "write_multipart mw (f # fs) m =
     (case mf_reader f of
        Some content \<Rightarrow>
          (case mw_create_form_file mw (mf_field f) (mf_filename f) m of
             (Some e, m1) \<Rightarrow> (Some e, m1)
           | (None, m1) \<Rightarrow>
               (case mw_copy mw content m1 of
                  (Some e, m2) \<Rightarrow> (Some e, m2)
                | (None, m2) \<Rightarrow> write_multipart mw fs m2))
      | None \<Rightarrow>
          (case mw_write_field mw (mf_field f) (mf_value f) m of
             (Some e, m1) \<Rightarrow> (Some e, m1)
           | (None, m1) \<Rightarrow> write_multipart mw fs m1))"

text \<open>A form; \<open>url.Values.Encode\<close> is an argument.\<close>

definition form_provider :: "((string \<times> string) list \<Rightarrow> string) \<Rightarrow> (string \<times> string) list \<Rightarrow> body_provider" where
  "form_provider encode values = MemoryBody (encode values) ''application/x-www-form-urlencoded''"

text \<open>What a provider owes the retry loop: a replayable body is the same every time.\<close>

locale replay_contract =
  fixes body :: "'p \<Rightarrow> nat \<Rightarrow> body_result"
  assumes replay: "br_replayable (body p 0) \<Longrightarrow> body p n = body p 0"
begin

lemma same_content: "br_replayable (body p 0) \<Longrightarrow> br_content (body p m) = br_content (body p n)"
  using replay by metis

end

interpretation providers: replay_contract "body_of multipart" for multipart
  by unfold_locales (simp add: body_of_def split: body_provider.splits)

section \<open>Requests\<close>

text \<open>An outgoing \<open>http.Request\<close>; the body is what the next attempt would send.\<close>

record http_out =
  ho_method :: string
  ho_url :: string
  ho_header :: header
  ho_body :: "string option"
  ho_length :: int
  ho_get_body :: bool

text \<open>
  The state of a send: the heap of errors, and what the client did so far. A hook and a token
  source are calls into the caller's code.
\<close>

datatype client_event =
    Sent http_out
  | Drained http_response
  | Waited int
  | BodyClosed
  | LogRetry nat int
  | ContextCancelled

record cst =
  cs_world :: world
  cs_events :: "client_event list"

definition lift_w :: "(world, 'a) act \<Rightarrow> (cst, 'a) act" where
  "lift_w m s = (case m (cs_world s) of (r, w) \<Rightarrow> (r, s\<lparr>cs_world := w\<rparr>))"

definition emit :: "client_event \<Rightarrow> (cst, unit) act" where
  "emit ev s = ret () (s\<lparr>cs_events := cs_events s @ [ev]\<rparr>)"

type_synonym before_hook = "http_out \<Rightarrow> (world, gerror option \<times> http_out) act"
type_synonym after_hook = "http_response \<Rightarrow> (world, gerror option) act"
type_synonym token_source = "nat \<Rightarrow> (world, gerror + string) act"

record retry_config =
  rc_enabled :: bool
  rc_max :: int
  rc_min_wait :: int
  rc_max_wait :: int
  rc_policy :: "retry_policy option"

record client_config =
  cc_base_url :: string
  cc_base_headers :: "(string \<times> string) list"
  cc_timeout :: int
  cc_token :: "token_source option"
  cc_retry :: retry_config
  cc_before :: "before_hook list"
  cc_after :: "after_hook list"

definition Defaults :: client_config where
  "Defaults =
     \<lparr>cc_base_url = ''http://localhost'', cc_base_headers = [], cc_timeout = 30 * 10 ^ 9, cc_token = None,
      cc_retry = \<lparr>rc_enabled = True, rc_max = 3, rc_min_wait = 10 ^ 8, rc_max_wait = 2 * 10 ^ 9,
                  rc_policy = None\<rparr>,
      cc_before = [], cc_after = []\<rparr>"

text \<open>
  The URL library, for some type of parsed URLs: parsing, joining a path, reading the query as a
  map and writing it back encoded.
\<close>

record 'u url_lib =
  url_parse :: "string \<Rightarrow> gerror + 'u"
  url_join :: "'u \<Rightarrow> string \<Rightarrow> 'u"
  url_query :: "'u \<Rightarrow> header"
  url_set_query :: "'u \<Rightarrow> header \<Rightarrow> 'u"
  url_text :: "'u \<Rightarrow> string"

record client =
  cl_config :: client_config
  cl_base_headers :: header

text \<open>
  \<open>New\<close>. The base headers come from a Go map, so two keys with one canonical form are set in an
  order the language does not fix: the order of the list. Choosing the \<open>http.Client\<close> is left to the
  environment, which is the transport.
\<close>

definition new_client :: "'u url_lib \<Rightarrow> client_config option \<Rightarrow> (world, gerror + client) act" where
  "new_client ul config w =
     (let cfg = (case config of None \<Rightarrow> Defaults | Some c \<Rightarrow> c);
          made = Inr \<lparr>cl_config = cfg,
                      cl_base_headers = foldl (\<lambda>h (k, v). header_set k v h) no_header (cc_base_headers cfg)\<rparr>
      in if cc_base_url cfg = [] then ret made w
         else case url_parse ul (cc_base_url cfg) of
                Inr u \<Rightarrow> ret made w
              | Inl e \<Rightarrow>
                  bind_act (propagate_as ''httpclient.New'' KindSystemError (Some e) ''invalid base URL''
                    [context_opt (context_new (stack_at w ''httpclient.New'')
                       [Field ''base_url'' (VStr (cc_base_url cfg))])])
                    (\<lambda>r. ret (Inl (case r of Some e' \<Rightarrow> e' | None \<Rightarrow> e))) w)"

record request =
  rr_ctx :: go_ctx
  rr_header :: header
  rr_query :: "(string \<times> string) list"
  rr_body :: "body_provider option"
  rr_result :: bool
  rr_no_parse :: bool
  rr_timeout :: int
  rr_retry :: "bool option"
  rr_before :: "before_hook list"
  rr_after :: "after_hook list"
  rr_token :: string
  rr_basic :: "(string \<times> string) option"
  rr_build_err :: "gerror option"

definition client_R :: "client \<Rightarrow> go_ctx \<Rightarrow> request" where
  "client_R c ctx =
     \<lparr>rr_ctx = ctx, rr_header = no_header, rr_query = [], rr_body = None, rr_result = False,
      rr_no_parse = False, rr_timeout = 0, rr_retry = None, rr_before = [], rr_after = [],
      rr_token = [], rr_basic = None, rr_build_err = None\<rparr>"

section \<open>Setters\<close>

definition SetHeader :: "string \<Rightarrow> string \<Rightarrow> request \<Rightarrow> request" where
  "SetHeader k v r = r\<lparr>rr_header := header_set k v (rr_header r)\<rparr>"

definition SetHeaders :: "(string \<times> string) list \<Rightarrow> request \<Rightarrow> request" where
  "SetHeaders hs r = foldl (\<lambda>r (k, v). SetHeader k v r) r hs"

text \<open>Query parameters: a Go map, here a list with one entry per key.\<close>

fun put_param :: "string \<Rightarrow> string \<Rightarrow> (string \<times> string) list \<Rightarrow> (string \<times> string) list" where
  "put_param k v [] = [(k, v)]"
| "put_param k v ((k', v') # ps) = (if k' = k then (k, v) # ps else (k', v') # put_param k v ps)"

definition SetQueryParam :: "string \<Rightarrow> string \<Rightarrow> request \<Rightarrow> request" where
  "SetQueryParam k v r = r\<lparr>rr_query := put_param k v (rr_query r)\<rparr>"

definition SetQueryParams :: "(string \<times> string) list \<Rightarrow> request \<Rightarrow> request" where
  "SetQueryParams ps r = foldl (\<lambda>r (k, v). SetQueryParam k v r) r ps"

definition SetAuthToken :: "string \<Rightarrow> request \<Rightarrow> request" where
  "SetAuthToken t r = r\<lparr>rr_token := t\<rparr>"

definition SetBasicAuth :: "string \<Rightarrow> string \<Rightarrow> request \<Rightarrow> request" where
  "SetBasicAuth user password r = r\<lparr>rr_basic := Some (user, password)\<rparr>"

text \<open>
  The dynamic types \<open>SetBody\<close> tells apart. Encoding another value as JSON may fail: the encoder is
  an argument.
\<close>

datatype io_reader = MemoryReader string | OtherReader string

fun reader_content :: "io_reader \<Rightarrow> string" where
  "reader_content (MemoryReader d) = d"
| "reader_content (OtherReader d) = d"

definition readable_in_memory :: "io_reader \<Rightarrow> string option" where
  "readable_in_memory r = (case r of MemoryReader d \<Rightarrow> Some d | OtherReader d \<Rightarrow> None)"

datatype body_arg =
    ArgNil
  | ArgBytes string
  | ArgString string
  | ArgReader io_reader
  | ArgValue gval

definition request_fail :: "gerror \<Rightarrow> request \<Rightarrow> request" where
  "request_fail e r = (if rr_build_err r = None then r\<lparr>rr_build_err := Some e\<rparr> else r)"

definition SetBodyJSON :: "(gval \<Rightarrow> gerror + string) \<Rightarrow> gval \<Rightarrow> request \<Rightarrow> (world, request) act" where
  "SetBodyJSON json v r =
     (case json v of
        Inr d \<Rightarrow> ret (r\<lparr>rr_body := Some (MemoryBody d ''application/json'')\<rparr>)
      | Inl e \<Rightarrow>
          bind_act (propagate_as ''SetBodyJSON'' KindSystemError (Some e) ''failed to encode JSON request body'' [])
            (\<lambda>p. ret (case p of Some e' \<Rightarrow> request_fail e' r | None \<Rightarrow> r)))"

definition SetBody :: "(gval \<Rightarrow> gerror + string) \<Rightarrow> body_arg \<Rightarrow> request \<Rightarrow> (world, request) act" where
  "SetBody json v r =
     (case v of
        ArgNil \<Rightarrow> ret (r\<lparr>rr_body := None\<rparr>)
      | ArgBytes b \<Rightarrow> ret (r\<lparr>rr_body := Some (MemoryBody b ''application/octet-stream'')\<rparr>)
      | ArgString s \<Rightarrow> ret (r\<lparr>rr_body := Some (MemoryBody s [])\<rparr>)
      | ArgReader b \<Rightarrow>
          (case readable_in_memory b of
             Some d \<Rightarrow> ret (r\<lparr>rr_body := Some (MemoryBody d [])\<rparr>)
           | None \<Rightarrow> ret (r\<lparr>rr_body := Some (StreamBody (reader_content b) (- 1) [])\<rparr>))
      | ArgValue x \<Rightarrow> SetBodyJSON json x r)"

definition SetBodyBytes :: "string \<Rightarrow> request \<Rightarrow> request" where
  "SetBodyBytes b r = r\<lparr>rr_body := Some (MemoryBody b ''application/octet-stream'')\<rparr>"

definition SetBodyStream :: "string \<Rightarrow> int \<Rightarrow> request \<Rightarrow> request" where
  "SetBodyStream reader sz r = r\<lparr>rr_body := Some (StreamBody reader sz [])\<rparr>"

definition SetBodyReader :: "string \<Rightarrow> request \<Rightarrow> request" where
  "SetBodyReader reader r = r\<lparr>rr_body := Some (StreamBody reader (- 1) [])\<rparr>"

definition SetFormData :: "((string \<times> string) list \<Rightarrow> string) \<Rightarrow> (string \<times> string) list \<Rightarrow> request \<Rightarrow> request" where
  "SetFormData encode values r = r\<lparr>rr_body := Some (form_provider encode values)\<rparr>"

definition multipart_fields :: "request \<Rightarrow> multipart_field list" where
  "multipart_fields r = (case rr_body r of Some (MultipartBody fs) \<Rightarrow> fs | _ \<Rightarrow> [])"

definition SetFileReader :: "string \<Rightarrow> string \<Rightarrow> string \<Rightarrow> request \<Rightarrow> request" where
  "SetFileReader field filename reader r =
     r\<lparr>rr_body := Some (MultipartBody (multipart_fields r @
         [\<lparr>mf_field = field, mf_filename = filename, mf_value = [], mf_reader = Some reader\<rparr>]))\<rparr>"

definition SetMultipartField :: "string \<Rightarrow> string \<Rightarrow> request \<Rightarrow> request" where
  "SetMultipartField field v r =
     r\<lparr>rr_body := Some (MultipartBody (multipart_fields r @
         [\<lparr>mf_field = field, mf_filename = [], mf_value = v, mf_reader = None\<rparr>]))\<rparr>"

definition SetContentType :: "string \<Rightarrow> request \<Rightarrow> request" where
  "SetContentType ct r = SetHeader ''Content-Type'' ct r"

definition SetResult :: "request \<Rightarrow> request" where
  "SetResult r = r\<lparr>rr_result := True\<rparr>"

definition SetDoNotParseResponse :: "bool \<Rightarrow> request \<Rightarrow> request" where
  "SetDoNotParseResponse v r = r\<lparr>rr_no_parse := v\<rparr>"

definition SetContext :: "go_ctx \<Rightarrow> request \<Rightarrow> request" where
  "SetContext ctx r = r\<lparr>rr_ctx := ctx\<rparr>"

definition SetTimeout :: "int \<Rightarrow> request \<Rightarrow> request" where
  "SetTimeout d r = r\<lparr>rr_timeout := d\<rparr>"

definition EnableRetry :: "request \<Rightarrow> request" where
  "EnableRetry r = r\<lparr>rr_retry := Some True\<rparr>"

definition DisableRetry :: "request \<Rightarrow> request" where
  "DisableRetry r = r\<lparr>rr_retry := Some False\<rparr>"

definition OnBeforeRequest :: "before_hook \<Rightarrow> request \<Rightarrow> request" where
  "OnBeforeRequest h r = r\<lparr>rr_before := rr_before r @ [h]\<rparr>"

definition OnAfterResponse :: "after_hook \<Rightarrow> request \<Rightarrow> request" where
  "OnAfterResponse h r = r\<lparr>rr_after := rr_after r @ [h]\<rparr>"

end
