(* ===== verification/Send.thy ===== *)
theory Send
  imports Client
begin

text \<open>
  Sending a request: \<open>Send\<close> and what it calls, up to the retry loop and the handling of the
  response (\<open>httpclient/request.go\<close>, \<open>client.go\<close>, \<open>tokensource.go\<close>).
\<close>

section \<open>The environment of a send\<close>

text \<open>
  What \<open>Doer.Do\<close> answers to the n-th attempt, given the request; what \<open>ctx.Err()\<close> is when the policy
  is asked after it; the error of the context if it is done before a wait of the given length after
  it ends; the clock, as \<open>time.Until\<close> and as a number of nanoseconds; the random number of the wait.
\<close>

record send_env =
  env_do :: "nat \<Rightarrow> http_out \<Rightarrow> http_response option \<times> gerror option"
  env_ctx :: "nat \<Rightarrow> gerror option"
  env_sleep :: "nat \<Rightarrow> int \<Rightarrow> gerror option"
  env_until :: "string \<Rightarrow> int option"
  env_now :: int
  env_rnd :: "nat \<Rightarrow> rat"
  env_new_request :: "string \<Rightarrow> string \<Rightarrow> gerror option"
  env_multipart :: "multipart_field list \<Rightarrow> string \<times> string"
  env_uuid_string :: "uuid \<Rightarrow> string"

section \<open>Token sources\<close>

definition static_token :: "string \<Rightarrow> token_source" where
  "static_token t n = ret (Inr t)"

text \<open>The file is read at every call; what a read gives, or its error, is an argument.\<close>

definition file_token_source :: "(nat \<Rightarrow> gerror + string) \<Rightarrow> string \<Rightarrow> token_source" where
  "file_token_source file path n w =
     (case file n of
        Inr b \<Rightarrow> ret (Inr (trim_space b)) w
      | Inl e \<Rightarrow>
          bind_act (propagate_as ''FileTokenSource'' KindSystemError (Some e) ''failed to read token file''
            [context_opt (context_new (stack_at w ''FileTokenSource'') [Field ''path'' (VStr path)])])
            (\<lambda>r. ret (Inl (case r of Some e' \<Rightarrow> e' | None \<Rightarrow> e))) w)"

section \<open>The URL and the context\<close>

definition build_url :: "'u url_lib \<Rightarrow> string \<Rightarrow> string \<Rightarrow> (string \<times> string) list \<Rightarrow> gerror + string" where
  "build_url ul base_url uri0 params =
     (let base = (if base_url = [] then uri0 else base_url);
          uri = (if base_url = [] then [] else uri0)
      in case url_parse ul base of
           Inl e \<Rightarrow> Inl e
         | Inr u0 \<Rightarrow>
             let u1 = (if uri \<noteq> [] then url_join ul u0 uri else u0);
                 u2 = (if params \<noteq> []
                       then url_set_query ul u1 (foldl (\<lambda>q (k, v). q(k := [v])) (url_query ul u1) params)
                       else u1)
             in Inr (url_text ul u2))"

text \<open>The context of the send, and whether it has a cancel function of its own.\<close>

definition context_with_timeout :: "int \<Rightarrow> client_config \<Rightarrow> request \<Rightarrow> go_ctx \<times> bool" where
  "context_with_timeout now cfg r =
     (let timeout = (if rr_timeout r = 0 then cc_timeout cfg else rr_timeout r) in
      if timeout \<le> 0 then (rr_ctx r, False)
      else case ctx_deadline (rr_ctx r) of
             Some d \<Rightarrow>
               if d - now \<le> timeout then (rr_ctx r, False)
               else ((rr_ctx r)\<lparr>ctx_deadline := Some (now + timeout)\<rparr>, True)
           | None \<Rightarrow> ((rr_ctx r)\<lparr>ctx_deadline := Some (now + timeout)\<rparr>, True))"

section \<open>Filling in the request\<close>

definition add_headers :: "header \<Rightarrow> header \<Rightarrow> header" where
  "add_headers base h = (\<lambda>k. h k @ base k)"

definition override_headers :: "header \<Rightarrow> header \<Rightarrow> header" where
  "override_headers own h = (\<lambda>k. if own k = [] then h k else own k)"

definition apply_body :: "send_env \<Rightarrow> body_provider option \<Rightarrow> http_out \<Rightarrow> bool \<times> http_out" where
  "apply_body env p h =
     (case p of
        None \<Rightarrow> (True, h)
      | Some bp \<Rightarrow>
          let b = body_of (env_multipart env) bp 0;
              h1 = h\<lparr>ho_body := Some (br_content b),
                     ho_length := (if 0 \<le> br_length b then br_length b else 0),
                     ho_header := (if br_type b \<noteq> [] \<and> header_get (ho_header h) ''Content-Type'' = []
                                   then header_set ''Content-Type'' (br_type b) (ho_header h) else ho_header h)\<rparr>
          in (br_replayable b, if br_replayable b then h1\<lparr>ho_get_body := True\<rparr> else h1))"

fun run_before :: "before_hook list \<Rightarrow> http_out \<Rightarrow> (world, gerror option \<times> http_out) act" where
  "run_before [] h = ret (None, h)"
| "run_before (f # fs) h =
     bind_act (f h) (\<lambda>(e, h'). case e of Some err \<Rightarrow> ret (Some err, h') | None \<Rightarrow> run_before fs h')"

fun run_after :: "after_hook list \<Rightarrow> http_response \<Rightarrow> (world, gerror option) act" where
  "run_after [] r = ret None"
| "run_after (f # fs) r =
     bind_act (f r) (\<lambda>e. case e of Some err \<Rightarrow> ret (Some err) | None \<Rightarrow> run_after fs r)"

definition inject_tracing :: "send_env \<Rightarrow> go_ctx \<Rightarrow> http_out \<Rightarrow> (world, http_out) act" where
  "inject_tracing env ctx h =
     bind_act
       (if header_get (ho_header h) ''X-Session-ID'' = [] then
          bind_act (get_session_id_from_context ctx) (\<lambda>r.
            ret (case r of Inr s \<Rightarrow> h\<lparr>ho_header := header_set ''X-Session-ID'' s (ho_header h)\<rparr> | Inl _ \<Rightarrow> h))
        else ret h) (\<lambda>h.
     if header_get (ho_header h) ''X-Request-ID'' = [] then
       bind_act (get_request_id_from_context ctx) (\<lambda>r.
         ret (case r of
                Inr u \<Rightarrow> h\<lparr>ho_header := header_set ''X-Request-ID'' (env_uuid_string env u) (ho_header h)\<rparr>
              | Inl _ \<Rightarrow> h))
     else ret h)"

definition basic_auth_value :: "string \<Rightarrow> string \<Rightarrow> string" where
  "basic_auth_value user password = ''Basic '' @ base64_encode (user @ '':'' @ password)"

definition set_auth :: "string \<Rightarrow> http_out \<Rightarrow> http_out" where
  "set_auth v h = h\<lparr>ho_header := header_set ''Authorization'' v (ho_header h)\<rparr>"

definition inject_auth ::
  "client \<Rightarrow> request \<Rightarrow> bool \<Rightarrow> nat \<Rightarrow> http_out \<Rightarrow> (world, gerror + http_out) act" where
  "inject_auth c r caller_set n h =
     (case rr_basic r of
        Some (u, p) \<Rightarrow> ret (Inr (set_auth (basic_auth_value u p) h))
      | None \<Rightarrow>
          if rr_token r \<noteq> [] then ret (Inr (set_auth (''Bearer '' @ rr_token r) h))
          else if caller_set then ret (Inr h)
          else case cc_token (cl_config c) of
                 None \<Rightarrow> ret (Inr h)
               | Some ts \<Rightarrow>
                   bind_act (ts n) (\<lambda>t. case t of
                     Inr token \<Rightarrow> ret (Inr (set_auth (''Bearer '' @ token) h))
                   | Inl e \<Rightarrow>
                       bind_act (propagate_as ''injectAuth'' KindAuthError (Some e) ''failed to obtain auth token'' [])
                         (\<lambda>p. ret (Inl (case p of Some e' \<Rightarrow> e' | None \<Rightarrow> e)))))"

section \<open>The retry loop\<close>

definition policy_of :: "retry_config \<Rightarrow> retry_policy" where
  "policy_of rc = (case rc_policy rc of Some p \<Rightarrow> p | None \<Rightarrow> default_retry_policy)"

definition can_retry :: "retry_config \<Rightarrow> bool option \<Rightarrow> bool \<Rightarrow> string \<Rightarrow> bool" where
  "can_retry rc retry_override replayable meth =
     (let enabled = (case retry_override of
                       None \<Rightarrow> rc_enabled rc \<and> 0 < rc_max rc
                     | Some v \<Rightarrow> v \<and> 0 < rc_max rc);
          idempotent = (case retry_override of
                       None \<Rightarrow> IsIdempotent meth
                     | Some v \<Rightarrow> IsIdempotent meth \<or> v)
      in enabled \<and> replayable \<and> idempotent)"

text \<open>Before any attempt but the first: a fresh body, then a fresh token.\<close>

definition prepare_attempt ::
  "send_env \<Rightarrow> client \<Rightarrow> request \<Rightarrow> bool \<Rightarrow> nat \<Rightarrow> http_out \<Rightarrow> (cst, gerror + http_out) act" where
  "prepare_attempt env c r caller_set n h =
     (if n = 0 then ret (Inr h)
      else
        let h1 = (case rr_body r of
                    Some bp \<Rightarrow>
                      if ho_get_body h then h\<lparr>ho_body := Some (br_content (body_of (env_multipart env) bp n))\<rparr> else h
                  | None \<Rightarrow> h)
        in bind_act (lift_w (inject_auth c r caller_set n h1)) (\<lambda>a.
             lift_w (propagate_left ''doWithRetry#1'' ''failed to inject authorization'' [] a)))"

datatype verdict = Stop | Again | Fail gerror

text \<open>After an attempt that may be followed by another one.\<close>

definition after_attempt ::
  "send_env \<Rightarrow> retry_config \<Rightarrow> string \<Rightarrow> nat \<Rightarrow> http_response option \<Rightarrow> gerror option \<Rightarrow> (cst, verdict) act" where
  "after_attempt env rc meth n resp err =
     (let p = policy_of rc in
      case check_retry p (env_ctx env n) meth resp err n of
        (_, Some cerr) \<Rightarrow>
          bind_act (lift_w (propagate_as ''doWithRetry#2'' KindSystemError (Some cerr) ''request cancelled'' []))
            (\<lambda>e. ret (Fail (case e of Some e' \<Rightarrow> e' | None \<Rightarrow> cerr)))
      | (False, None) \<Rightarrow> ret Stop
      | (True, None) \<Rightarrow>
          bind_act (case resp of Some rs \<Rightarrow> emit (Drained rs) | None \<Rightarrow> ret ()) (\<lambda>_.
          let wait = backoff p (env_until env) (env_rnd env n) (rc_min_wait rc) (rc_max_wait rc) n resp in
          bind_act (emit (LogRetry (Suc n) wait)) (\<lambda>_.
          bind_act (emit (Waited wait)) (\<lambda>_.
          case env_sleep env n wait of
            None \<Rightarrow> ret Again
          | Some cerr \<Rightarrow>
              bind_act (lift_w (propagate_as ''doWithRetry#3'' KindSystemError (Some cerr)
                ''request cancelled during backoff'' []))
                (\<lambda>e. ret (Fail (case e of Some e' \<Rightarrow> e' | None \<Rightarrow> cerr)))))))"

definition finish_attempts ::
  "http_response option \<Rightarrow> gerror option \<Rightarrow> (cst, gerror + http_response option) act" where
  "finish_attempts resp err =
     (case err of
        None \<Rightarrow> ret (Inr resp)
      | Some e \<Rightarrow>
          bind_act (lift_w (propagate_as ''doWithRetry#4'' KindSystemError (Some e) ''failed to make request'' []))
            (\<lambda>p. ret (Inl (case p of Some e' \<Rightarrow> e' | None \<Rightarrow> e))))"

text \<open>
  The loop: \<open>left\<close> is \<open>MaxRetries\<close> minus the number of the attempt, so its guard
  \<open>attempt >= MaxRetries\<close> is \<open>left = 0\<close>.
\<close>

lemma bind_act_cong [fundef_cong]:
  assumes "m = m'" and "\<And>x. f x = f' x"
  shows "bind_act m f = bind_act m' f'"
proof -
  have "f = f'" using assms(2) by (rule ext)
  with assms(1) show ?thesis by simp
qed

fun attempts ::
  "send_env \<Rightarrow> client \<Rightarrow> request \<Rightarrow> bool \<Rightarrow> bool \<Rightarrow> nat \<Rightarrow> nat \<Rightarrow> http_out
    \<Rightarrow> (cst, gerror + http_response option) act" where
  "attempts env c r caller_set can left n h =
     bind_act (prepare_attempt env c r caller_set n h) (\<lambda>prep.
       case prep of
         Inl e \<Rightarrow> ret (Inl e)
       | Inr h' \<Rightarrow>
           bind_act (emit (Sent h')) (\<lambda>_.
           let (resp, err) = env_do env n h' in
           if \<not> can then finish_attempts resp err
           else case left of
                  0 \<Rightarrow> finish_attempts resp err
                | Suc left' \<Rightarrow>
                    bind_act (after_attempt env (cc_retry (cl_config c)) (ho_method h') n resp err) (\<lambda>v.
                      case v of
                        Stop \<Rightarrow> finish_attempts resp err
                      | Fail e \<Rightarrow> ret (Inl e)
                      | Again \<Rightarrow> attempts env c r caller_set can left' (Suc n) h')))"

declare attempts.simps [simp del]

definition do_with_retry ::
  "send_env \<Rightarrow> client \<Rightarrow> request \<Rightarrow> http_out \<Rightarrow> bool \<Rightarrow> bool \<Rightarrow> (cst, gerror + http_response option) act" where
  "do_with_retry env c r h replayable caller_set =
     (let rc = cc_retry (cl_config c) in
      attempts env c r caller_set (can_retry rc (rr_retry r) replayable (ho_method h)) (nat (rc_max rc)) 0 h)"

section \<open>Send\<close>

text \<open>
  \<open>execute\<close>: an early return after the body is in place closes it.
\<close>

definition abort :: "gerror \<Rightarrow> http_out \<Rightarrow> (cst, gerror + 'a) act" where
  "abort e h =
     bind_act (if ho_body h \<noteq> None then emit BodyClosed else ret ()) (\<lambda>_. ret (Inl e))"

definition execute ::
  "send_env \<Rightarrow> client \<Rightarrow> request \<Rightarrow> go_ctx \<Rightarrow> string \<Rightarrow> string
    \<Rightarrow> (cst, gerror + http_response option) act" where
  "execute env c r ctx meth target =
     (case env_new_request env meth target of
        Some e \<Rightarrow>
          bind_act (lift_w (propagate_as ''execute#1'' KindSystemError (Some e) ''failed to create HTTP request'' []))
            (\<lambda>p. ret (Inl (case p of Some e' \<Rightarrow> e' | None \<Rightarrow> e)))
      | None \<Rightarrow>
          let h0 = \<lparr>ho_method = meth, ho_url = target,
                    ho_header = override_headers (rr_header r) (add_headers (cl_base_headers c) no_header),
                    ho_body = None, ho_length = 0, ho_get_body = False\<rparr>;
              (replayable, h1) = apply_body env (rr_body r) h0
          in bind_act (lift_w (run_before (cc_before (cl_config c) @ rr_before r) h1)) (\<lambda>(berr, h2).
             case berr of
               Some e \<Rightarrow>
                 bind_act (lift_w (propagate ''execute#2'' (Some e) ''before-request hook failed'' []))
                   (\<lambda>p. abort (case p of Some e' \<Rightarrow> e' | None \<Rightarrow> e) h2)
             | None \<Rightarrow>
                 bind_act (lift_w (inject_tracing env ctx h2)) (\<lambda>h3.
                 let caller_set = (header_get (ho_header h3) ''Authorization'' \<noteq> []
                                   \<and> rr_token r = [] \<and> rr_basic r = None)
                 in bind_act (lift_w (inject_auth c r caller_set 0 h3)) (\<lambda>a. case a of
                      Inl e \<Rightarrow>
                        bind_act (lift_w (propagate ''execute#3'' (Some e) ''failed to inject authorization'' []))
                          (\<lambda>p. abort (case p of Some e' \<Rightarrow> e' | None \<Rightarrow> e) h3)
                    | Inr h4 \<Rightarrow> do_with_retry env c r h4 replayable caller_set))))"

text \<open>
  \<open>handleResponse\<close>: decoding the body of a success into the result is an argument, which consumes
  the body; then the hooks. The response is returned with the error.
\<close>

definition is_success :: "http_response \<Rightarrow> bool" where
  "is_success r \<longleftrightarrow> 200 \<le> resp_status r \<and> resp_status r < 300"

definition handle_response ::
  "(http_response \<Rightarrow> (world, gerror option \<times> http_response) act) \<Rightarrow> client \<Rightarrow> request \<Rightarrow> http_response
    \<Rightarrow> (world, gerror option \<times> http_response) act" where
  "handle_response dec c r res =
     bind_act (if is_success res \<and> \<not> rr_no_parse r \<and> rr_result r then dec res else ret (None, res))
       (\<lambda>(derr, res').
     case derr of
       Some e \<Rightarrow>
         bind_act (propagate ''handleResponse#1'' (Some e) ''error handling response'' []) (\<lambda>p. ret (p, res'))
     | None \<Rightarrow>
         bind_act (run_after (cc_after (cl_config c) @ rr_after r) res') (\<lambda>herr.
         bind_act (propagate ''handleResponse#2'' herr ''after-response hook failed'' []) (\<lambda>p. ret (p, res'))))"

definition send_logger :: "logger \<Rightarrow> request \<Rightarrow> logger" where
  "send_logger global r =
     (case ctx_value (rr_ctx r) LoggerKey of Some (CVLogger l) \<Rightarrow> l | _ \<Rightarrow> global)"

text \<open>
  \<open>Send\<close> returns a response, an error or both. \<open>defer cancel()\<close> runs when it returns: the context of
  the request, which the transport still watches while the caller reads the body, is cancelled.
\<close>

type_synonym send_result = "http_response option \<times> gerror option"

definition send_in ::
  "send_env \<Rightarrow> (http_response \<Rightarrow> (world, gerror option \<times> http_response) act) \<Rightarrow> client \<Rightarrow> request
    \<Rightarrow> go_ctx \<Rightarrow> context_t \<Rightarrow> string \<Rightarrow> string \<Rightarrow> (cst, send_result) act" where
  "send_in env dec c r ctx ectx meth target =
     bind_act (execute env c r ctx meth target) (\<lambda>x. case x of
       Inl e \<Rightarrow>
         bind_act (lift_w (propagate ''Send#3'' (Some e) ''failed to send request'' [context_opt ectx]))
           (\<lambda>p. ret (None, p))
     | Inr None \<Rightarrow> panic ''nil response''
     | Inr (Some res) \<Rightarrow>
         bind_act (lift_w (handle_response dec c r res)) (\<lambda>(herr, res').
         bind_act (lift_w (propagate ''Send#4'' herr ''failed to handle response'' [context_opt ectx]))
           (\<lambda>p. ret (Some res', p))))"

definition send ::
  "'u url_lib \<Rightarrow> send_env \<Rightarrow> (http_response \<Rightarrow> (world, gerror option \<times> http_response) act) \<Rightarrow> logger
    \<Rightarrow> client \<Rightarrow> request \<Rightarrow> string \<Rightarrow> string \<Rightarrow> (cst, send_result) act" where
  "send ul env dec global c r meth path s =
     (case build_url ul (cc_base_url (cl_config c)) path (rr_query r) of
        Inl e \<Rightarrow>
          bind_act (lift_w (propagate_as ''Send#1'' KindSystemError (Some e) ''failed to build request URL''
            [context_opt (context_new (stack_at (cs_world s) ''Send#1'')
               [Field ''http_method'' (VStr meth), Field ''http_path'' (VStr path)])]))
            (\<lambda>p. ret (None, p)) s
      | Inr target \<Rightarrow>
          let ectx = context_new (stack_at (cs_world s) ''Send#2'')
                [Field ''http_method'' (VStr meth), Field ''http_url'' (VStr target)];
              l = log_with (send_logger global r) [LogContext ectx]
          in case rr_build_err r of
               Some e \<Rightarrow>
                 bind_act (lift_w (propagate ''Send#2'' (Some e) ''invalid request'' [context_opt ectx]))
                   (\<lambda>p. ret (None, p)) s
             | None \<Rightarrow>
                 let (ctx, cancel) = context_with_timeout (env_now env) (cl_config c) r
                 in bind_act (send_in env dec c r (set_context_logger ctx l) ectx meth target) (\<lambda>x.
                      bind_act (if cancel then emit ContextCancelled else ret ()) (\<lambda>_. ret x)) s)"

definition send_get where "send_get ul env dec global c r path = send ul env dec global c r ''GET'' path"
definition send_head where "send_head ul env dec global c r path = send ul env dec global c r ''HEAD'' path"
definition send_post where "send_post ul env dec global c r path = send ul env dec global c r ''POST'' path"
definition send_put where "send_put ul env dec global c r path = send ul env dec global c r ''PUT'' path"
definition send_patch where "send_patch ul env dec global c r path = send ul env dec global c r ''PATCH'' path"
definition send_delete where "send_delete ul env dec global c r path = send ul env dec global c r ''DELETE'' path"
definition send_options where "send_options ul env dec global c r path = send ul env dec global c r ''OPTIONS'' path"

end
