(* ===== verification/Send_Props.thy ===== *)
theory Send_Props
  imports Send
begin

text \<open>
  The discipline of the retry loop: how often a request is sent, what changes between attempts, what
  happens to the responses that are not returned, how long the client waits.
\<close>

section \<open>Runs of a client\<close>

definition cruns :: "cst \<Rightarrow> (cst, 'a) act \<Rightarrow> ('a \<Rightarrow> cst \<Rightarrow> bool) \<Rightarrow> bool" where
  "cruns s m Q \<longleftrightarrow>
     (\<exists>x s'. m s = (Ret x, s') \<and> wf_world (cs_world s') \<and> world_le (cs_world s) (cs_world s') \<and> Q x s')"

lemma cruns_ret: "wf_world (cs_world s) \<Longrightarrow> Q x s \<Longrightarrow> cruns s (ret x) Q"
  by (simp add: cruns_def ret_def)

lemma cruns_bind:
  assumes "cruns s m P"
    and "\<And>x s'. wf_world (cs_world s') \<Longrightarrow> world_le (cs_world s) (cs_world s') \<Longrightarrow> P x s' \<Longrightarrow> cruns s' (f x) Q"
  shows "cruns s (bind_act m f) Q"
proof -
  obtain x s' where 1: "m s = (Ret x, s')" "wf_world (cs_world s')" "world_le (cs_world s) (cs_world s')" "P x s'"
    using assms(1) by (auto simp: cruns_def)
  with assms(2) obtain y s'' where "f x s' = (Ret y, s'')" "wf_world (cs_world s'')"
      "world_le (cs_world s') (cs_world s'')" "Q y s''"
    by (fastforce simp: cruns_def)
  with 1 show ?thesis by (auto simp: cruns_def bind_act_def intro: world_le_trans)
qed

lemma cruns_lift: "runs (cs_world s) m Q \<Longrightarrow> cruns s (lift_w m) (\<lambda>x s'. Q x (cs_world s') \<and> cs_events s' = cs_events s)"
  by (auto simp: runs_def cruns_def lift_w_def)

lemma cruns_emit:
  "wf_world (cs_world s) \<Longrightarrow>
   cruns s (emit ev) (\<lambda>_ s'. cs_events s' = cs_events s @ [ev] \<and> cs_world s' = cs_world s)"
  by (simp add: cruns_def emit_def ret_def)

lemma cruns_weaken: "cruns s m P \<Longrightarrow> (\<And>x s'. P x s' \<Longrightarrow> Q x s') \<Longrightarrow> cruns s m Q"
  by (fastforce simp: cruns_def)

section \<open>Hypotheses on the environment\<close>

text \<open>
  Errors of the transport and of a context are not garlic errors, and \<open>Do\<close> returns an error or a
  response. A token source returns, with an error that can be propagated or a token.
\<close>

definition env_ok :: "send_env \<Rightarrow> bool" where
  "env_ok env \<longleftrightarrow>
     (\<forall>n h. (snd (env_do env n h) = None \<longrightarrow> fst (env_do env n h) \<noteq> None)
        \<and> (\<forall>e. snd (env_do env n h) = Some e \<longrightarrow> error_kind e = None))
   \<and> (\<forall>n e. env_ctx env n = Some e \<longrightarrow> error_kind e = None)
   \<and> (\<forall>n d e. env_sleep env n d = Some e \<longrightarrow> error_kind e = None)"

definition token_ok :: "client \<Rightarrow> bool" where
  "token_ok c \<longleftrightarrow>
     (\<forall>ts. cc_token (cl_config c) = Some ts \<longrightarrow>
        (\<forall>n w. wf_world w \<longrightarrow> runs w (ts n) (\<lambda>t w'. \<forall>e. t = Inl e \<longrightarrow> good_error w' e)))"

text \<open>A policy reports a done context with the context's own error, never one of its own.\<close>

definition policy_ok :: "retry_config \<Rightarrow> bool" where
  "policy_ok rc \<longleftrightarrow>
     retry_contract (check_retry (policy_of rc)) (backoff (policy_of rc))
   \<and> (\<forall>ctx meth resp err n b e.
        check_retry (policy_of rc) ctx meth resp err n = (b, Some e) \<longrightarrow> ctx = Some e)"

lemma default_policy_ok: "rc_policy rc = None \<Longrightarrow> policy_ok rc"
  using default_policy.retry_contract_axioms
  by (auto simp: policy_ok_def policy_of_def default_retry_policy_def default_check_retry_def
      split: option.splits if_splits)

text \<open>A request whose body is the provider's, ready for its first attempt.\<close>

definition body_ready :: "send_env \<Rightarrow> request \<Rightarrow> http_out \<Rightarrow> bool" where
  "body_ready env r h \<longleftrightarrow>
     (case rr_body r of
        None \<Rightarrow> True
      | Some bp \<Rightarrow>
          ho_get_body h = br_replayable (body_of (env_multipart env) bp 0)
        \<and> ho_body h = Some (br_content (body_of (env_multipart env) bp 0)))"

text \<open>Two attempts at one request: they differ in the token at most.\<close>

definition same_request :: "http_out \<Rightarrow> http_out \<Rightarrow> bool" where
  "same_request h h' \<longleftrightarrow>
     ho_method h' = ho_method h \<and> ho_url h' = ho_url h \<and> ho_body h' = ho_body h
   \<and> ho_length h' = ho_length h \<and> ho_get_body h' = ho_get_body h
   \<and> (\<forall>k. k \<noteq> ''Authorization'' \<longrightarrow> ho_header h' k = ho_header h k)"

lemma same_request_refl [simp]: "same_request h h"
  by (simp add: same_request_def)

lemma same_request_trans: "same_request a b \<Longrightarrow> same_request b c \<Longrightarrow> same_request a c"
  by (auto simp: same_request_def)

lemma same_request_set_auth [simp]: "same_request h (set_auth v h)"
  by (simp add: same_request_def set_auth_def header_set_def)

lemma body_ready_same: "body_ready env r h \<Longrightarrow> same_request h h' \<Longrightarrow> body_ready env r h'"
  by (auto simp: body_ready_def same_request_def split: option.splits)

section \<open>The steps\<close>

lemma runs_inject_auth:
  assumes wf: "wf_world w" and tok: "token_ok c"
  shows "runs w (inject_auth c r caller_set n h)
    (\<lambda>x w'. (\<exists>h'. x = Inr h' \<and> same_request h h') \<or> (\<exists>e. x = Inl e \<and> is_kind (Some e) KindAuthError \<and> good_error w' e))"
proof -
  have tok_case: "runs w (bind_act (ts n) (\<lambda>t. case t of
           Inr token \<Rightarrow> ret (Inr (set_auth (''Bearer '' @ token) h))
         | Inl e \<Rightarrow>
             bind_act (propagate_as ''injectAuth'' KindAuthError (Some e) ''failed to obtain auth token'' [])
               (\<lambda>p. ret (Inl (case p of Some e' \<Rightarrow> e' | None \<Rightarrow> e)))))
      (\<lambda>x w'. (\<exists>h'. x = Inr h' \<and> same_request h h') \<or> (\<exists>e. x = Inl e \<and> is_kind (Some e) KindAuthError \<and> good_error w' e))"
    if "cc_token (cl_config c) = Some ts" for ts
  proof (rule runs_bind)
    show "runs w (ts n) (\<lambda>t w'. \<forall>e. t = Inl e \<longrightarrow> good_error w' e)"
      using tok that wf by (simp add: token_ok_def)
    fix t :: "gerror + string" and w' :: world
    assume w': "wf_world w'" "\<forall>e. t = Inl e \<longrightarrow> good_error w' e"
    show "runs w' (case t of
           Inr token \<Rightarrow> ret (Inr (set_auth (''Bearer '' @ token) h))
         | Inl e \<Rightarrow>
             bind_act (propagate_as ''injectAuth'' KindAuthError (Some e) ''failed to obtain auth token'' [])
               (\<lambda>p. ret (Inl (case p of Some e' \<Rightarrow> e' | None \<Rightarrow> e))))
      (\<lambda>x w'. (\<exists>h'. x = Inr h' \<and> same_request h h') \<or> (\<exists>e. x = Inl e \<and> is_kind (Some e) KindAuthError \<and> good_error w' e))"
    proof (cases t)
      case (Inr token)
      then show ?thesis using w'(1) by (auto intro!: runs_ret)
    next
      case (Inl e)
      then have "runs w' (propagate_as ''injectAuth'' KindAuthError (Some e) ''failed to obtain auth token'' [])
          (wraps KindAuthError ''failed to obtain auth token'' e)"
        using w' by (intro runs_propagate_as) simp_all
      then show ?thesis
        unfolding Inl sum.case
        by (rule runs_bind) (auto intro!: runs_ret simp: wraps_def live_good live_is_kind is_kind_ErrorT)
    qed
  qed
  show ?thesis
  proof (cases "rr_basic r = None \<and> rr_token r = [] \<and> \<not> caller_set")
    case True
    then show ?thesis
      using wf tok_case by (cases "cc_token (cl_config c)") (auto simp: inject_auth_def intro!: runs_ret)
  next
    case False
    then show ?thesis
      using wf by (cases "rr_basic r") (auto simp: inject_auth_def intro!: runs_ret)
  qed
qed

lemma unwrap_is_kind: "unwrap e' = Some e \<Longrightarrow> live_error w k e' \<Longrightarrow> is_kind (Some e) q \<Longrightarrow> is_kind (Some e') q"
  by (cases e') (auto simp: is_kind_ErrorT live_error_def)

lemma cruns_prepare:
  assumes wf: "wf_world (cs_world s)" and tok: "token_ok c" and ready: "body_ready env r h"
  shows "cruns s (prepare_attempt env c r caller_set n h)
    (\<lambda>x s'. cs_events s' = cs_events s \<and>
       ((\<exists>h'. x = Inr h' \<and> same_request h h')
        \<or> (\<exists>e. x = Inl e \<and> 0 < n \<and> is_kind (Some e) KindAuthError)))"
proof (cases "n = 0")
  case True
  then show ?thesis using wf by (auto simp: prepare_attempt_def intro!: cruns_ret)
next
  case False
  define h1 where "h1 = (case rr_body r of
      Some bp \<Rightarrow> if ho_get_body h then h\<lparr>ho_body := Some (br_content (body_of (env_multipart env) bp n))\<rparr> else h
    | None \<Rightarrow> h)"
  have "same_request h h1"
    using ready providers.same_content
    by (auto simp: h1_def same_request_def body_ready_def split: option.splits)
  have step: "cruns s (bind_act (lift_w (inject_auth c r caller_set n h1)) (\<lambda>a.
      lift_w (propagate_left ''doWithRetry#1'' ''failed to inject authorization'' [] a)))
    (\<lambda>x s'. cs_events s' = cs_events s \<and> ((\<exists>h'. x = Inr h' \<and> same_request h h')
        \<or> (\<exists>e. x = Inl e \<and> 0 < n \<and> is_kind (Some e) KindAuthError)))"
  proof (rule cruns_bind [OF cruns_lift [OF runs_inject_auth [OF wf tok]]])
    fix a and s' :: cst
    assume wf': "wf_world (cs_world s')"
      and a: "((\<exists>h'. a = Inr h' \<and> same_request h1 h') \<or> (\<exists>e. a = Inl e \<and> is_kind (Some e) KindAuthError \<and> good_error (cs_world s') e))
        \<and> cs_events s' = cs_events s"
    have g: "\<And>e. a = Inl e \<Longrightarrow> good_error (cs_world s') e" using a by auto
    note pl = cruns_lift [OF runs_propagate_left [where opts = "[]" and r = a and site = "''doWithRetry#1''"
          and msg = "''failed to inject authorization''", OF wf' _ g], simplified]
    show "cruns s' (lift_w (propagate_left ''doWithRetry#1'' ''failed to inject authorization'' [] a))
      (\<lambda>x s'. cs_events s' = cs_events s \<and> ((\<exists>h'. x = Inr h' \<and> same_request h h')
        \<or> (\<exists>e. x = Inl e \<and> 0 < n \<and> is_kind (Some e) KindAuthError)))"
      by (rule cruns_weaken [OF pl])
        (use a False \<open>same_request h h1\<close> in
          \<open>auto split: sum.splits intro: same_request_trans unwrap_is_kind\<close>)
  qed
  then show ?thesis using False by (simp add: prepare_attempt_def h1_def Let_def)
qed

lemma foreign_propagates:
  assumes "wf_world w" and "error_kind e = None"
  shows "runs w (propagate_as site k (Some e) msg []) (\<lambda>p w'. \<exists>e'. p = Some e' \<and> live_error w' k e' \<and> unwrap e' = Some e)"
proof -
  have "good_error w e" using assms(2) by (cases e) simp_all
  with assms(1) have "runs w (propagate_as site k (Some e) msg []) (wraps k msg e)"
    by (intro runs_propagate_as) simp_all
  then show ?thesis by (rule runs_weaken) (auto simp: wraps_def wrapped_kind_def assms(2))
qed

lemma cruns_finish:
  assumes wf: "wf_world (cs_world s)" and err: "\<And>e. err = Some e \<Longrightarrow> error_kind e = None"
  shows "cruns s (finish_attempts resp err)
    (\<lambda>x s'. cs_events s' = cs_events s \<and>
       (case err of
          None \<Rightarrow> x = Inr resp
        | Some e \<Rightarrow> \<exists>e'. x = Inl e' \<and> live_error (cs_world s') KindSystemError e' \<and> unwrap e' = Some e))"
proof (cases err)
  case None
  then show ?thesis using wf by (simp add: finish_attempts_def cruns_ret)
next
  case (Some e)
  note p = cruns_lift [OF foreign_propagates [OF wf err [OF Some], of "''doWithRetry#4''" KindSystemError
        "''failed to make request''"]]
  show ?thesis
    unfolding finish_attempts_def Some option.case
    by (rule cruns_bind [OF p]) (auto intro!: cruns_ret)
qed

text \<open>What an attempt that is retried leaves in the log.\<close>

definition retried :: "http_response option \<Rightarrow> nat \<Rightarrow> int \<Rightarrow> client_event list" where
  "retried resp n wait =
     (case resp of Some rs \<Rightarrow> [Drained rs] | None \<Rightarrow> []) @ [LogRetry (Suc n) wait, Waited wait]"

lemma cruns_after:
  assumes wf: "wf_world (cs_world s)" and env: "env_ok env" and pol: "policy_ok rc"
    and lo: "rc_min_wait rc \<le> rc_max_wait rc"
  shows "cruns s (after_attempt env rc meth n resp err)
    (\<lambda>v s'. (v = Stop \<and> cs_events s' = cs_events s
              \<and> check_retry (policy_of rc) (env_ctx env n) meth resp err n = (False, None))
          \<or> (\<exists>e. v = Fail e \<and> cs_events s' = cs_events s \<and> env_ctx env n \<noteq> None
              \<and> live_error (cs_world s') KindSystemError e)
          \<or> (\<exists>wait. rc_min_wait rc \<le> wait \<and> wait \<le> rc_max_wait rc
              \<and> cs_events s' = cs_events s @ retried resp n wait
              \<and> check_retry (policy_of rc) (env_ctx env n) meth resp err n = (True, None)
              \<and> (v = Again \<or> (\<exists>e. v = Fail e \<and> live_error (cs_world s') KindSystemError e))))"
proof -
  let ?p = "policy_of rc"
  have contract: "retry_contract (check_retry ?p) (backoff ?p)" using pol by (simp add: policy_ok_def)
  obtain b ce where chk: "check_retry ?p (env_ctx env n) meth resp err n = (b, ce)"
    by (cases "check_retry ?p (env_ctx env n) meth resp err n")
  show ?thesis
  proof (cases ce)
    case (Some cerr)
    then have ctx: "env_ctx env n = Some cerr" using pol chk by (simp add: policy_ok_def)
    then have ek: "error_kind cerr = None" using env by (simp add: env_ok_def)
    note p = cruns_lift [OF foreign_propagates [OF wf ek, of "''doWithRetry#2''" KindSystemError "''request cancelled''"]]
    have "cruns s (bind_act (lift_w (propagate_as ''doWithRetry#2'' KindSystemError (Some cerr) ''request cancelled'' []))
            (\<lambda>e. ret (Fail (case e of Some e' \<Rightarrow> e' | None \<Rightarrow> cerr))))
        (\<lambda>v s'. \<exists>e. v = Fail e \<and> cs_events s' = cs_events s \<and> live_error (cs_world s') KindSystemError e)"
      by (rule cruns_bind [OF p]) (auto intro!: cruns_ret)
    then have "cruns s (after_attempt env rc meth n resp err)
        (\<lambda>v s'. \<exists>e. v = Fail e \<and> cs_events s' = cs_events s \<and> live_error (cs_world s') KindSystemError e)"
      using chk Some by (cases b) (simp_all add: after_attempt_def Let_def)
    then show ?thesis by (rule cruns_weaken) (use ctx in auto)
  next
    case None
    show ?thesis
    proof (cases b)
      case False
      then show ?thesis using chk None wf by (simp add: after_attempt_def Let_def cruns_ret)
    next
      case True
      let ?wait = "backoff ?p (env_until env) (env_rnd env n) (rc_min_wait rc) (rc_max_wait rc) n resp"
      have wb: "rc_min_wait rc \<le> ?wait \<and> ?wait \<le> rc_max_wait rc"
        using retry_contract.wait_bounds [OF contract lo] .
      let ?s = "s\<lparr>cs_events := cs_events s @ retried resp n ?wait\<rparr>"
      have "after_attempt env rc meth n resp err s =
          (case env_sleep env n ?wait of
             None \<Rightarrow> ret Again
           | Some cerr \<Rightarrow>
               bind_act (lift_w (propagate_as ''doWithRetry#3'' KindSystemError (Some cerr)
                 ''request cancelled during backoff'' []))
                 (\<lambda>e. ret (Fail (case e of Some e' \<Rightarrow> e' | None \<Rightarrow> cerr)))) ?s"
        using chk None True
        by (cases resp) (simp_all add: after_attempt_def Let_def bind_act_def emit_def ret_def retried_def)
      moreover have "cruns ?s (case env_sleep env n ?wait of
             None \<Rightarrow> ret Again
           | Some cerr \<Rightarrow>
               bind_act (lift_w (propagate_as ''doWithRetry#3'' KindSystemError (Some cerr)
                 ''request cancelled during backoff'' []))
                 (\<lambda>e. ret (Fail (case e of Some e' \<Rightarrow> e' | None \<Rightarrow> cerr))))
          (\<lambda>v s'. cs_events s' = cs_events s @ retried resp n ?wait
             \<and> (v = Again \<or> (\<exists>e. v = Fail e \<and> live_error (cs_world s') KindSystemError e)))"
      proof (cases "env_sleep env n ?wait")
        case None
        then show ?thesis using wf by (simp add: cruns_ret)
      next
        case (Some cerr)
        then have ek: "error_kind cerr = None" using env by (simp add: env_ok_def)
        have wf': "wf_world (cs_world ?s)" using wf by simp
        note p = cruns_lift [OF foreign_propagates [OF wf' ek, of "''doWithRetry#3''" KindSystemError
              "''request cancelled during backoff''"]]
        show ?thesis
          unfolding Some option.case by (rule cruns_bind [OF p]) (auto intro!: cruns_ret)
      qed
      ultimately have "cruns s (after_attempt env rc meth n resp err)
          (\<lambda>v s'. cs_events s' = cs_events s @ retried resp n ?wait
             \<and> (v = Again \<or> (\<exists>e. v = Fail e \<and> live_error (cs_world s') KindSystemError e)))"
        by (simp add: cruns_def)
      then show ?thesis by (rule cruns_weaken) (use wb chk None True in auto)
    qed
  qed
qed

section \<open>The loop\<close>

text \<open>
  A retried attempt: the request sent, the response it got and the wait after it. The events such
  attempts leave, and what holds of each.
\<close>

type_synonym attempt = "http_out \<times> http_response option \<times> int"

fun attempt_events :: "nat \<Rightarrow> attempt list \<Rightarrow> client_event list" where
  "attempt_events n [] = []"
| "attempt_events n ((h, resp, wait) # rest) =
     Sent h # retried resp n wait @ attempt_events (Suc n) rest"

fun attempts_ok :: "send_env \<Rightarrow> retry_config \<Rightarrow> http_out \<Rightarrow> nat \<Rightarrow> attempt list \<Rightarrow> bool" where
  "attempts_ok env rc h n [] = True"
| "attempts_ok env rc h n ((h', resp, wait) # rest) =
     (same_request h h' \<and> resp = fst (env_do env n h')
      \<and> rc_min_wait rc \<le> wait \<and> wait \<le> rc_max_wait rc
      \<and> check_retry (policy_of rc) (env_ctx env n) (ho_method h') resp (snd (env_do env n h')) n = (True, None)
      \<and> attempts_ok env rc h (Suc n) rest)"

definition loop_result ::
  "send_env \<Rightarrow> http_out \<Rightarrow> nat \<Rightarrow> attempt list \<Rightarrow> client_event list \<Rightarrow> gerror + http_response option \<Rightarrow> bool"
where
  "loop_result env h n rs tail x \<longleftrightarrow>
     (case x of
        Inr resp \<Rightarrow> \<exists>hf. tail = [Sent hf] \<and> same_request h hf
          \<and> env_do env (n + length rs) hf = (resp, None)
      | Inl e \<Rightarrow> (tail = [] \<and> 0 < n + length rs \<or> (\<exists>hf. tail = [Sent hf] \<and> same_request h hf))
          \<and> (is_kind (Some e) KindSystemError \<or> is_kind (Some e) KindAuthError))"

lemma attempts_ok_same: "same_request h h' \<Longrightarrow> attempts_ok env rc h' n rs \<Longrightarrow> attempts_ok env rc h n rs"
  by (induction rs arbitrary: n) (auto intro: same_request_trans)

lemma loop_result_same: "same_request h h' \<Longrightarrow> loop_result env h' n rs tail x \<Longrightarrow> loop_result env h n rs tail x"
  by (auto simp: loop_result_def split: sum.splits intro: same_request_trans)

lemma cruns_finish_loop:
  assumes wf: "wf_world (cs_world s)" and env: "env_ok env" and d: "env_do env n h' = (resp, err)"
    and same: "same_request h h'"
  shows "cruns s (finish_attempts resp err)
    (\<lambda>x s'. cs_events s' = cs_events s \<and> loop_result env h n [] [Sent h'] x)"
proof -
  have "\<And>e. err = Some e \<Longrightarrow> error_kind e = None" using env d unfolding env_ok_def by (metis snd_conv)
  from cruns_finish [where resp = resp, OF wf this] show ?thesis
    by (rule cruns_weaken)
      (use d same in \<open>auto simp: loop_result_def intro: live_is_kind [OF _ kind_is_refl] split: option.splits\<close>)
qed

lemma cruns_attempts:
  assumes env: "env_ok env" and tok: "token_ok c" and pol: "policy_ok (cc_retry (cl_config c))"
    and lo: "rc_min_wait (cc_retry (cl_config c)) \<le> rc_max_wait (cc_retry (cl_config c))"
  shows "wf_world (cs_world s) \<Longrightarrow> body_ready env r h \<Longrightarrow>
    cruns s (attempts env c r caller_set can left n h)
      (\<lambda>x s'. \<exists>rs tail. cs_events s' = cs_events s @ attempt_events n rs @ tail
         \<and> length rs \<le> (if can then left else 0)
         \<and> attempts_ok env (cc_retry (cl_config c)) h n rs \<and> loop_result env h n rs tail x)"
proof (induction left arbitrary: n h s)
  case 0
  show ?case
    unfolding attempts.simps [of env c r caller_set can 0 n h]
  proof (rule cruns_bind [OF cruns_prepare [OF 0(1) tok 0(2)]])
    fix x and s1 :: cst
    assume s1: "wf_world (cs_world s1)"
      and x: "cs_events s1 = cs_events s \<and> ((\<exists>h'. x = Inr h' \<and> same_request h h')
        \<or> (\<exists>e. x = Inl e \<and> 0 < n \<and> is_kind (Some e) KindAuthError))"
    show "cruns s1 (case x of Inl e \<Rightarrow> ret (Inl e)
       | Inr h' \<Rightarrow> bind_act (emit (Sent h')) (\<lambda>_.
           let (resp, err) = env_do env n h' in
           if \<not> can then finish_attempts resp err
           else case (0::nat) of
                  0 \<Rightarrow> finish_attempts resp err
                | Suc left' \<Rightarrow>
                    bind_act (after_attempt env (cc_retry (cl_config c)) (ho_method h') n resp err) (\<lambda>v.
                      case v of
                        Stop \<Rightarrow> finish_attempts resp err
                      | Again \<Rightarrow> attempts env c r caller_set can left' (Suc n) h'
                      | Fail e \<Rightarrow> ret (Inl e))))
      (\<lambda>x s'. \<exists>rs tail. cs_events s' = cs_events s @ attempt_events n rs @ tail
         \<and> length rs \<le> (if can then 0 else 0)
         \<and> attempts_ok env (cc_retry (cl_config c)) h n rs \<and> loop_result env h n rs tail x)"
    proof (cases x)
      case (Inl e)
      with x show ?thesis
        using s1 by (auto intro!: cruns_ret exI [of _ "[]"] simp: loop_result_def)
    next
      case (Inr h')
      then have same: "same_request h h'" using x by auto
      obtain resp err where d: "env_do env n h' = (resp, err)" by fastforce
      have "cruns s1 (bind_act (emit (Sent h')) (\<lambda>_. finish_attempts resp err))
          (\<lambda>x s'. cs_events s' = cs_events s @ [Sent h'] \<and> loop_result env h n [] [Sent h'] x)"
      proof (rule cruns_bind [OF cruns_emit [OF s1]])
        fix y and s2 :: cst
        assume "wf_world (cs_world s2)" "cs_events s2 = cs_events s1 @ [Sent h'] \<and> cs_world s2 = cs_world s1"
        then show "cruns s2 (finish_attempts resp err)
            (\<lambda>x s'. cs_events s' = cs_events s @ [Sent h'] \<and> loop_result env h n [] [Sent h'] x)"
          using cruns_finish_loop [OF _ env d same, of s2] x by simp
      qed
      then show ?thesis
        unfolding Inr sum.case d Let_def prod.case nat.case if_cancel
        by (rule cruns_weaken) (auto intro!: exI [of _ "[] :: attempt list"])
    qed
  qed
next
  case (Suc left)
  let ?rc = "cc_retry (cl_config c)"
  let ?Q = "\<lambda>x s'. \<exists>rs tail. cs_events s' = cs_events s @ attempt_events n rs @ tail
         \<and> length rs \<le> (if can then Suc left else 0)
         \<and> attempts_ok env ?rc h n rs \<and> loop_result env h n rs tail x"
  show ?case
    unfolding attempts.simps [of env c r caller_set can "Suc left" n h]
  proof (rule cruns_bind [OF cruns_prepare [OF Suc(2) tok Suc(3)]])
    fix x and s1 :: cst
    assume s1: "wf_world (cs_world s1)"
      and x: "cs_events s1 = cs_events s \<and> ((\<exists>h'. x = Inr h' \<and> same_request h h')
        \<or> (\<exists>e. x = Inl e \<and> 0 < n \<and> is_kind (Some e) KindAuthError))"
    show "cruns s1 (case x of Inl e \<Rightarrow> ret (Inl e)
       | Inr h' \<Rightarrow> bind_act (emit (Sent h')) (\<lambda>_.
           let (resp, err) = env_do env n h' in
           if \<not> can then finish_attempts resp err
           else case Suc left of
                  0 \<Rightarrow> finish_attempts resp err
                | Suc left' \<Rightarrow>
                    bind_act (after_attempt env ?rc (ho_method h') n resp err) (\<lambda>v.
                      case v of
                        Stop \<Rightarrow> finish_attempts resp err
                      | Again \<Rightarrow> attempts env c r caller_set can left' (Suc n) h'
                      | Fail e \<Rightarrow> ret (Inl e)))) ?Q"
    proof (cases x)
      case (Inl e)
      with x show ?thesis
        using s1 by (auto intro!: cruns_ret exI [of _ "[]"] simp: loop_result_def)
    next
      case (Inr h')
      then have same: "same_request h h'" using x by auto
      obtain resp err where d: "env_do env n h' = (resp, err)" by fastforce
      have fin: "cruns s2 (finish_attempts resp err) ?Q"
        if "wf_world (cs_world s2)" "cs_events s2 = cs_events s @ [Sent h']" for s2 :: cst
        by (rule cruns_weaken [OF cruns_finish_loop [OF that(1) env d same]])
          (use that(2) in \<open>auto intro!: exI [of _ "[] :: attempt list"]\<close>)
      have loop: "cruns s2 (bind_act (after_attempt env ?rc (ho_method h') n resp err) (\<lambda>v.
                      case v of
                        Stop \<Rightarrow> finish_attempts resp err
                      | Again \<Rightarrow> attempts env c r caller_set can left (Suc n) h'
                      | Fail e \<Rightarrow> ret (Inl e))) ?Q"
        if wf2: "wf_world (cs_world s2)" and ev2: "cs_events s2 = cs_events s @ [Sent h']" and can: can for s2 :: cst
      proof (rule cruns_bind [OF cruns_after [OF wf2 env pol lo]])
        fix v and s3 :: cst
        assume wf3: "wf_world (cs_world s3)"
          and v: "v = Stop \<and> cs_events s3 = cs_events s2
              \<and> check_retry (policy_of ?rc) (env_ctx env n) (ho_method h') resp err n = (False, None)
          \<or> (\<exists>e. v = Fail e \<and> cs_events s3 = cs_events s2 \<and> env_ctx env n \<noteq> None
              \<and> live_error (cs_world s3) KindSystemError e)
          \<or> (\<exists>wait. rc_min_wait ?rc \<le> wait \<and> wait \<le> rc_max_wait ?rc
              \<and> cs_events s3 = cs_events s2 @ retried resp n wait
              \<and> check_retry (policy_of ?rc) (env_ctx env n) (ho_method h') resp err n = (True, None)
              \<and> (v = Again \<or> (\<exists>e. v = Fail e \<and> live_error (cs_world s3) KindSystemError e)))"
        then consider (stop) "v = Stop" "cs_events s3 = cs_events s2"
          | (cancelled) e where "v = Fail e" "cs_events s3 = cs_events s2" "live_error (cs_world s3) KindSystemError e"
          | (retry) wait where "rc_min_wait ?rc \<le> wait" "wait \<le> rc_max_wait ?rc"
              "cs_events s3 = cs_events s2 @ retried resp n wait"
              "check_retry (policy_of ?rc) (env_ctx env n) (ho_method h') resp err n = (True, None)"
              "v = Again \<or> (\<exists>e. v = Fail e \<and> live_error (cs_world s3) KindSystemError e)"
          by blast
        then show "cruns s3 (case v of Stop \<Rightarrow> finish_attempts resp err
              | Again \<Rightarrow> attempts env c r caller_set can left (Suc n) h' | Fail e \<Rightarrow> ret (Inl e)) ?Q"
        proof cases
          case stop
          then show ?thesis using fin [OF wf3] ev2 by simp
        next
          case cancelled
          then have "?Q (Inl e) s3"
            using ev2 same live_is_kind [OF cancelled(3) kind_is_refl]
            by (intro exI [of _ "[]"] exI [of _ "[Sent h']"]) (simp add: loop_result_def)
          then show ?thesis using cancelled(1) wf3 by (simp add: cruns_ret)
        next
          case retry
          let ?a = "(h', resp, wait)"
          have one: "attempts_ok env ?rc h n [?a]" using retry(1,2,4) d same by simp
          from retry(5) show ?thesis
          proof
            assume again: "v = Again"
            have ready: "body_ready env r h'" using Suc(3) same by (rule body_ready_same)
            have "cruns s3 (attempts env c r caller_set can left (Suc n) h') ?Q"
              using Suc(1) [OF wf3 ready, of "Suc n"]
            proof (rule cruns_weaken)
              fix y and s4 :: cst
              assume "\<exists>rs tail. cs_events s4 = cs_events s3 @ attempt_events (Suc n) rs @ tail
                \<and> length rs \<le> (if can then left else 0)
                \<and> attempts_ok env ?rc h' (Suc n) rs \<and> loop_result env h' (Suc n) rs tail y"
              then obtain rs tail where rs: "cs_events s4 = cs_events s3 @ attempt_events (Suc n) rs @ tail"
                "length rs \<le> left" "attempts_ok env ?rc h' (Suc n) rs" "loop_result env h' (Suc n) rs tail y"
                using can by auto
              have "loop_result env h n (?a # rs) tail y"
                using loop_result_same [OF same rs(4)] by (simp add: loop_result_def split: sum.splits)
              then show "?Q y s4"
                using rs(1,2) ev2 retry(3) one attempts_ok_same [OF same rs(3)] can
                by (intro exI [of _ "?a # rs"] exI [of _ tail]) (simp add: d)
            qed
            then show ?thesis using again by simp
          next
            assume "\<exists>e. v = Fail e \<and> live_error (cs_world s3) KindSystemError e"
            then obtain e where e: "v = Fail e" "live_error (cs_world s3) KindSystemError e" by blast
            have "?Q (Inl e) s3"
              using ev2 retry(3) one live_is_kind [OF e(2) kind_is_refl] can
              by (intro exI [of _ "[?a]"] exI [of _ "[]"]) (simp add: loop_result_def d)
            then show ?thesis using e(1) wf3 by (simp add: cruns_ret)
          qed
        qed
      qed
      have "cruns s1 (bind_act (emit (Sent h')) (\<lambda>_.
           if \<not> can then finish_attempts resp err
           else bind_act (after_attempt env ?rc (ho_method h') n resp err) (\<lambda>v.
                      case v of
                        Stop \<Rightarrow> finish_attempts resp err
                      | Again \<Rightarrow> attempts env c r caller_set can left (Suc n) h'
                      | Fail e \<Rightarrow> ret (Inl e)))) ?Q"
        by (rule cruns_bind [OF cruns_emit [OF s1]]) (use x fin loop in auto)
      then show ?thesis unfolding Inr sum.case d Let_def prod.case nat.case .
    qed
  qed
qed

section \<open>What the loop guarantees\<close>

definition sent_requests :: "client_event list \<Rightarrow> http_out list" where
  "sent_requests evs = concat (map (\<lambda>ev. case ev of Sent h \<Rightarrow> [h] | _ \<Rightarrow> []) evs)"

lemma sent_requests_append [simp]: "sent_requests (a @ b) = sent_requests a @ sent_requests b"
  by (simp add: sent_requests_def)

lemma sent_requests_simps [simp]:
  "sent_requests [] = []" "sent_requests (Sent h # evs) = h # sent_requests evs"
  "sent_requests (retried resp n w) = []"
  by (cases resp; simp add: sent_requests_def retried_def)+

lemma sent_attempt_events: "sent_requests (attempt_events n rs) = map fst rs"
  by (induction n rs rule: attempt_events.induct) simp_all

lemma attempts_ok_fst: "attempts_ok env rc h n rs \<Longrightarrow> h' \<in> set (map fst rs) \<Longrightarrow> same_request h h'"
  by (induction env rc h n rs rule: attempts_ok.induct) auto

lemma attempts_ok_wait:
  "attempts_ok env rc h n rs \<Longrightarrow> Waited w \<in> set (attempt_events n rs) \<Longrightarrow>
   rc_min_wait rc \<le> w \<and> w \<le> rc_max_wait rc"
  by (induction env rc h n rs rule: attempts_ok.induct) (auto simp: retried_def split: option.splits)

text \<open>
  C14: A request is sent a bounded number of times, and only when that is safe. With a policy that
  keeps its contract, the loop returns; it sends the request at least once and at most
  1 + MaxRetries times, and exactly once when retrying is disabled, when the body cannot be
  replayed, or when the method is not idempotent and EnableRetry was not called. All the requests
  sent are the same one, body included, up to the Authorization header.
\<close>

theorem sends_bounded_and_safe:
  assumes "wf_world (cs_world s)" and "env_ok env" and "token_ok c"
    and "policy_ok (cc_retry (cl_config c))"
    and "rc_min_wait (cc_retry (cl_config c)) \<le> rc_max_wait (cc_retry (cl_config c))"
    and "body_ready env r h"
  shows "\<exists>x s' hs. do_with_retry env c r h replayable caller_set s = (Ret x, s')
    \<and> sent_requests (cs_events s') = sent_requests (cs_events s) @ hs
    \<and> 1 \<le> length hs \<and> int (length hs) \<le> 1 + max 0 (rc_max (cc_retry (cl_config c)))
    \<and> (\<not> replayable \<or> rr_retry r = Some False
        \<or> (\<not> IsIdempotent (ho_method h) \<and> rr_retry r \<noteq> Some True)
        \<or> (\<not> rc_enabled (cc_retry (cl_config c)) \<and> rr_retry r = None) \<longrightarrow> length hs = 1)
    \<and> (\<forall>h' \<in> set hs. same_request h h')"
proof -
  let ?rc = "cc_retry (cl_config c)"
  let ?can = "can_retry ?rc (rr_retry r) replayable (ho_method h)"
  obtain x s' rs tail where run: "do_with_retry env c r h replayable caller_set s = (Ret x, s')"
    and ev: "cs_events s' = cs_events s @ attempt_events 0 rs @ tail"
    and len: "length rs \<le> (if ?can then nat (rc_max ?rc) else 0)"
    and ok: "attempts_ok env ?rc h 0 rs" and res: "loop_result env h 0 rs tail x"
    using cruns_attempts [OF assms(2-5,1,6), of caller_set ?can "nat (rc_max ?rc)" 0]
    unfolding do_with_retry_def Let_def cruns_def by blast
  have tail: "tail = [] \<and> rs \<noteq> [] \<or> (\<exists>hf. tail = [Sent hf] \<and> same_request h hf)"
    using res by (auto simp: loop_result_def split: sum.splits)
  let ?hs = "map fst rs @ sent_requests tail"
  have "sent_requests (cs_events s') = sent_requests (cs_events s) @ ?hs"
    using ev by (simp add: sent_attempt_events)
  moreover have "1 \<le> length ?hs" using tail by (auto simp: Suc_le_eq)
  moreover have "length (sent_requests tail) \<le> 1" using tail by auto
  moreover have "int (length rs) \<le> max 0 (rc_max ?rc)" using len by (simp split: if_splits)
  moreover have "?can = False \<Longrightarrow> length ?hs = 1" using len tail by auto
  moreover have "\<forall>h' \<in> set ?hs. same_request h h'" using attempts_ok_fst [OF ok] tail by auto
  moreover have "\<not> replayable \<or> rr_retry r = Some False
        \<or> (\<not> IsIdempotent (ho_method h) \<and> rr_retry r \<noteq> Some True)
        \<or> (\<not> rc_enabled ?rc \<and> rr_retry r = None) \<Longrightarrow> ?can = False"
    by (cases "rr_retry r") (auto simp: can_retry_def Let_def)
  ultimately show ?thesis
    using run by (intro exI [of _ x] exI [of _ s'] exI [of _ ?hs]) simp
qed

definition flaky_env :: send_env where
  "flaky_env =
     \<lparr>env_do = (\<lambda>n h. if n = 0 then (Some \<lparr>resp_status = 503, resp_header = no_header, resp_body = None\<rparr>, None)
                else (Some \<lparr>resp_status = 200, resp_header = no_header, resp_body = None\<rparr>, None)),
      env_ctx = (\<lambda>n. None), env_sleep = (\<lambda>n d. None), env_until = (\<lambda>_. None), env_now = 0,
      env_rnd = (\<lambda>n. 1 / 2), env_new_request = (\<lambda>m t. None), env_multipart = (\<lambda>fs. ([], [])),
      env_uuid_string = (\<lambda>u. [])\<rparr>"

definition plain_client :: client where
  "plain_client = \<lparr>cl_config = Defaults, cl_base_headers = no_header\<rparr>"

definition plain_out :: "string \<Rightarrow> http_out" where
  "plain_out meth = \<lparr>ho_method = meth, ho_url = ''http://localhost/x'', ho_header = no_header, ho_body = None,
     ho_length = 0, ho_get_body = False\<rparr>"

lemma flaky_env_ok: "env_ok flaky_env"
  by (auto simp: env_ok_def flaky_env_def)

lemma plain_client_simps [simp]:
  "cc_token (cl_config plain_client) = None" "rc_policy (cc_retry (cl_config plain_client)) = None"
  "rc_max (cc_retry (cl_config plain_client)) = 3"
  "rc_min_wait (cc_retry (cl_config plain_client)) = 10 ^ 8"
  "rc_max_wait (cc_retry (cl_config plain_client)) = 2 * 10 ^ 9"
  by (simp_all add: plain_client_def Defaults_def)

lemma plain_token_ok: "token_ok plain_client"
  by (simp add: token_ok_def)

definition start_cst :: cst where
  "start_cst = \<lparr>cs_world = sample_world, cs_events = []\<rparr>"

lemma start_cst_wf: "wf_world (cs_world start_cst)" "sent_requests (cs_events start_cst) = []"
  using sample_world_wf by (simp_all add: start_cst_def)

theorem sends_bounded_and_safe_witness:
  "\<exists>x s'. do_with_retry flaky_env plain_client (client_R plain_client background) (plain_out ''POST'') True False start_cst
      = (Ret x, s')
    \<and> length (sent_requests (cs_events s')) = 1"
proof -
  have lo: "rc_min_wait (cc_retry (cl_config plain_client)) \<le> rc_max_wait (cc_retry (cl_config plain_client))"
    by simp
  have pol: "policy_ok (cc_retry (cl_config plain_client))" by (rule default_policy_ok) simp
  have ready: "body_ready flaky_env (client_R plain_client background) (plain_out ''POST'')"
    by (simp add: body_ready_def client_R_def)
  have post: "\<not> IsIdempotent (ho_method (plain_out ''POST''))" "rr_retry (client_R plain_client background) = None"
    by (simp_all add: IsIdempotent_def plain_out_def client_R_def)
  show ?thesis
    using sends_bounded_and_safe [OF start_cst_wf(1) flaky_env_ok plain_token_ok pol lo ready, of True False]
      post start_cst_wf(2)
    by auto
qed



section \<open>Authorization\<close>

definition auth_of :: "http_out \<Rightarrow> string" where
  "auth_of h = header_get (ho_header h) ''Authorization''"

lemma auth_of_set [simp]: "auth_of (set_auth v h) = v"
  by (simp add: auth_of_def set_auth_def)

text \<open>
  Who authorises a request. Basic authentication wins, and a server that splits the decoded
  credentials at the first colon gets the user and the password back; then the token of the
  request, then a header the caller set, then the client's token source, asked again for this very
  attempt; without any of these the request is sent as it is. A failing token source gives an
  authentication error.
\<close>

theorem authorization_precedence:
  assumes "wf_world w" and "token_ok c" and "\<And>u p. rr_basic r = Some (u, p) \<Longrightarrow> CHR '':'' \<notin> set u"
  shows "\<exists>x w'. inject_auth c r caller_set n h w = (Ret x, w')
    \<and> (case rr_basic r of
         Some (u, p) \<Rightarrow> (\<exists>h' v. x = Inr h' \<and> auth_of h' = ''Basic '' @ v
           \<and> Option.bind (base64_decode v) (cut_at (CHR '':'')) = Some (u, p))
       | None \<Rightarrow>
           if rr_token r \<noteq> [] then \<exists>h'. x = Inr h' \<and> auth_of h' = ''Bearer '' @ rr_token r
           else if caller_set then x = Inr h
           else case cc_token (cl_config c) of
                  None \<Rightarrow> x = Inr h
                | Some ts \<Rightarrow>
                    (case fst (ts n w) of
                       Ret (Inr t) \<Rightarrow> \<exists>h'. x = Inr h' \<and> auth_of h' = ''Bearer '' @ t
                     | Ret (Inl e) \<Rightarrow> \<exists>e'. x = Inl e' \<and> is_kind (Some e') KindAuthError \<and> unwrap e' = Some e
                     | Panic p \<Rightarrow> False))"
proof (cases "rr_basic r")
  case (Some up)
  obtain u p where up: "up = (u, p)" by (cases up)
  let ?v = "base64_encode (u @ '':'' @ p)"
  have "Option.bind (base64_decode ?v) (cut_at (CHR '':'')) = Some (u, p)"
    using assms(3) Some up by (simp add: base64_roundtrip)
  then show ?thesis
    using Some up by (intro exI [of _ "Inr (set_auth (basic_auth_value u p) h)"] exI [of _ w])
      (auto simp: inject_auth_def ret_def basic_auth_value_def)
next
  case None
  show ?thesis
  proof (cases "rr_token r \<noteq> [] \<or> caller_set \<or> cc_token (cl_config c) = None")
    case True
    then show ?thesis using None by (auto simp: inject_auth_def ret_def)
  next
    case False
    then obtain ts where ts: "cc_token (cl_config c) = Some ts" by auto
    then obtain t w1 where t: "ts n w = (Ret t, w1)" "wf_world w1" "\<forall>e. t = Inl e \<longrightarrow> good_error w1 e"
      using assms(1,2) by (force simp: token_ok_def runs_def)
    show ?thesis
    proof (cases t)
      case (Inr tk)
      then show ?thesis using None False ts t(1) by (auto simp: inject_auth_def bind_act_def ret_def)
    next
      case (Inl e)
      have "runs w1 (propagate_as ''injectAuth'' KindAuthError (Some e) ''failed to obtain auth token'' [])
          (wraps KindAuthError ''failed to obtain auth token'' e)"
        using t(2,3) Inl by (intro runs_propagate_as) simp_all
      then obtain p w2 where p: "propagate_as ''injectAuth'' KindAuthError (Some e) ''failed to obtain auth token'' [] w1
          = (Ret p, w2)" "wraps KindAuthError ''failed to obtain auth token'' e p w2"
        by (auto simp: runs_def)
      then obtain e' where e': "p = Some e'" "unwrap e' = Some e" "is_kind (Some e') KindAuthError"
        by (auto simp: wraps_def is_kind_ErrorT)
      have "inject_auth c r caller_set n h w = (Ret (Inl e'), w2)"
        using None False ts t(1) Inl p(1) e'(1) by (simp add: inject_auth_def bind_act_def ret_def)
      then show ?thesis using None False ts t(1) Inl e' by auto
    qed
  qed
qed

theorem authorization_precedence_witness:
  "\<exists>h' w'. inject_auth plain_client (SetBasicAuth ''ann'' ''s:cret'' (client_R plain_client background)) False 0
        (plain_out ''GET'') sample_world = (Ret (Inr h'), w')
    \<and> has_prefix (auth_of h') ''Basic ''"
proof -
  let ?r = "SetBasicAuth ''ann'' ''s:cret'' (client_R plain_client background)"
  have b: "rr_basic ?r = Some (''ann'', ''s:cret'')" by (simp add: SetBasicAuth_def)
  have nc: "CHR '':'' \<notin> set u" if "rr_basic ?r = Some (u, p)" for u p using that b by auto
  show ?thesis
    using authorization_precedence [where r = ?r, OF sample_world_wf plain_token_ok nc] b by fastforce
qed

section \<open>After Send returns\<close>


definition plain_url_lib :: "string url_lib" where
  "plain_url_lib = \<lparr>url_parse = Inr, url_join = (\<lambda>u p. u @ p), url_query = (\<lambda>u. no_header),
     url_set_query = (\<lambda>u q. u), url_text = (\<lambda>u. u)\<rparr>"

definition steady_env :: send_env where
  "steady_env = flaky_env\<lparr>env_do := (\<lambda>n h. (Some \<lparr>resp_status = 200, resp_header = no_header, resp_body = None\<rparr>, None))\<rparr>"

definition traced_ctx :: go_ctx where
  "traced_ctx = set_context_session_id (set_context_request_id background uuid_Nil) ''s''"


end
