(* ===== verification/Monitoring.thy ===== *)
theory Monitoring
  imports Rest
begin

text \<open>
  What a server keeps beside one response: its clock, the recorders its middlewares put around a
  response writer, the cancel functions that ran and the metrics of \<open>monitoring/monitoring.go\<close>.
\<close>

section \<open>Metrics\<close>

text \<open>
  The three instruments and what was recorded on them, by attributes: a counter of requests, an
  up/down counter of requests in flight, a histogram. \<open>mt_built\<close> is what \<open>sync.OnceValues\<close> keeps:
  nothing before the first use, then whether the instruments exist.
\<close>

record metrics =
  mt_built :: "bool option"
  mt_requests :: "string \<times> string \<times> int \<Rightarrow> nat"
  mt_active :: "string \<times> string \<Rightarrow> int"
  mt_duration :: "((string \<times> string \<times> int) \<times> int) list"

text \<open>A recorder holds the status last passed to \<open>WriteHeader\<close> and the bytes written.\<close>

record recorder =
  rec_status :: int
  rec_size :: int

record site =
  st_srv :: srv
  st_clock :: int
  st_uuids :: nat
  st_recorders :: "recorder list"
  st_contexts :: nat
  st_cancelled :: "nat set"
  st_metrics :: metrics

definition on_srv :: "(srv, 'a) act \<Rightarrow> (site, 'a) act" where
  "on_srv m s = (case m (st_srv s) of (r, v) \<Rightarrow> (r, s\<lparr>st_srv := v\<rparr>))"

definition site_log :: "logger \<Rightarrow> log_level \<Rightarrow> string \<Rightarrow> log_field list \<Rightarrow> (site, unit) act" where
  "site_log l lvl msg gs = on_srv (log_to l lvl msg gs)"

section \<open>Instruments\<close>

text \<open>
  What the meter of the OpenTelemetry library answers when asked for an instrument: nothing, or an
  error, by its type and text.
\<close>

type_synonym meter = "string \<Rightarrow> (string \<times> string) option"

definition log_instrument_error :: "logger \<Rightarrow> string \<times> string \<Rightarrow> string \<Rightarrow> (site, unit) act" where
  "log_instrument_error global e name =
     bind_act (on_srv (on_world (propagate ''logInstrumentError''
       (Some (ForeignErr (fst e) (snd e) None None)) (''failed to create '' @ name) []))) (\<lambda>g.
     site_log global LErr ''Failed to initialize HTTP metrics'' [LogError (zap_error g)])"

definition set_built :: "bool \<Rightarrow> (site, unit) act" where
  "set_built b s = ret () (s\<lparr>st_metrics := (st_metrics s)\<lparr>mt_built := Some b\<rparr>\<rparr>)"

definition build_instruments :: "meter \<Rightarrow> logger \<Rightarrow> (site, bool) act" where
  "build_instruments meter global =
     (case meter ''http.server.requests'' of
        Some e \<Rightarrow> bind_act (log_instrument_error global e ''http.server.requests counter'') (\<lambda>_. ret False)
      | None \<Rightarrow>
          (case meter ''http.server.active_requests'' of
             Some e \<Rightarrow>
               bind_act (log_instrument_error global e ''http.server.active_requests counter'') (\<lambda>_. ret False)
           | None \<Rightarrow>
               (case meter ''http.server.request.duration'' of
                  Some e \<Rightarrow>
                    bind_act (log_instrument_error global e ''http.server.request.duration histogram'')
                      (\<lambda>_. ret False)
                | None \<Rightarrow> ret True)))"

definition get_instruments :: "meter \<Rightarrow> logger \<Rightarrow> (site, bool) act" where
  "get_instruments meter global s =
     (case mt_built (st_metrics s) of
        Some b \<Rightarrow> ret b s
      | None \<Rightarrow>
          bind_act (build_instruments meter global) (\<lambda>b. bind_act (set_built b) (\<lambda>_. ret b)) s)"

text \<open>\<open>resolve\<close>, and the nil check of its callers.\<close>

definition resolve :: "meter \<Rightarrow> logger \<Rightarrow> (metrics \<Rightarrow> metrics) \<Rightarrow> (site, unit) act" where
  "resolve meter global upd =
     bind_act (get_instruments meter global) (\<lambda>b s.
       if \<not> b then ret () s else ret () (s\<lparr>st_metrics := upd (st_metrics s)\<rparr>))"

definition increment_traffic :: "meter \<Rightarrow> logger \<Rightarrow> string \<Rightarrow> string \<Rightarrow> int \<Rightarrow> (site, unit) act" where
  "increment_traffic meter global meth route status =
     resolve meter global (mt_requests_update
       (\<lambda>f. f((meth, route, status) := Suc (f (meth, route, status)))))"

definition increment_active_requests :: "meter \<Rightarrow> logger \<Rightarrow> string \<Rightarrow> string \<Rightarrow> (site, unit) act" where
  "increment_active_requests meter global meth route =
     resolve meter global (mt_active_update (\<lambda>f. f((meth, route) := f (meth, route) + 1)))"

definition decrement_active_requests :: "meter \<Rightarrow> logger \<Rightarrow> string \<Rightarrow> string \<Rightarrow> (site, unit) act" where
  "decrement_active_requests meter global meth route =
     resolve meter global (mt_active_update (\<lambda>f. f((meth, route) := f (meth, route) - 1)))"

text \<open>The duration in nanoseconds, where the code converts it to seconds.\<close>

definition observe_latency :: "meter \<Rightarrow> logger \<Rightarrow> string \<Rightarrow> string \<Rightarrow> int \<Rightarrow> int \<Rightarrow> (site, unit) act" where
  "observe_latency meter global meth route status elapsed =
     resolve meter global (mt_duration_update (\<lambda>d. d @ [((meth, route, status), elapsed)]))"

end
