(* ===== verification/Middleware.thy ===== *)
theory Middleware
  imports Monitoring
begin

text \<open>
  The handlers a server wraps around its own (\<open>middleware/\<close>): tracing, logging, metrics, CORS, the
  content type and the cancellation of the request's context.
\<close>

section \<open>Handlers\<close>

text \<open>
  The interface \<open>http.ResponseWriter\<close>: setting and deleting a header of \<open>Header()\<close>, \<open>WriteHeader\<close>, and
  \<open>Write\<close>, which answers the number of bytes it took.
\<close>

record rw =
  rw_set_header :: "string \<Rightarrow> string \<Rightarrow> (site, unit) act"
  rw_del_header :: "string \<Rightarrow> (site, unit) act"
  rw_write_header :: "int \<Rightarrow> (site, unit) act"
  rw_write :: "string \<Rightarrow> (site, int) act"

text \<open>The server's own writer, on a connection that takes every byte.\<close>

definition base_rw :: rw where
  "base_rw =
     \<lparr>rw_set_header = (\<lambda>k v. on_srv (on_writer (set_header k v))),
      rw_del_header = (\<lambda>k. on_srv (on_writer (del_header k))),
      rw_write_header = (\<lambda>c. on_srv (on_writer (write_header c))),
      rw_write = (\<lambda>b. bind_act (on_srv (on_writer (write_bytes b))) (\<lambda>_. ret (int (length b))))\<rparr>"

text \<open>
  A request: its method, URL as a text and as paths, headers and context, with the cancel functions
  the context is derived from.
\<close>

record areq =
  ar_method :: string
  ar_url :: string
  ar_path :: string
  ar_raw_path :: string
  ar_header :: header
  ar_ctx :: go_ctx
  ar_cancels :: "nat list"

type_synonym handler = "rw \<Rightarrow> areq \<Rightarrow> (site, unit) act"

text \<open>\<open>defer\<close>: the second action runs when the first one returns or panics, and a panic goes on.\<close>

definition deferred :: "(site, 'a) act \<Rightarrow> (site, unit) act \<Rightarrow> (site, 'a) act" where
  "deferred m d s =
     (case m s of (r, s1) \<Rightarrow>
       (case d s1 of (Ret _, s2) \<Rightarrow> (r, s2) | (Panic p, s2) \<Rightarrow> (Panic p, s2)))"

section \<open>Recorders\<close>

definition new_recorder :: "(site, nat) act" where
  "new_recorder s =
     ret (length (st_recorders s)) (s\<lparr>st_recorders := st_recorders s @ [\<lparr>rec_status = 200, rec_size = 0\<rparr>]\<rparr>)"

definition record_status :: "nat \<Rightarrow> int \<Rightarrow> (site, unit) act" where
  "record_status i c s =
     ret () (s\<lparr>st_recorders := (st_recorders s)[i := (st_recorders s ! i)\<lparr>rec_status := c\<rparr>]\<rparr>)"

definition record_size :: "nat \<Rightarrow> int \<Rightarrow> (site, unit) act" where
  "record_size i n s =
     ret () (s\<lparr>st_recorders := (st_recorders s)[i := (st_recorders s ! i)
       \<lparr>rec_size := rec_size (st_recorders s ! i) + n\<rparr>]\<rparr>)"

text \<open>\<open>loggingResponseWriter\<close>: the status after the call it wraps, and the size.\<close>

definition logging_response_writer :: "nat \<Rightarrow> rw \<Rightarrow> rw" where
  "logging_response_writer i w =
     \<lparr>rw_set_header = rw_set_header w,
      rw_del_header = rw_del_header w,
      rw_write_header = (\<lambda>c. bind_act (rw_write_header w c) (\<lambda>_. record_status i c)),
      rw_write = (\<lambda>b. bind_act (rw_write w b) (\<lambda>n. bind_act (record_size i n) (\<lambda>_. ret n)))\<rparr>"

text \<open>\<open>statusRecorder\<close>: the status before the call it wraps.\<close>

definition status_recorder :: "nat \<Rightarrow> rw \<Rightarrow> rw" where
  "status_recorder i w =
     \<lparr>rw_set_header = rw_set_header w,
      rw_del_header = rw_del_header w,
      rw_write_header = (\<lambda>c. bind_act (record_status i c) (\<lambda>_. rw_write_header w c)),
      rw_write = rw_write w\<rparr>"

section \<open>Tracing\<close>

definition RequestIdHeaderKey :: string where "RequestIdHeaderKey = ''X-Request-ID''"
definition SessionIdHeaderKey :: string where "SessionIdHeaderKey = ''X-Session-ID''"

text \<open>
  The uuid package: how an id is written, what a text is read as, or the error, and the ids it makes
  up, one after the other.
\<close>

record uuid_lib =
  ul_string :: "uuid \<Rightarrow> string"
  ul_parse :: "string \<Rightarrow> gerror + uuid"
  ul_new :: "nat \<Rightarrow> uuid"

definition uuid_new :: "uuid_lib \<Rightarrow> (site, uuid) act" where
  "uuid_new ul s = ret (ul_new ul (st_uuids s)) (s\<lparr>st_uuids := Suc (st_uuids s)\<rparr>)"

definition with_ctx :: "(go_ctx \<Rightarrow> go_ctx) \<Rightarrow> areq \<Rightarrow> areq" where
  "with_ctx f r = r\<lparr>ar_ctx := f (ar_ctx r)\<rparr>"

text \<open>What both handlers do with an id: the response header, the logger and the request.\<close>

definition trace_request :: "uuid_lib \<Rightarrow> uuid \<Rightarrow> rw \<Rightarrow> logger \<Rightarrow> areq \<Rightarrow> (site, logger \<times> areq) act" where
  "trace_request ul u w l r =
     bind_act (rw_set_header w RequestIdHeaderKey (ul_string ul u)) (\<lambda>_.
     let l' = log_with l [LogField ''request_id'' (VStr (ul_string ul u))] in
     ret (l', with_ctx (\<lambda>c. set_request_id (request_set_logger c l') u) r))"

definition tracing :: "uuid_lib \<Rightarrow> handler \<Rightarrow> handler" where
  "tracing ul next w r =
     bind_act (request_get_logger (ar_ctx r)) (\<lambda>l.
     bind_act (uuid_new ul) (\<lambda>u.
     bind_act (trace_request ul u w l r) (\<lambda>(l', r').
     next w r')))"

definition header_hint :: "string \<Rightarrow> string" where
  "header_hint key = ''Please provide mandatory request header: '' @ key"

definition request_header_request_id :: "uuid_lib \<Rightarrow> areq \<Rightarrow> (world, gerror + uuid) act" where
  "request_header_request_id ul r =
     (case ul_parse ul (header_get (ar_header r) RequestIdHeaderKey) of
        Inr u \<Rightarrow> ret (Inr u)
      | Inl e \<Rightarrow>
          bind_act (propagate_as ''requestHeaderRequestId'' KindInvalidRequestError (Some e)
            ''missing mandatory request header'' [hint_opt (header_hint RequestIdHeaderKey)])
            (\<lambda>p. ret (Inl (case p of Some e' \<Rightarrow> e' | None \<Rightarrow> e))))"

definition request_header_session_id :: "areq \<Rightarrow> (world, gerror + string) act" where
  "request_header_session_id r =
     (let sid = header_get (ar_header r) SessionIdHeaderKey in
      if sid = [] then
        bind_act (new_error ''requestHeaderSessionId'' KindInvalidRequestError
          ''missing mandatory request header'' [hint_opt (header_hint SessionIdHeaderKey)])
          (\<lambda>e. ret (Inl e))
      else ret (Inr sid))"

definition log_header_error :: "logger \<Rightarrow> gerror \<Rightarrow> (site, unit) act" where
  "log_header_error l e = site_log l LErr ''Failed to propagate header'' [LogError (zap_error (Some e))]"

definition propagate_tracing :: "uuid_lib \<Rightarrow> handler \<Rightarrow> handler" where
  "propagate_tracing ul next w r =
     bind_act (request_get_logger (ar_ctx r)) (\<lambda>l.
     bind_act (on_srv (on_world (request_header_request_id ul r))) (\<lambda>x.
     bind_act
       (case x of
          Inl e \<Rightarrow> bind_act (log_header_error l e) (\<lambda>_. ret (l, r))
        | Inr u \<Rightarrow> trace_request ul u w l r) (\<lambda>(l1, r1).
     bind_act (on_srv (on_world (request_header_session_id r1))) (\<lambda>y.
     bind_act
       (case y of
          Inl e \<Rightarrow> bind_act (log_header_error l1 e) (\<lambda>_. ret r1)
        | Inr sid \<Rightarrow>
            bind_act (rw_set_header w SessionIdHeaderKey sid) (\<lambda>_.
            let l2 = log_with l1 [LogField ''session_id'' (VStr sid)] in
            ret (with_ctx (\<lambda>c. set_session_id (request_set_logger c l2) sid) r1)))
       (\<lambda>r2. next w r2)))))"

section \<open>Logging\<close>

text \<open>What is logged once the next handler has returned, unless the request is a health check.\<close>

definition log_response :: "logger \<Rightarrow> areq \<Rightarrow> int \<Rightarrow> nat \<Rightarrow> (site, unit) act" where
  "log_response l r start i s =
     (if ar_url r = ''/health'' then ret () s
      else
        let seen = st_recorders s ! i;
            l1 = log_with l [LogField ''response_status'' (VInt (rec_status seen)),
                   LogField ''response_time'' (VInt (st_clock s - start)),
                   LogField ''response_size'' (VInt (rec_size seen))]
        in site_log l1 LInfo (''['' @ int_str (rec_status seen) @ ''] '' @ ar_method r @ '' '' @ ar_url r) [] s)"

definition logging :: "logger \<Rightarrow> handler \<Rightarrow> handler" where
  "logging global next w r s =
     (let start = st_clock s;
          l = log_with global [LogField ''request_method'' (VStr (ar_method r)),
                LogField ''request_url'' (VStr (ar_url r))];
          r1 = with_ctx (\<lambda>c. request_set_logger c l) r
      in bind_act new_recorder (\<lambda>i.
         bind_act (site_log l LDebug (''Handling '' @ ar_method r @ '' '' @ ar_url r) []) (\<lambda>_.
         bind_act (next (logging_response_writer i w) r1) (\<lambda>_.
         log_response l r start i))) s)"

section \<open>Metrics\<close>

text \<open>
  What chi keeps in the context of a request it routes: the pattern found so far, and matching a
  method and a path again, which yields the pattern of the match.
\<close>

record route_context =
  rx_pattern :: string
  rx_match :: "string \<Rightarrow> string \<Rightarrow> string option"

definition get_route_pattern :: "(go_ctx \<Rightarrow> route_context option) \<Rightarrow> areq \<Rightarrow> string" where
  "get_route_pattern chi r =
     (case chi (ar_ctx r) of
        None \<Rightarrow> ''unknown''
      | Some rx \<Rightarrow>
          if rx_pattern rx \<noteq> [] then rx_pattern rx
          else
            (case rx_match rx (ar_method r) (if ar_raw_path r \<noteq> [] then ar_raw_path r else ar_path r) of
               None \<Rightarrow> ''unknown''
             | Some p \<Rightarrow> p))"

definition is_ignored_route :: "string \<Rightarrow> bool" where
  "is_ignored_route route \<longleftrightarrow> route = ''/health''"

definition monitor_latency :: "meter \<Rightarrow> logger \<Rightarrow> string \<Rightarrow> string \<Rightarrow> int \<Rightarrow> int \<Rightarrow> (site, unit) act" where
  "monitor_latency meter global meth route status start s =
     observe_latency meter global meth route status (st_clock s - start) s"

text \<open>The deferred function of the monitor.\<close>

definition monitor_after ::
  "meter \<Rightarrow> logger \<Rightarrow> string \<Rightarrow> string \<Rightarrow> nat \<Rightarrow> int \<Rightarrow> (site, unit) act" where
  "monitor_after meter global meth route i start =
     bind_act (decrement_active_requests meter global meth route) (\<lambda>_ s.
       let status = rec_status (st_recorders s ! i) in
       bind_act (increment_traffic meter global meth route status) (\<lambda>_.
       monitor_latency meter global meth route status start) s)"

definition monitored ::
  "meter \<Rightarrow> logger \<Rightarrow> string \<Rightarrow> string \<Rightarrow> nat \<Rightarrow> (site, unit) act \<Rightarrow> (site, unit) act" where
  "monitored meter global meth route i m s =
     (let start = st_clock s in deferred m (monitor_after meter global meth route i start) s)"

definition metrics_monitor ::
  "meter \<Rightarrow> logger \<Rightarrow> (go_ctx \<Rightarrow> route_context option) \<Rightarrow> handler \<Rightarrow> handler" where
  "metrics_monitor meter global chi next w r =
     bind_act new_recorder (\<lambda>i.
     let meth = ar_method r; route = get_route_pattern chi r; seen = status_recorder i w in
     if is_ignored_route route then next seen r
     else
       bind_act (increment_active_requests meter global meth route) (\<lambda>_.
         monitored meter global meth route i (next seen r)))"

section \<open>Headers and contexts\<close>

definition content_type_json :: "handler \<Rightarrow> handler" where
  "content_type_json next w r =
     bind_act (rw_set_header w ''Content-Type'' ''application/json'') (\<lambda>_. next w r)"

record cors_config =
  cr_hosts :: "string list"
  cr_methods :: "string list"
  cr_headers :: "string list"
  cr_exposed :: "string list"

definition cors_config_defaults :: cors_config where
  "cors_config_defaults =
     \<lparr>cr_hosts = [],
      cr_methods = [''POST'', ''GET'', ''OPTIONS'', ''PUT'', ''PATCH'', ''DELETE''],
      cr_headers = [''Accept'', ''Content-Type'', ''Content-Length'', ''Accept-Encoding'',
        ''X-CSRF-Token'', ''Authorization'', ''X-API-KEY''],
      cr_exposed = [''X-Request-Id'', ''X-Session-Id'']\<rparr>"

definition cors :: "cors_config \<Rightarrow> handler \<Rightarrow> handler" where
  "cors cfg next w r =
     bind_act (rw_set_header w ''Access-Control-Allow-Origin'' (join_with '', '' (cr_hosts cfg))) (\<lambda>_.
     bind_act (rw_set_header w ''Access-Control-Allow-Methods'' (join_with '', '' (cr_methods cfg))) (\<lambda>_.
     bind_act (rw_set_header w ''Access-Control-Allow-Headers'' (join_with '', '' (cr_headers cfg))) (\<lambda>_.
     bind_act (rw_set_header w ''Access-Control-Expose-Headers'' (join_with '', '' (cr_exposed cfg))) (\<lambda>_.
     if ar_method r = ''OPTIONS'' then ret () else next w r))))"

text \<open>Cancelling a context twice is the same as once.\<close>

definition new_context :: "(site, nat) act" where
  "new_context s = ret (st_contexts s) (s\<lparr>st_contexts := Suc (st_contexts s)\<rparr>)"

definition cancel_context :: "nat \<Rightarrow> (site, unit) act" where
  "cancel_context c s = ret () (s\<lparr>st_cancelled := insert c (st_cancelled s)\<rparr>)"

definition context_cancel :: "handler \<Rightarrow> handler" where
  "context_cancel next w r =
     bind_act new_context (\<lambda>c.
     deferred (next w (r\<lparr>ar_cancels := ar_cancels r @ [c]\<rparr>)) (cancel_context c))"

end
