(* ===== verification/Gauge.thy ===== *)
theory Gauge
  imports Middleware
begin

text \<open>
  The number of requests in flight: whatever the handlers do, and even when they panic, each
  middleware leaves the gauge of active requests as it found it.
\<close>

section \<open>Actions that leave the gauge alone\<close>

definition gauge_kept :: "site \<Rightarrow> site \<Rightarrow> bool" where
  "gauge_kept s t \<longleftrightarrow>
     mt_active (st_metrics t) = mt_active (st_metrics s)
   \<and> (\<forall>b. mt_built (st_metrics s) = Some b \<longrightarrow> mt_built (st_metrics t) = Some b)"

lemma gauge_kept_refl [simp]: "gauge_kept s s"
  by (simp add: gauge_kept_def)

lemma gauge_kept_trans: "gauge_kept s t \<Longrightarrow> gauge_kept t u \<Longrightarrow> gauge_kept s u"
  by (simp add: gauge_kept_def)

lemma gauge_kept_same: "st_metrics t = st_metrics s \<Longrightarrow> gauge_kept s t"
  by (simp add: gauge_kept_def)

definition keeps :: "(site, 'a) act \<Rightarrow> bool" where
  "keeps m \<longleftrightarrow> (\<forall>s. gauge_kept s (snd (m s)))"

named_theorems keeps_rules \<open>actions that leave the gauge of active requests as it was\<close>

lemma keepsI: "(\<And>s. gauge_kept s (snd (m s))) \<Longrightarrow> keeps m"
  by (simp add: keeps_def)

lemma keepsD: "keeps m \<Longrightarrow> m s = (x, t) \<Longrightarrow> gauge_kept s t"
  unfolding keeps_def by (metis snd_conv)

lemma keeps_ret [keeps_rules]: "keeps (ret x)"
  by (simp add: keeps_def ret_def)

lemma keeps_panic [keeps_rules]: "keeps (panic p)"
  by (simp add: keeps_def panic_def)

lemma keeps_bind [keeps_rules]:
  assumes "keeps m" and "\<And>x. keeps (f x)"
  shows "keeps (bind_act m f)"
proof (rule keepsI)
  fix s
  obtain x t where m: "m s = (x, t)" by fastforce
  then have k: "gauge_kept s t" using assms(1) by (rule keepsD [rotated])
  show "gauge_kept s (snd (bind_act m f s))"
  proof (cases x)
    case (Ret v)
    obtain y u where f: "f v t = (y, u)" by fastforce
    then have "gauge_kept t u" using assms(2) by (rule keepsD [rotated])
    then show ?thesis using m f k Ret by (auto simp: bind_act_def intro: gauge_kept_trans)
  qed (use m k in \<open>simp add: bind_act_def\<close>)
qed

lemma keeps_deferred [keeps_rules]:
  assumes "keeps m" and "keeps d"
  shows "keeps (deferred m d)"
proof (rule keepsI)
  fix s
  obtain x t where m: "m s = (x, t)" by fastforce
  obtain y u where d: "d t = (y, u)" by fastforce
  have "gauge_kept s u" using keepsD [OF assms(1) m] keepsD [OF assms(2) d] by (rule gauge_kept_trans)
  then show "gauge_kept s (snd (deferred m d s))" using m d by (simp add: deferred_def split: outcome.split)
qed

lemma keeps_on_srv [keeps_rules]: "keeps (on_srv m)"
  by (rule keepsI, rule gauge_kept_same) (simp add: on_srv_def split: prod.split)

lemma keeps_site_log [keeps_rules]: "keeps (site_log l lvl msg gs)"
  by (simp add: site_log_def keeps_on_srv)

lemma keeps_steps [keeps_rules]:
  "keeps (uuid_new ul)" "keeps new_recorder" "keeps (record_status i c)" "keeps (record_size i n)"
  "keeps new_context" "keeps (cancel_context k)"
  by (rule keepsI, rule gauge_kept_same,
      simp add: uuid_new_def new_recorder_def record_status_def record_size_def new_context_def
        cancel_context_def ret_def)+

lemma keeps_if [keeps_rules]: "keeps m \<Longrightarrow> keeps n \<Longrightarrow> keeps (if b then m else n)"
  by simp

lemma keeps_sum [keeps_rules]:
  "(\<And>a. keeps (f a)) \<Longrightarrow> (\<And>b. keeps (g b)) \<Longrightarrow> keeps (case x of Inl a \<Rightarrow> f a | Inr b \<Rightarrow> g b)"
  by (cases x) simp_all

lemma keeps_pair [keeps_rules]: "(\<And>a b. keeps (f a b)) \<Longrightarrow> keeps (case x of (a, b) \<Rightarrow> f a b)"
  by (cases x) simp

section \<open>Instruments\<close>

lemma build_instruments_metrics: "st_metrics (snd (build_instruments meter global s)) = st_metrics s"
proof -
  have "st_metrics (snd (bind_act (log_instrument_error global e n) (\<lambda>_. ret False) s)) = st_metrics s" for e n
    by (simp add: log_instrument_error_def site_log_def bind_act_def on_srv_def ret_def
        split: prod.split outcome.split)
  then show ?thesis by (simp add: build_instruments_def ret_def split: option.split)
qed

lemma get_instruments_built:
  assumes "get_instruments meter global s = (x, t)"
  shows "mt_active (st_metrics t) = mt_active (st_metrics s)"
    and "mt_requests (st_metrics t) = mt_requests (st_metrics s)"
    and "mt_duration (st_metrics t) = mt_duration (st_metrics s)"
    and "mt_built (st_metrics s) \<noteq> None \<Longrightarrow> t = s \<and> x = Ret (the (mt_built (st_metrics s)))"
    and "x = Ret b \<Longrightarrow> mt_built (st_metrics t) = Some b"
  using assms build_instruments_metrics [of meter global s]
  by (auto simp: get_instruments_def bind_act_def ret_def set_built_def
      split: option.splits prod.splits outcome.splits)

lemma resolve_built:
  "mt_built (st_metrics s) = Some b \<Longrightarrow>
   resolve meter global upd s = (Ret (), if b then s\<lparr>st_metrics := upd (st_metrics s)\<rparr> else s)"
  by (simp add: resolve_def get_instruments_def bind_act_def ret_def)

lemma resolve_first:
  assumes "resolve meter global upd s = (x, t)"
  shows "\<exists>u y. get_instruments meter global s = (y, u)
    \<and> (case y of
         Ret b \<Rightarrow> x = Ret () \<and> mt_built (st_metrics u) = Some b
           \<and> t = (if b then u\<lparr>st_metrics := upd (st_metrics u)\<rparr> else u)
       | Panic p \<Rightarrow> x = Panic p \<and> t = u)"
  using assms get_instruments_built(5) [of meter global s]
  by (cases "get_instruments meter global s")
    (auto simp: resolve_def bind_act_def ret_def split: outcome.splits if_splits)

lemma keeps_resolve:
  assumes "\<And>m. mt_active (upd m) = mt_active m" and "\<And>m. mt_built (upd m) = mt_built m"
  shows "keeps (resolve meter global upd)"
proof (rule keepsI)
  fix s
  obtain x t where r: "resolve meter global upd s = (x, t)" by fastforce
  from resolve_first [OF this] obtain u y where g: "get_instruments meter global s = (y, u)"
    and t: "case y of
         Ret b \<Rightarrow> x = Ret () \<and> mt_built (st_metrics u) = Some b
           \<and> t = (if b then u\<lparr>st_metrics := upd (st_metrics u)\<rparr> else u)
       | Panic p \<Rightarrow> x = Panic p \<and> t = u" by blast
  have "gauge_kept s u"
    using get_instruments_built(1) [OF g] get_instruments_built(4) [OF g]
    unfolding gauge_kept_def by (metis option.distinct(1))
  moreover have "gauge_kept u t" using t assms by (auto simp: gauge_kept_def split: outcome.splits if_splits)
  ultimately show "gauge_kept s (snd (resolve meter global upd s))" using r by (simp add: gauge_kept_trans)
qed

lemma keeps_recording [keeps_rules]:
  "keeps (increment_traffic meter global meth route status)"
  "keeps (monitor_latency meter global meth route status start)"
proof -
  show "keeps (increment_traffic meter global meth route status)"
    unfolding increment_traffic_def by (rule keeps_resolve) simp_all
  have "keeps (observe_latency meter global meth route status d)" for d
    unfolding observe_latency_def by (rule keeps_resolve) simp_all
  then show "keeps (monitor_latency meter global meth route status start)"
    unfolding keeps_def monitor_latency_def by blast
qed

section \<open>Middlewares\<close>

definition rw_ok :: "rw \<Rightarrow> bool" where
  "rw_ok w \<longleftrightarrow> (\<forall>k v. keeps (rw_set_header w k v)) \<and> (\<forall>k. keeps (rw_del_header w k))
     \<and> (\<forall>c. keeps (rw_write_header w c)) \<and> (\<forall>b. keeps (rw_write w b))"

definition balanced :: "handler \<Rightarrow> bool" where
  "balanced h \<longleftrightarrow> (\<forall>w r. rw_ok w \<longrightarrow> keeps (h w r))"

lemma balancedD: "balanced h \<Longrightarrow> rw_ok w \<Longrightarrow> keeps (h w r)"
  by (simp add: balanced_def)

lemma rw_okD:
  "rw_ok w \<Longrightarrow> keeps (rw_set_header w k v)" "rw_ok w \<Longrightarrow> keeps (rw_write_header w c)"
  "rw_ok w \<Longrightarrow> keeps (rw_write w b)" "rw_ok w \<Longrightarrow> keeps (rw_del_header w k)"
  by (simp_all add: rw_ok_def)

lemma rw_ok_base: "rw_ok base_rw"
  by (auto simp: rw_ok_def base_rw_def intro!: keeps_rules)

lemma rw_ok_recorders: "rw_ok w \<Longrightarrow> rw_ok (status_recorder i w)" "rw_ok w \<Longrightarrow> rw_ok (logging_response_writer i w)"
  by (auto simp: rw_ok_def status_recorder_def logging_response_writer_def intro!: keeps_rules)

text \<open>The contract of a middleware: around a balanced handler it is one.\<close>

locale gauge_keeper =
  fixes mw :: "handler \<Rightarrow> handler"
  assumes keeps_balance: "balanced h \<Longrightarrow> balanced (mw h)"
begin

lemma twice: "balanced h \<Longrightarrow> balanced (mw (mw h))"
  by (intro keeps_balance)

end

lemma keeps_trace_request: "rw_ok w \<Longrightarrow> keeps (trace_request ul u w l r)"
  by (auto simp: trace_request_def Let_def intro!: keeps_rules rw_okD)

lemma keeps_get_logger: "keeps (request_get_logger c)"
  by (auto simp: request_get_logger_def get_logger_from_context_def intro!: keeps_rules
      split: option.split ctx_val.split)

interpretation tracing: gauge_keeper "tracing ul" for ul
  by unfold_locales (auto simp: balanced_def tracing_def intro!: keeps_rules keeps_get_logger keeps_trace_request)

interpretation propagate_tracing: gauge_keeper "propagate_tracing ul" for ul
  by unfold_locales (auto simp: balanced_def propagate_tracing_def log_header_error_def Let_def
      intro!: keeps_rules keeps_get_logger keeps_trace_request rw_okD)

interpretation content_type_json: gauge_keeper content_type_json
  by unfold_locales (auto simp: balanced_def content_type_json_def intro!: keeps_rules rw_okD)

interpretation cors: gauge_keeper "cors cfg" for cfg
  by unfold_locales (auto simp: balanced_def cors_def intro!: keeps_rules rw_okD)

interpretation context_cancel: gauge_keeper context_cancel
  by unfold_locales (auto simp: balanced_def context_cancel_def intro!: keeps_rules)

lemma keeps_log_response [keeps_rules]: "keeps (log_response l r start i)"
  by (rule keepsI) (simp add: log_response_def ret_def Let_def keeps_site_log [unfolded keeps_def, rule_format])

lemma keeps_logging:
  assumes "balanced h" and "rw_ok w"
  shows "keeps (logging global h w r)"
proof (rule keepsI)
  fix s
  have "keeps (bind_act new_recorder (\<lambda>i.
      bind_act (site_log l LDebug msg []) (\<lambda>_.
      bind_act (h (logging_response_writer i w) q) (\<lambda>_. log_response l r start i))))" for l msg q start
    by (intro keeps_rules balancedD [OF assms(1)] rw_ok_recorders assms(2))
  then show "gauge_kept s (snd (logging global h w r s))" by (simp add: logging_def Let_def keeps_def)
qed

interpretation logging: gauge_keeper "logging global" for global
  by unfold_locales (simp add: balanced_def keeps_logging)

section \<open>The metrics of a request\<close>

text \<open>What the deferred function of the monitor records, once the instruments are built.\<close>

definition request_done :: "string \<Rightarrow> string \<Rightarrow> int \<Rightarrow> int \<Rightarrow> metrics \<Rightarrow> metrics" where
  "request_done meth route status elapsed m =
     m\<lparr>mt_requests := (mt_requests m)((meth, route, status) := Suc (mt_requests m (meth, route, status))),
       mt_active := (mt_active m)((meth, route) := mt_active m (meth, route) - 1),
       mt_duration := mt_duration m @ [((meth, route, status), elapsed)]\<rparr>"

lemma monitor_after_run:
  assumes "mt_built (st_metrics s) = Some b"
  shows "monitor_after meter global meth route i start s = (Ret (),
    if b then s\<lparr>st_metrics := request_done meth route (rec_status (st_recorders s ! i)) (st_clock s - start)
      (st_metrics s)\<rparr> else s)"
  using assms
  by (simp add: monitor_after_def decrement_active_requests_def increment_traffic_def monitor_latency_def
      observe_latency_def resolve_built bind_act_def request_done_def Let_def)

lemma monitored_keeps:
  assumes "keeps m" and s: "mt_built (st_metrics s) = Some b"
    and run: "monitored meter global meth route i m s = (x, t)"
  shows "mt_active (st_metrics t) =
      (if b then (mt_active (st_metrics s))((meth, route) := mt_active (st_metrics s) (meth, route) - 1)
       else mt_active (st_metrics s))"
    and "mt_built (st_metrics t) = Some b"
proof -
  obtain y u where m: "m s = (y, u)" by fastforce
  with assms(1) have k: "gauge_kept s u" by (rule keepsD)
  then have u: "mt_built (st_metrics u) = Some b" using s by (simp add: gauge_kept_def)
  have "t = (if b then u\<lparr>st_metrics := request_done meth route (rec_status (st_recorders u ! i))
      (st_clock u - st_clock s) (st_metrics u)\<rparr> else u)"
    using run m by (simp add: monitored_def deferred_def monitor_after_run [OF u])
  then show "mt_active (st_metrics t) =
      (if b then (mt_active (st_metrics s))((meth, route) := mt_active (st_metrics s) (meth, route) - 1)
       else mt_active (st_metrics s))"
    and "mt_built (st_metrics t) = Some b"
    using k u by (simp_all add: gauge_kept_def request_done_def)
qed

lemma keeps_monitored:
  assumes "keeps m"
  shows "keeps (bind_act (increment_active_requests meter global meth route)
    (\<lambda>_. monitored meter global meth route i m))"
proof (rule keepsI)
  fix s
  let ?m = "bind_act (increment_active_requests meter global meth route) (\<lambda>_. monitored meter global meth route i m)"
  obtain x s1 where inc: "increment_active_requests meter global meth route s = (x, s1)" by fastforce
  from resolve_first [OF this [unfolded increment_active_requests_def]]
  obtain u y where g: "get_instruments meter global s = (y, u)"
    and y: "case y of
         Ret b \<Rightarrow> x = Ret () \<and> mt_built (st_metrics u) = Some b
           \<and> s1 = (if b then u\<lparr>st_metrics := mt_active_update (\<lambda>f. f((meth, route) := f (meth, route) + 1))
               (st_metrics u)\<rparr> else u)
       | Panic p \<Rightarrow> x = Panic p \<and> s1 = u" by blast
  have su: "gauge_kept s u"
    using get_instruments_built(1) [OF g] get_instruments_built(4) [OF g]
    unfolding gauge_kept_def by (metis option.distinct(1))
  show "gauge_kept s (snd (?m s))"
  proof (cases y)
    case (Panic p)
    then show ?thesis using y inc su by (simp add: bind_act_def)
  next
    case (Ret b)
    obtain z t where run: "monitored meter global meth route i m s1 = (z, t)" by fastforce
    have s1: "mt_built (st_metrics s1) = Some b" using y Ret by simp
    have "gauge_kept u t"
      using monitored_keeps [OF assms s1 run] y Ret by (auto simp: gauge_kept_def)
    then show ?thesis using gauge_kept_trans [OF su] inc run y Ret by (simp add: bind_act_def)
  qed
qed

interpretation metrics_monitor: gauge_keeper "metrics_monitor meter global chi" for meter global chi
  by unfold_locales (auto simp: balanced_def metrics_monitor_def Let_def
      intro!: keeps_rules keeps_monitored rw_ok_recorders)

end
