(* ===== verification/Middleware_Props.thy ===== *)
theory Middleware_Props
  imports Gauge Send
begin

text \<open>
  What the middlewares promise: a balanced gauge under any stack of them, what the monitor records
  of a request, which status and size the recorders see, and that the ids of a request cross from
  one service to the next.
\<close>

section \<open>Stacks of middlewares\<close>

inductive stacked :: "handler \<Rightarrow> handler \<Rightarrow> bool" for h where
  own: "stacked h h"
| under_tracing: "stacked h k \<Longrightarrow> stacked h (tracing ul k)"
| under_propagate_tracing: "stacked h k \<Longrightarrow> stacked h (propagate_tracing ul k)"
| under_logging: "stacked h k \<Longrightarrow> stacked h (logging global k)"
| under_metrics: "stacked h k \<Longrightarrow> stacked h (metrics_monitor meter global chi k)"
| under_cors: "stacked h k \<Longrightarrow> stacked h (cors cfg k)"
| under_content_type: "stacked h k \<Longrightarrow> stacked h (content_type_json k)"
| under_context_cancel: "stacked h k \<Longrightarrow> stacked h (context_cancel k)"

lemma stacked_balanced: "stacked h k \<Longrightarrow> balanced h \<Longrightarrow> balanced k"
  by (induction rule: stacked.induct)
    (auto intro: tracing.keeps_balance propagate_tracing.keeps_balance logging.keeps_balance
      metrics_monitor.keeps_balance cors.keeps_balance content_type_json.keeps_balance
      context_cancel.keeps_balance)

text \<open>A handler, as the calls it makes on its writer, and whether it panics in the end.\<close>

datatype rw_call = SetsHeader string string | WritesHeader int | Writes string

fun do_call :: "rw \<Rightarrow> rw_call \<Rightarrow> (site, unit) act" where
  "do_call w (SetsHeader k v) = rw_set_header w k v"
| "do_call w (WritesHeader c) = rw_write_header w c"
| "do_call w (Writes b) = bind_act (rw_write w b) (\<lambda>_. ret ())"

fun play :: "rw_call list \<Rightarrow> handler" where
  "play [] w r = ret ()"
| "play (c # cs) w r = bind_act (do_call w c) (\<lambda>_. play cs w r)"

lemma balanced_play: "balanced (play cs)"
  unfolding balanced_def
proof (intro allI impI)
  fix w r assume w: "rw_ok w"
  show "keeps (play cs w r)"
  proof (induction cs)
    case (Cons c cs)
    then show ?case by (cases c) (auto intro: keeps_rules rw_okD [OF w])
  qed (auto intro: keeps_rules)
qed

lemma balanced_panicking: "balanced (\<lambda>w r. bind_act (play cs w r) (\<lambda>_. panic p))"
  using balanced_play [of cs] by (auto simp: balanced_def intro: keeps_rules)

text \<open>
  C11: The gauge of active requests is balanced. Any stack of the package's middlewares, however
  often each occurs, around a handler that leaves the gauge as it found it, leaves every entry of
  the gauge as it was before the request: when the request returns and when it panics, when the
  request is ignored, and when the instruments could not be built.
\<close>

theorem gauge_balanced:
  assumes "stacked h k" and "balanced h" and "k base_rw r s = (x, t)"
  shows "mt_active (st_metrics t) = mt_active (st_metrics s)"
  using keepsD [OF balancedD [OF stacked_balanced [OF assms(1,2)] rw_ok_base] assms(3)]
  by (simp add: gauge_kept_def)

section \<open>The monitor\<close>

text \<open>
  What the monitor records. Once the instruments exist, a request on a route other than /health
  runs the next handler with the gauge of its method and route one higher, ends as that handler
  ends, returning or panicking, with everything but the metrics as the handler left it, and records
  one request and one duration under the status the recorder saw last, and the gauge one lower.
\<close>

theorem metrics_monitor_accounts:
  assumes "mt_built (st_metrics s) = Some True" and "\<not> is_ignored_route (get_route_pattern chi r)"
    and "h (status_recorder (length (st_recorders s)) w) r
      (s\<lparr>st_recorders := st_recorders s @ [\<lparr>rec_status = 200, rec_size = 0\<rparr>],
         st_metrics := mt_active_update (\<lambda>f. f((ar_method r, get_route_pattern chi r) :=
           f (ar_method r, get_route_pattern chi r) + 1)) (st_metrics s)\<rparr>) = (x, t)"
    and "mt_built (st_metrics t) = Some True"
  shows "metrics_monitor meter global chi h w r s =
    (x, t\<lparr>st_metrics := request_done (ar_method r) (get_route_pattern chi r)
       (rec_status (st_recorders t ! length (st_recorders s))) (st_clock t - st_clock s) (st_metrics t)\<rparr>)"
  using assms
  by (simp add: metrics_monitor_def new_recorder_def bind_act_def ret_def Let_def
      increment_active_requests_def resolve_built monitored_def deferred_def monitor_after_run)

section \<open>What the recorders see\<close>

fun last_status :: "int \<Rightarrow> rw_call list \<Rightarrow> int" where
  "last_status c [] = c"
| "last_status c (WritesHeader d # cs) = last_status d cs"
| "last_status c (_ # cs) = last_status c cs"

definition final_code :: "int \<Rightarrow> bool" where
  "final_code c \<longleftrightarrow> c = 101 \<or> 200 \<le> c"

fun delivered :: "rw_call list \<Rightarrow> int" where
  "delivered [] = 200"
| "delivered (SetsHeader k v # cs) = delivered cs"
| "delivered (WritesHeader c # cs) = (if final_code c then c else delivered cs)"
| "delivered (Writes b # cs) = 200"

fun written :: "rw_call list \<Rightarrow> string list" where
  "written [] = []"
| "written (Writes b # cs) = b # written cs"
| "written (_ # cs) = written cs"

fun valid_call :: "rw_call \<Rightarrow> bool" where
  "valid_call (WritesHeader c) = (100 \<le> c \<and> c \<le> 999)"
| "valid_call _ = True"

fun no_status :: "rw_call list \<Rightarrow> bool" where
  "no_status [] = True"
| "no_status (WritesHeader c # cs) = False"
| "no_status (_ # cs) = no_status cs"

text \<open>At most one status, a final one, and before the first byte.\<close>

fun one_status :: "rw_call list \<Rightarrow> bool" where
  "one_status [] = True"
| "one_status (SetsHeader k v # cs) = one_status cs"
| "one_status (WritesHeader c # cs) = (final_code c \<and> no_status cs)"
| "one_status (Writes b # cs) = no_status cs"

lemma last_status_none: "no_status cs \<Longrightarrow> last_status c cs = c"
  by (induction cs rule: no_status.induct) simp_all

lemma one_status_seen: "one_status cs \<Longrightarrow> last_status 200 cs = delivered cs"
  by (induction cs rule: one_status.induct) (simp_all add: last_status_none)

text \<open>What a writer ends up with, given what was sent before.\<close>

definition sent_after :: "(int \<times> header) option \<Rightarrow> rw_call list \<Rightarrow> int" where
  "sent_after sent cs = (case sent of Some (c, _) \<Rightarrow> c | None \<Rightarrow> delivered cs)"

definition site_writer :: "site \<Rightarrow> writer" where
  "site_writer s = sv_writer (st_srv s)"

text \<open>One call, as a recorder sees it and as the writer behind it does.\<close>

definition recorded_step :: "nat \<Rightarrow> bool \<Rightarrow> site \<Rightarrow> site \<Rightarrow> rw_call \<Rightarrow> bool" where
  "recorded_step i sized s t c \<longleftrightarrow>
     length (st_recorders t) = length (st_recorders s)
   \<and> rec_status (st_recorders t ! i) = last_status (rec_status (st_recorders s ! i)) [c]
   \<and> rec_size (st_recorders t ! i) =
       rec_size (st_recorders s ! i) + (if sized then int (length (concat (written [c]))) else 0)
   \<and> (\<forall>cs. sent_after (wr_sent (site_writer t)) cs = sent_after (wr_sent (site_writer s)) (c # cs))
   \<and> wr_body (site_writer t) = wr_body (site_writer s) @ written [c]"

text \<open>The contract of a recorder around the server's writer.\<close>

locale recording =
  fixes w :: "nat \<Rightarrow> rw" and sized :: bool
  assumes call: "i < length (st_recorders s) \<Longrightarrow> valid_call c \<Longrightarrow>
    \<exists>t. do_call (w i) c s = (Ret (), t) \<and> recorded_step i sized s t c"
begin

lemma plays:
  assumes "i < length (st_recorders s)" and "list_all valid_call cs"
  shows "\<exists>t. play cs (w i) r s = (Ret (), t)
    \<and> rec_status (st_recorders t ! i) = last_status (rec_status (st_recorders s ! i)) cs
    \<and> rec_size (st_recorders t ! i) =
        rec_size (st_recorders s ! i) + (if sized then int (length (concat (written cs))) else 0)
    \<and> sent_after (wr_sent (site_writer t)) [] = sent_after (wr_sent (site_writer s)) cs
    \<and> wr_body (site_writer t) = wr_body (site_writer s) @ written cs"
  using assms
proof (induction cs arbitrary: s)
  case Nil
  then show ?case by (simp add: ret_def)
next
  case (Cons c cs)
  then obtain u where u: "do_call (w i) c s = (Ret (), u)" "recorded_step i sized s u c"
    using call [of i s c] by auto
  have "i < length (st_recorders u)" "list_all valid_call cs"
    using Cons.prems u(2) by (simp_all add: recorded_step_def)
  from Cons.IH [OF this] u show ?case
    by (cases c) (auto simp: bind_act_def recorded_step_def)
qed

end

text \<open>The calls on the server's own writer, as updates of it.\<close>

definition put_writer :: "(writer \<Rightarrow> writer) \<Rightarrow> site \<Rightarrow> site" where
  "put_writer f s = s\<lparr>st_srv := (st_srv s)\<lparr>sv_writer := f (sv_writer (st_srv s))\<rparr>\<rparr>"

definition send_status :: "int \<Rightarrow> writer \<Rightarrow> writer" where
  "send_status c w = (if wr_sent w = None \<and> final_code c then w\<lparr>wr_sent := Some (c, wr_header w)\<rparr> else w)"

lemma put_writer_simps [simp]:
  "st_recorders (put_writer f s) = st_recorders s" "site_writer (put_writer f s) = f (site_writer s)"
  by (simp_all add: put_writer_def site_writer_def)

lemma sent_after_status: "sent_after (wr_sent (send_status c w)) cs = sent_after (wr_sent w) (WritesHeader c # cs)"
  by (cases "wr_sent w") (auto simp: send_status_def sent_after_def)

lemma send_status_body [simp]: "wr_body (send_status c w) = wr_body w"
  by (simp add: send_status_def)

lemma sent_after_write: "sent_after x (WritesHeader 200 # cs) = sent_after x (Writes b # cs)"
  by (simp add: sent_after_def final_code_def split: option.split)

lemma sent_after_header: "sent_after x (SetsHeader k v # cs) = sent_after x cs"
  by (simp add: sent_after_def split: option.split)

lemma base_calls:
  "rw_set_header base_rw k v s = (Ret (), put_writer (wr_header_update (header_set k v)) s)"
  "100 \<le> c \<Longrightarrow> c \<le> 999 \<Longrightarrow> rw_write_header base_rw c s = (Ret (), put_writer (send_status c) s)"
  "rw_write base_rw b s = (Ret (int (length b)),
     put_writer (\<lambda>w. wr_body_update (\<lambda>bs. bs @ [b]) (send_status 200 w)) s)"
  by (auto simp: base_rw_def on_srv_def on_writer_def set_header_def write_header_def write_bytes_def bind_act_def
      ret_def put_writer_def send_status_def final_code_def Let_def)

interpretation status_recording: recording "\<lambda>i. status_recorder i base_rw" False
proof unfold_locales
  fix i c and s :: site assume i: "i < length (st_recorders s)" and c: "valid_call c"
  show "\<exists>t. do_call (status_recorder i base_rw) c s = (Ret (), t) \<and> recorded_step i False s t c"
  proof (cases c)
    case (WritesHeader d)
    then show ?thesis
      using i c by (simp add: status_recorder_def record_status_def base_calls bind_act_def ret_def recorded_step_def
        sent_after_status site_writer_def put_writer_def)
  qed (simp_all add: status_recorder_def base_calls bind_act_def ret_def recorded_step_def sent_after_header
      sent_after_status sent_after_write [symmetric])
qed

interpretation logging_recording: recording "\<lambda>i. logging_response_writer i base_rw" True
proof unfold_locales
  fix i c and s :: site assume i: "i < length (st_recorders s)" and c: "valid_call c"
  have writer: "site_writer (s\<lparr>st_recorders := x\<rparr>) = site_writer s" for s :: site and x
    by (simp add: site_writer_def)
  show "\<exists>t. do_call (logging_response_writer i base_rw) c s = (Ret (), t) \<and> recorded_step i True s t c"
    by (cases c; use i c in \<open>simp add: logging_response_writer_def record_status_def record_size_def base_calls
      bind_act_def ret_def recorded_step_def sent_after_status sent_after_header sent_after_write [symmetric] writer\<close>)
qed


section \<open>Ids across services\<close>

lemma get_ids:
  "ctx_value c RequestIdKey = Some (CVUuid u) \<Longrightarrow> get_request_id_from_context c w = (Ret (Inr u), w)"
  "ctx_value c SessionIdKey = Some (CVStr sid) \<Longrightarrow> get_session_id_from_context c w = (Ret (Inr sid), w)"
  "ctx_value c RequestIdKey = Some (CVUuid u) \<Longrightarrow> get_request_id c w = (Ret (Inr u), w)"
  "ctx_value c SessionIdKey = Some (CVStr sid) \<Longrightarrow> get_session_id c w = (Ret (Inr sid), w)"
  by (simp_all add: get_request_id_from_context_def get_session_id_from_context_def get_request_id_def
      get_session_id_def bind_act_def propagate_left_def ret_def)

text \<open>What the injected headers are.\<close>

lemma inject_tracing_ids:
  assumes "ctx_value ctx RequestIdKey = Some (CVUuid u)" and "ctx_value ctx SessionIdKey = Some (CVStr sid)"
    and "header_get (ho_header h) ''X-Request-ID'' = []" and "header_get (ho_header h) ''X-Session-ID'' = []"
  shows "inject_tracing env ctx h w = (Ret (h\<lparr>ho_header :=
    header_set ''X-Request-ID'' (env_uuid_string env u) (header_set ''X-Session-ID'' sid (ho_header h))\<rparr>), w)"
  using assms(3,4) get_ids(1) [OF assms(1)] get_ids(2) [OF assms(2)]
  by (simp add: inject_tracing_def bind_act_def ret_def)

lemma propagate_tracing_ids:
  assumes "ctx_value (ar_ctx r) LoggerKey = Some (CVLogger l)"
    and "ul_parse ul (header_get (ar_header r) ''X-Request-ID'') = Inr u"
    and "header_get (ar_header r) ''X-Session-ID'' = sid" and "sid \<noteq> []"
  shows "\<exists>t q. propagate_tracing ul next base_rw r s = next base_rw q t
    \<and> ctx_value (ar_ctx q) RequestIdKey = Some (CVUuid u) \<and> ctx_value (ar_ctx q) SessionIdKey = Some (CVStr sid)
    \<and> ctx_value (ar_ctx q) LoggerKey = Some (CVLogger (log_with (log_with l
        [LogField ''request_id'' (VStr (ul_string ul u))]) [LogField ''session_id'' (VStr sid)]))
    \<and> header_get (wr_header (site_writer t)) ''X-Request-ID'' = ul_string ul u
    \<and> header_get (wr_header (site_writer t)) ''X-Session-ID'' = sid"
proof -
  let ?l1 = "log_with l [LogField ''request_id'' (VStr (ul_string ul u))]"
  let ?l2 = "log_with ?l1 [LogField ''session_id'' (VStr sid)]"
  let ?c = "set_request_id (request_set_logger (ar_ctx r) ?l1) u"
  let ?q = "r\<lparr>ar_ctx := set_session_id (request_set_logger ?c ?l2) sid\<rparr>"
  let ?t = "put_writer (wr_header_update (header_set ''X-Session-ID'' sid))
    (put_writer (wr_header_update (header_set ''X-Request-ID'' (ul_string ul u))) s)"
  have "propagate_tracing ul next base_rw r s = next base_rw ?q ?t"
    using assms
    by (simp add: propagate_tracing_def request_get_logger_def get_logger_from_context_def bind_act_def ret_def
        request_header_request_id_def request_header_session_id_def RequestIdHeaderKey_def SessionIdHeaderKey_def
        trace_request_def with_ctx_def base_calls on_srv_def on_world_def Let_def)
  then show ?thesis
    by (intro exI [of _ ?t] exI [of _ ?q])
      (simp add: set_request_id_def set_context_request_id_def set_session_id_def set_context_session_id_def
        request_set_logger_def set_context_logger_def)
qed

text \<open>
  C18: The ids of a request cross services. A client whose context holds a request id and a session
  id sends both, unless the caller set the headers; a server whose PropagateTracing receives these
  headers calls the next handler with a request from which GetRequestId and GetSessionId read the
  same two ids, puts them on its response, and on the logger the handler finds in the context.
  The uuid package reads back what it writes.
\<close>

theorem request_ids_cross_services:
  assumes "ctx_value ctx RequestIdKey = Some (CVUuid u)" and "ctx_value ctx SessionIdKey = Some (CVStr sid)"
    and "header_get (ho_header h) ''X-Request-ID'' = []" and "header_get (ho_header h) ''X-Session-ID'' = []"
    and "sid \<noteq> []" and "ul_parse ul (env_uuid_string env u) = Inr u"
    and "ctx_value (ar_ctx r) LoggerKey = Some (CVLogger l)"
  shows "\<exists>h'. inject_tracing env ctx h w = (Ret h', w)
    \<and> (header_get (ar_header r) ''X-Request-ID'' = header_get (ho_header h') ''X-Request-ID''
       \<and> header_get (ar_header r) ''X-Session-ID'' = header_get (ho_header h') ''X-Session-ID'' \<longrightarrow>
      (\<exists>t q. propagate_tracing ul next base_rw r s = next base_rw q t
        \<and> get_request_id (ar_ctx q) v = (Ret (Inr u), v) \<and> get_session_id (ar_ctx q) v = (Ret (Inr sid), v)
        \<and> request_get_logger (ar_ctx q) = ret (log_with (log_with l
            [LogField ''request_id'' (VStr (ul_string ul u))]) [LogField ''session_id'' (VStr sid)])
        \<and> header_get (wr_header (site_writer t)) ''X-Request-ID'' = ul_string ul u
        \<and> header_get (wr_header (site_writer t)) ''X-Session-ID'' = sid))"
proof (rule exI, rule conjI [OF inject_tracing_ids [OF assms(1-4)]], intro impI)
  let ?h = "header_set ''X-Request-ID'' (env_uuid_string env u) (header_set ''X-Session-ID'' sid (ho_header h))"
  assume "header_get (ar_header r) ''X-Request-ID'' = header_get (ho_header (h\<lparr>ho_header := ?h\<rparr>)) ''X-Request-ID''
    \<and> header_get (ar_header r) ''X-Session-ID'' = header_get (ho_header (h\<lparr>ho_header := ?h\<rparr>)) ''X-Session-ID''"
  then have "ul_parse ul (header_get (ar_header r) ''X-Request-ID'') = Inr u"
    and "header_get (ar_header r) ''X-Session-ID'' = sid"
    using assms(6) by simp_all
  from propagate_tracing_ids [OF assms(7) this assms(5), of "next" s] show "\<exists>t q.
      propagate_tracing ul next base_rw r s = next base_rw q t
      \<and> get_request_id (ar_ctx q) v = (Ret (Inr u), v) \<and> get_session_id (ar_ctx q) v = (Ret (Inr sid), v)
      \<and> request_get_logger (ar_ctx q) = ret (log_with (log_with l
          [LogField ''request_id'' (VStr (ul_string ul u))]) [LogField ''session_id'' (VStr sid)])
      \<and> header_get (wr_header (site_writer t)) ''X-Request-ID'' = ul_string ul u
      \<and> header_get (wr_header (site_writer t)) ''X-Session-ID'' = sid"
    using get_ids(3,4) by (fastforce simp: request_get_logger_def get_logger_from_context_def)
qed

section \<open>Witnesses\<close>

definition example_site :: site where
  "example_site =
     \<lparr>st_srv = \<lparr>sv_world = init_world empty_registry (\<lambda>_. []), sv_writer = new_writer, sv_log = []\<rparr>, st_clock = 0,
      st_uuids = 0, st_recorders = [], st_contexts = 0, st_cancelled = {},
      st_metrics = \<lparr>mt_built = Some True, mt_requests = (\<lambda>_. 0), mt_active = (\<lambda>_. 0), mt_duration = []\<rparr>\<rparr>"

definition example_request :: areq where
  "example_request = \<lparr>ar_method = ''GET'', ar_url = ''/x'', ar_path = ''/x'', ar_raw_path = [],
     ar_header = no_header, ar_ctx = background, ar_cancels = []\<rparr>"

definition root_logger :: logger where
  "root_logger = Logger ''root'' []"

text \<open>A handler that sends 500 and then panics, under logging and the monitor.\<close>

theorem gauge_balanced_witness:
  "\<exists>x t. logging root_logger (metrics_monitor (\<lambda>_. None) root_logger (\<lambda>_. None)
      (\<lambda>w r. bind_act (play [WritesHeader 500] w r) (\<lambda>_. panic ''boom''))) base_rw example_request example_site = (x, t)
    \<and> mt_active (st_metrics t) (''GET'', ''unknown'') = 0"
proof -
  let ?h = "\<lambda>w r. bind_act (play [WritesHeader 500] w r) (\<lambda>_. panic ''boom'')"
  let ?k = "logging root_logger (metrics_monitor (\<lambda>_. None) root_logger (\<lambda>_. None) ?h)"
  have st: "stacked ?h ?k" by (intro under_logging under_metrics own)
  obtain x t where run: "?k base_rw example_request example_site = (x, t)" by fastforce
  have "mt_active (st_metrics t) = mt_active (st_metrics example_site)"
    by (rule gauge_balanced [OF st balanced_panicking run])
  then show ?thesis using run by (auto simp: example_site_def)
qed

text \<open>A handler that sends 404.\<close>

theorem metrics_monitor_accounts_witness:
  "\<exists>t. metrics_monitor (\<lambda>_. None) root_logger (\<lambda>_. None) (play [WritesHeader 404]) base_rw example_request
      example_site = (Ret (), t)
    \<and> mt_requests (st_metrics t) (''GET'', ''unknown'', 404) = 1 \<and> mt_active (st_metrics t) (''GET'', ''unknown'') = 0"
proof -
  let ?s = "example_site\<lparr>st_recorders := st_recorders example_site @ [\<lparr>rec_status = 200, rec_size = 0\<rparr>],
    st_metrics := mt_active_update (\<lambda>f. f((ar_method example_request, get_route_pattern (\<lambda>_. None) example_request) :=
      f (ar_method example_request, get_route_pattern (\<lambda>_. None) example_request) + 1)) (st_metrics example_site)\<rparr>"
  have route: "get_route_pattern (\<lambda>_. None) q = ''unknown''" for q by (simp add: get_route_pattern_def)
  obtain t where t: "play [WritesHeader 404] (status_recorder (length (st_recorders example_site)) base_rw)
      example_request ?s = (Ret (), t)"
    and seen: "mt_built (st_metrics t) = Some True" "mt_active (st_metrics t) (''GET'', ''unknown'') = 1"
      "mt_requests (st_metrics t) = (\<lambda>_. 0)" "rec_status (st_recorders t ! 0) = 404"
    by (simp add: status_recorder_def record_status_def bind_act_def ret_def base_calls route put_writer_def)
      (simp add: example_site_def example_request_def)
  have "metrics_monitor (\<lambda>_. None) root_logger (\<lambda>_. None) (play [WritesHeader 404]) base_rw example_request
      example_site = (Ret (), t\<lparr>st_metrics := request_done (ar_method example_request)
        (get_route_pattern (\<lambda>_. None) example_request) (rec_status (st_recorders t ! length (st_recorders example_site)))
        (st_clock t - st_clock example_site) (st_metrics t)\<rparr>)"
    by (rule metrics_monitor_accounts [where s = example_site and chi = "\<lambda>_. None" and r = example_request
        and h = "play [WritesHeader 404]" and w = base_rw, OF _ _ t seen(1)]) (simp_all add: example_site_def is_ignored_route_def route)
  then show ?thesis using seen by (simp add: request_done_def route example_request_def example_site_def)
qed


text \<open>A request id written as its bytes and a session id, from a client to a server.\<close>

definition plain_uuids :: uuid_lib where
  "plain_uuids = \<lparr>ul_string = (\<lambda>u. case u of Uuid b \<Rightarrow> b), ul_parse = (\<lambda>b. Inr (Uuid b)), ul_new = (\<lambda>_. uuid_Nil)\<rparr>"

definition quiet_env :: send_env where
  "quiet_env = \<lparr>env_do = (\<lambda>_ _. (None, None)), env_ctx = (\<lambda>_. None), env_sleep = (\<lambda>_ _. None), env_until = (\<lambda>_. None),
     env_now = 0, env_rnd = (\<lambda>_. 0), env_new_request = (\<lambda>_ _. None), env_multipart = (\<lambda>_. ([], [])),
     env_uuid_string = (\<lambda>u. case u of Uuid b \<Rightarrow> b)\<rparr>"

definition traced_request :: areq where
  "traced_request = example_request\<lparr>
     ar_header := header_set ''X-Request-ID'' ''7'' (header_set ''X-Session-ID'' ''s'' no_header),
     ar_ctx := set_context_logger background root_logger\<rparr>"

theorem request_ids_cross_services_witness:
  "\<exists>t q. propagate_tracing plain_uuids (play []) base_rw traced_request example_site = play [] base_rw q t
    \<and> fst (get_request_id (ar_ctx q) (init_world empty_registry (\<lambda>_. []))) = Ret (Inr (Uuid ''7''))
    \<and> fst (get_session_id (ar_ctx q) (init_world empty_registry (\<lambda>_. []))) = Ret (Inr ''s'')"
proof -
  let ?c = "set_context_session_id (set_context_request_id background (Uuid ''7'')) ''s''"
  let ?o = "\<lparr>ho_method = ''GET'', ho_url = [], ho_header = no_header, ho_body = None, ho_length = 0, ho_get_body = False\<rparr>"
  have c: "ctx_value ?c RequestIdKey = Some (CVUuid (Uuid ''7''))" "ctx_value ?c SessionIdKey = Some (CVStr ''s'')"
    by (simp_all add: set_context_session_id_def set_context_request_id_def)
  have o: "header_get (ho_header ?o) ''X-Request-ID'' = []" "header_get (ho_header ?o) ''X-Session-ID'' = []" by simp_all
  have u: "ul_parse plain_uuids (env_uuid_string quiet_env (Uuid ''7'')) = Inr (Uuid ''7'')"
    by (simp add: plain_uuids_def quiet_env_def)
  have l: "ctx_value (ar_ctx traced_request) LoggerKey = Some (CVLogger root_logger)"
    by (simp add: traced_request_def set_context_logger_def)
  have s: "''s'' \<noteq> []" by simp
  have "header_get (ar_header traced_request) ''X-Request-ID'' = ''7''"
    "header_get (ar_header traced_request) ''X-Session-ID'' = ''s''"
    by (simp_all add: traced_request_def)
  moreover have "env_uuid_string quiet_env (Uuid ''7'') = ''7''" by (simp add: quiet_env_def)
  ultimately show ?thesis
    using request_ids_cross_services [OF c o s u l, of "init_world empty_registry (\<lambda>_. [])" "play []" example_site
      "init_world empty_registry (\<lambda>_. [])"]
      inject_tracing_ids [OF c o, of quiet_env "init_world empty_registry (\<lambda>_. [])"]
    by fastforce
qed

end
