(* ===== verification/Serving.thy ===== *)
theory Serving
  imports Middleware_Props Rest_Props
begin

text \<open>
  A request served by the whole stack: the handler of a route (\<open>rest/route.go\<close>, \<open>rest/response.go\<close>) on
  the writer the middlewares hand it, and what the client, the metrics and the log say of an error it
  returns.
\<close>

section \<open>Answering on any writer\<close>

text \<open>\<open>http.Error\<close>, \<open>Must\<close> and the handler of a route, over the interface of a response writer.\<close>

definition http_error_on :: "rw \<Rightarrow> string \<Rightarrow> int \<Rightarrow> (site, unit) act" where
  "http_error_on w msg code =
     bind_act (rw_del_header w ''Content-Length'') (\<lambda>_.
     bind_act (rw_set_header w ''Content-Type'' ''text/plain; charset=utf-8'') (\<lambda>_.
     bind_act (rw_set_header w ''X-Content-Type-Options'' ''nosniff'') (\<lambda>_.
     bind_act (rw_write_header w code) (\<lambda>_.
     bind_act (rw_write w (msg @ [CHR 0x0A])) (\<lambda>_. ret ())))))"

definition must_on :: "(world \<Rightarrow> payload \<Rightarrow> string option) \<Rightarrow> response \<Rightarrow> rw \<Rightarrow> (site, unit) act" where
  "must_on json r w =
     bind_act (rw_set_header w ''Content-Type'' ''application/json'') (\<lambda>_.
     bind_act (rw_write_header w (rs_status r)) (\<lambda>_ s.
       (case json (sv_world (st_srv s)) (rs_payload r) of
          Some b \<Rightarrow> bind_act (rw_write w b) (\<lambda>_. ret ())
        | None \<Rightarrow> http_error_on w fallback_body 500) s))"

definition route_on ::
  "(world \<Rightarrow> payload \<Rightarrow> string option) \<Rightarrow> response \<Rightarrow> (rw \<Rightarrow> areq \<Rightarrow> (site, gerror option) act) \<Rightarrow> handler" where
  "route_on json unknown fn w r =
     bind_act (fn w r) (\<lambda>err.
       case err of
         None \<Rightarrow> ret ()
       | Some e \<Rightarrow>
           bind_act (request_get_logger (ar_ctx r)) (\<lambda>l.
           bind_act
             (if is_kind (Some e) KindUserError
              then site_log l LWarn ''[USER ERROR]'' [LogError (zap_error (Some e))]
              else site_log l LErr ''[SYSTEM ERROR]'' [LogError (zap_error (Some e))]) (\<lambda>_.
           bind_act (on_srv (on_world (write_error unknown (Some e)))) (\<lambda>a. must_on json a w))))"

text \<open>Registering the routes of an application, with the router's \<open>MethodFunc\<close>, which may panic, as argument.\<close>

fun register_app ::
  "('r \<Rightarrow> string \<Rightarrow> string \<Rightarrow> handler \<Rightarrow> 'r outcome) \<Rightarrow> (world \<Rightarrow> payload \<Rightarrow> string option) \<Rightarrow> response
    \<Rightarrow> route list \<Rightarrow> 'r \<Rightarrow> 'r outcome" where
  "register_app method_func json unknown [] r = Ret r"
| "register_app method_func json unknown (rt # rts) r =
     (case method_func r (rt_method rt) (rt_pattern rt) (route_on json unknown (\<lambda>w q. on_srv (rt_fn rt (ar_ctx q)))) of
        Panic p \<Rightarrow> Panic p
      | Ret r' \<Rightarrow> register_app method_func json unknown rts r')"

lemma register_app_table:
  "register_app (\<lambda>t m p h. Ret (t((m, p) \<mapsto> h))) json unknown rts t =
     Ret (t ++ map_of (rev (map (\<lambda>rt. ((rt_method rt, rt_pattern rt),
       route_on json unknown (\<lambda>w q. on_srv (rt_fn rt (ar_ctx q))))) rts)))"
  by (induction rts arbitrary: t) simp_all

text \<open>On the server's own writer this is the handler without middlewares.\<close>

lemma on_srv_bind: "on_srv (bind_act m f) = bind_act (on_srv m) (\<lambda>x. on_srv (f x))"
  by (rule ext) (simp add: on_srv_def bind_act_def split: prod.split outcome.split)

lemma on_writer_bind: "on_writer (bind_act m f) = bind_act (on_writer m) (\<lambda>x. on_writer (f x))"
  by (rule ext) (simp add: on_writer_def bind_act_def split: prod.split outcome.split)

lemma on_srv_ret [simp]: "on_srv (ret x) = ret x"
  by (rule ext) (simp add: on_srv_def ret_def)

lemma bind_ret_right [simp]: "bind_act m ret = m"
  by (rule ext) (simp add: bind_act_def ret_def split: prod.split outcome.split)

lemma write_base: "bind_act (rw_write base_rw b) (\<lambda>_. ret ()) = on_srv (on_writer (write_bytes b))"
  by (simp add: base_rw_def bind_act_assoc)

lemma http_error_base: "http_error_on base_rw msg code = on_srv (on_writer (http_error msg code))"
  unfolding http_error_on_def http_error_def on_srv_bind on_writer_bind write_base by (simp add: base_rw_def)

lemma must_base: "must_on json r base_rw = on_srv (response_must json r)"
proof (rule ext)
  fix s
  have body: "(case json (sv_world (st_srv s)) (rs_payload r) of
        Some b \<Rightarrow> bind_act (rw_write base_rw b) (\<lambda>_. ret ()) | None \<Rightarrow> http_error_on base_rw fallback_body 500) s
      = on_srv (\<lambda>s. (case json (sv_world s) (rs_payload r) of
        Some b \<Rightarrow> on_writer (write_bytes b) | None \<Rightarrow> on_writer (http_error fallback_body 500)) s) s" for s
    by (simp only: write_base http_error_base) (simp add: on_srv_def split: option.split)
  show "must_on json r base_rw s = on_srv (response_must json r) s"
    unfolding must_on_def response_must_def on_srv_bind by (simp add: body) (simp add: base_rw_def)
qed

text \<open>
  The handler of a route over the interface of a writer, on the server's own writer, is the
  handler of the route: for every function, request and state, the same answer, errors and log.
\<close>

theorem route_refines:
  "route_on json unknown (\<lambda>w q. on_srv (rt_fn rt (ar_ctx q))) base_rw r = on_srv (route_handler json unknown rt (ar_ctx r))"
proof -
  have logger: "on_srv (get_logger_from_context c) = request_get_logger c" for c
    by (rule ext) (simp add: request_get_logger_def get_logger_from_context_def on_srv_def ret_def panic_def
        split: option.split ctx_val.split)
  show ?thesis
    unfolding route_on_def route_handler_def on_srv_bind
    by (rule arg_cong [where f = "bind_act _"], rule ext)
      (simp add: on_srv_bind logger must_base site_log_def if_distrib [of on_srv] cong: if_cong split: option.split)
qed

section \<open>Under both recorders\<close>

text \<open>A site that differs from another in its writer and its recorders.\<close>

definition answered :: "writer \<Rightarrow> recorder list \<Rightarrow> site \<Rightarrow> site" where
  "answered v rs s = s\<lparr>st_srv := (st_srv s)\<lparr>sv_writer := v\<rparr>, st_recorders := rs\<rparr>"

definition marked :: "nat \<Rightarrow> nat \<Rightarrow> int \<Rightarrow> int \<Rightarrow> recorder list \<Rightarrow> recorder list" where
  "marked i j c n rs = rs[j := \<lparr>rec_status = c, rec_size = rec_size (rs ! j)\<rparr>, i := \<lparr>rec_status = c, rec_size = rec_size (rs ! i) + n\<rparr>]"

definition grown :: "nat \<Rightarrow> int \<Rightarrow> recorder list \<Rightarrow> recorder list" where
  "grown i n rs = rs[i := \<lparr>rec_status = rec_status (rs ! i), rec_size = rec_size (rs ! i) + n\<rparr>]"

lemma answered_self: "answered (site_writer s) (st_recorders s) s = s"
  by (simp add: answered_def site_writer_def)

lemma answered_simps [simp]:
  "site_writer (answered v rs s) = v" "st_recorders (answered v rs s) = rs"
  "sv_world (st_srv (answered v rs s)) = sv_world (st_srv s)" "sv_log (st_srv (answered v rs s)) = sv_log (st_srv s)"
  "st_metrics (answered v rs s) = st_metrics s" "st_clock (answered v rs s) = st_clock s"
  "answered v rs (answered v' rs' s) = answered v rs s"
  "put_writer f (answered v rs s) = answered (f v) rs s"
  by (simp_all add: answered_def site_writer_def put_writer_def)

lemma marked_again:
  assumes "i < length rs" and "j < length rs" and "i \<noteq> j"
  shows "marked i j c m (marked i j d n rs) = marked i j c (n + m) rs"
    and "grown i m (marked i j d n rs) = marked i j d (n + m) rs"
    and "length (marked i j d n rs) = length rs"
  using assms by (simp_all add: marked_def grown_def list_update_swap [of j i] add.assoc)

lemma recorder_updates:
  "(r::recorder)\<lparr>rec_status := c\<rparr> = \<lparr>rec_status = c, rec_size = rec_size r\<rparr>"
  "r\<lparr>rec_size := n\<rparr> = \<lparr>rec_status = rec_status r, rec_size = n\<rparr>"
  by (cases r; simp)+

definition both :: "nat \<Rightarrow> nat \<Rightarrow> rw" where
  "both i j = status_recorder j (logging_response_writer i base_rw)"

lemma record_answered:
  "record_status i c (answered v rs s) = (Ret (), answered v (rs[i := \<lparr>rec_status = c, rec_size = rec_size (rs ! i)\<rparr>]) s)"
  "record_size i n (answered v rs s) = (Ret (), answered v (grown i n rs) s)"
  by (simp_all add: record_status_def record_size_def ret_def answered_def recorder_updates grown_def)

lemma both_calls:
  "rw_set_header (both i j) k x (answered v rs s) = (Ret (), answered (wr_header_update (header_set k x) v) rs s)"
  "rw_del_header (both i j) k (answered v rs s) = (Ret (), answered (wr_header_update (\<lambda>h. h(canonical_key k := [])) v) rs s)"
  "i \<noteq> j \<Longrightarrow> 100 \<le> c \<Longrightarrow> c \<le> 999 \<Longrightarrow> rw_write_header (both i j) c (answered v rs s)
    = (Ret (), answered (send_status c v) (marked i j c 0 rs) s)"
  "rw_write (both i j) b (answered v rs s) = (Ret (int (length b)),
     answered (wr_body_update (\<lambda>bs. bs @ [b]) (send_status 200 v)) (grown i (int (length b)) rs) s)"
proof -
  have del: "rw_del_header base_rw k s = (Ret (), put_writer (wr_header_update (\<lambda>h. h(canonical_key k := []))) s)" for s
    by (simp add: base_rw_def on_srv_def on_writer_def del_header_def ret_def put_writer_def)
  show "rw_set_header (both i j) k x (answered v rs s) = (Ret (), answered (wr_header_update (header_set k x) v) rs s)"
    "rw_del_header (both i j) k (answered v rs s) = (Ret (), answered (wr_header_update (\<lambda>h. h(canonical_key k := [])) v) rs s)"
    "rw_write (both i j) b (answered v rs s) = (Ret (int (length b)),
     answered (wr_body_update (\<lambda>bs. bs @ [b]) (send_status 200 v)) (grown i (int (length b)) rs) s)"
    by (simp_all add: both_def status_recorder_def logging_response_writer_def base_calls del bind_act_def ret_def
        record_answered)
  show "rw_write_header (both i j) c (answered v rs s) = (Ret (), answered (send_status c v) (marked i j c 0 rs) s)"
    if "i \<noteq> j" "100 \<le> c" "c \<le> 999"
    using that by (simp add: both_def status_recorder_def logging_response_writer_def base_calls bind_act_def
        record_answered marked_def)
qed

text \<open>
  What is recorded of an answer: its status, or 500 when its payload cannot be encoded, because
  \<open>http.Error\<close> passes a second status that the client never sees.
\<close>

definition recorded_status :: "(world \<Rightarrow> payload \<Rightarrow> string option) \<Rightarrow> world \<Rightarrow> response \<Rightarrow> int" where
  "recorded_status json w a = (if json w (rs_payload a) = None then 500 else rs_status a)"

lemma must_on_both:
  assumes ij: "i < length rs" "j < length rs" "i \<noteq> j"
    and new: "wr_sent v = None" and st: "200 \<le> rs_status a" "rs_status a \<le> 999"
  shows "\<exists>v'. must_on json a (both i j) (answered v rs s) =
      (Ret (), answered v' (marked i j (recorded_status json (sv_world (st_srv s)) a)
        (int (length (body_sent json (sv_world (st_srv s)) (rs_payload a)))) rs) s)
    \<and> wr_sent v' = Some (rs_status a, header_set ''Content-Type'' ''application/json'' (wr_header v))
    \<and> wr_body v' = wr_body v @ [body_sent json (sv_world (st_srv s)) (rs_payload a)]"
proof -
  let ?w = "sv_world (st_srv s)" and ?h = "header_set ''Content-Type'' ''application/json'' (wr_header v)"
  let ?v = "v\<lparr>wr_header := ?h, wr_sent := Some (rs_status a, ?h)\<rparr>" and ?rs = "marked i j (rs_status a) 0 rs"
  have "send_status (rs_status a) (wr_header_update (header_set ''Content-Type'' ''application/json'') v) = ?v"
    using new st by (cases v) (simp add: send_status_def final_code_def)
  then have pre: "must_on json a (both i j) (answered v rs s) =
      (case json ?w (rs_payload a) of
         Some b \<Rightarrow> bind_act (rw_write (both i j) b) (\<lambda>_. ret ())
       | None \<Rightarrow> http_error_on (both i j) fallback_body 500) (answered ?v ?rs s)"
    using st ij by (simp add: must_on_def bind_act_def both_calls)
  show ?thesis
  proof (cases "json ?w (rs_payload a)")
    case (Some b)
    let ?u = "wr_body_update (\<lambda>bs. bs @ [b]) ?v"
    have "must_on json a (both i j) (answered v rs s) = (Ret (), answered ?u (marked i j (rs_status a) (int (length b)) rs) s)"
      unfolding pre using ij Some by (simp add: both_calls bind_act_def ret_def send_status_def marked_again)
    then show ?thesis using Some by (intro exI [of _ ?u]) (simp add: recorded_status_def body_sent_def)
  next
    case None
    define f where "f = header_set ''X-Content-Type-Options'' ''nosniff''
      \<circ> (header_set ''Content-Type'' ''text/plain; charset=utf-8'' \<circ> (\<lambda>h. h(canonical_key ''Content-Length'' := [])))"
    let ?u = "wr_body_update (\<lambda>bs. bs @ [fallback_body @ [CHR 0x0A]]) (wr_header_update f ?v)"
    have "must_on json a (both i j) (answered v rs s)
        = (Ret (), answered ?u (marked i j 500 (int (length (fallback_body @ [CHR 0x0A]))) rs) s)"
      unfolding pre using ij None
      by (simp add: http_error_on_def both_calls bind_act_def ret_def send_status_def marked_again f_def comp_def)
    then show ?thesis using None by (intro exI [of _ ?u]) (simp add: recorded_status_def body_sent_def)
  qed
qed

section \<open>An error, as everyone sees it\<close>

text \<open>The stack the documentation of the package recommends, in its order.\<close>

definition recommended ::
  "logger \<Rightarrow> uuid_lib \<Rightarrow> meter \<Rightarrow> (go_ctx \<Rightarrow> route_context option) \<Rightarrow> cors_config \<Rightarrow> handler \<Rightarrow> handler" where
  "recommended global ul meter chi cfg h =
     context_cancel (logging global (tracing ul (metrics_monitor meter global chi (content_type_json (cors cfg h)))))"

text \<open>chi's context lives under a key of its own.\<close>

definition own_key :: "(go_ctx \<Rightarrow> route_context option) \<Rightarrow> bool" where
  "own_key chi \<longleftrightarrow> (\<forall>c k v. k \<in> {LoggerKey, RequestIdKey} \<longrightarrow> chi (with_value c k v) = chi c)"

text \<open>
  A route function that reports an error: whatever context and writer it gets, it leaves the writer
  alone, changes the heap and the clock, and returns the error.
\<close>

definition reports ::
  "(rw \<Rightarrow> areq \<Rightarrow> (site, gerror option) act) \<Rightarrow> areq \<Rightarrow> world \<Rightarrow> gerror \<Rightarrow> world \<Rightarrow> int \<Rightarrow> bool" where
  "reports fn r w e w1 now \<longleftrightarrow>
     (\<forall>x c ks u. sv_world (st_srv u) = w \<longrightarrow>
        fn x (r\<lparr>ar_cancels := ks, ar_ctx := c\<rparr>) u = (Ret (Some e), u\<lparr>st_clock := now, st_srv := (st_srv u)\<lparr>sv_world := w1\<rparr>\<rparr>))"

definition error_record :: "logger \<Rightarrow> gerror \<Rightarrow> log_level \<times> string \<times> log_field list" where
  "error_record l e =
     (case l of Logger n fs \<Rightarrow>
        if is_kind (Some e) KindUserError then (LWarn, ''[USER ERROR]'', fs @ [LogError (zap_error (Some e))])
        else (LErr, ''[SYSTEM ERROR]'', fs @ [LogError (zap_error (Some e))]))"

definition reported :: "log_level \<times> string \<times> log_field list \<Rightarrow> world \<Rightarrow> int \<Rightarrow> site \<Rightarrow> site" where
  "reported x w now s = s\<lparr>st_clock := now, st_srv := (st_srv s)\<lparr>sv_log := sv_log (st_srv s) @ [x], sv_world := w\<rparr>\<rparr>"

lemma reported_simps [simp]:
  "site_writer (reported x w now s) = site_writer s" "st_recorders (reported x w now s) = st_recorders s"
  "sv_world (st_srv (reported x w now s)) = w" "sv_log (st_srv (reported x w now s)) = sv_log (st_srv s) @ [x]"
  "st_metrics (reported x w now s) = st_metrics s" "st_clock (reported x w now s) = now"
  by (simp_all add: reported_def site_writer_def)

lemma route_on_both:
  assumes fn: "fn (both i j) q s = (Ret (Some e), s\<lparr>st_clock := now, st_srv := (st_srv s)\<lparr>sv_world := w1\<rparr>\<rparr>)"
    and err: "as_errort e = Some (ErrorT k m c o' a)" and log: "ctx_value (ar_ctx q) LoggerKey = Some (CVLogger l)"
    and dto: "protect_error_dto (ErrorT k m c o' a) w1 = (Ret (Some d), w2)"
    and ij: "i < length (st_recorders s)" "j < length (st_recorders s)" "i \<noteq> j"
    and new: "wr_sent (site_writer s) = None" and st: "200 \<le> status_code k" "status_code k \<le> 999"
  shows "\<exists>v. route_on json unknown fn (both i j) q s = (Ret (), answered v
      (marked i j (recorded_status json w2 (write_response (status_code k) (PDTO (Some d))))
        (int (length (body_sent json w2 (PDTO (Some d))))) (st_recorders s)) (reported (error_record l e) w2 now s))
    \<and> wr_sent v = Some (status_code k, header_set ''Content-Type'' ''application/json'' (wr_header (site_writer s)))
    \<and> wr_body v = wr_body (site_writer s) @ [body_sent json w2 (PDTO (Some d))]"
proof -
  let ?r = "write_response (status_code k) (PDTO (Some d))" and ?t = "reported (error_record l e) w2 now s"
  have we: "write_error unknown (Some e) w1 = (Ret ?r, w2)"
    using err dto by (simp add: write_error_def bind_act_def ret_def error_status_code_def)
  have "route_on json unknown fn (both i j) q s = must_on json ?r (both i j) ?t"
    using fn log we
    by (cases l) (simp add: route_on_def bind_act_def request_get_logger_def get_logger_from_context_def ret_def
        site_log_def on_srv_def on_world_def error_record_def reported_def)
  moreover have "?t = answered (site_writer s) (st_recorders s) ?t" using answered_self [of ?t] by simp
  ultimately have run: "route_on json unknown fn (both i j) q s
      = must_on json ?r (both i j) (answered (site_writer s) (st_recorders s) ?t)" by simp
  show ?thesis
    unfolding run
    using must_on_both [where a = ?r and s = ?t and json = json, OF ij new] st
    by (simp add: write_response_def)
qed

text \<open>The middlewares inside the recorders only set headers.\<close>

definition json_headers :: "cors_config \<Rightarrow> header \<Rightarrow> header" where
  "json_headers cfg h =
     header_set ''Access-Control-Expose-Headers'' (join_with '', '' (cr_exposed cfg))
     (header_set ''Access-Control-Allow-Headers'' (join_with '', '' (cr_headers cfg))
     (header_set ''Access-Control-Allow-Methods'' (join_with '', '' (cr_methods cfg))
     (header_set ''Access-Control-Allow-Origin'' (join_with '', '' (cr_hosts cfg))
     (header_set ''Content-Type'' ''application/json'' h))))"

lemma cors_keys:
  "canonical_key ''Access-Control-Expose-Headers'' = ''Access-Control-Expose-Headers''"
  "canonical_key ''Access-Control-Allow-Headers'' = ''Access-Control-Allow-Headers''"
  "canonical_key ''Access-Control-Allow-Methods'' = ''Access-Control-Allow-Methods''"
  "canonical_key ''Access-Control-Allow-Origin'' = ''Access-Control-Allow-Origin''"
  by code_simp+

lemma headers_then:
  assumes "ar_method r \<noteq> ''OPTIONS''"
  shows "content_type_json (cors cfg h) (both i j) r (answered v rs s)
    = h (both i j) r (answered (wr_header_update (json_headers cfg) v) rs s)"
proof -
  have "wr_header_update (json_headers cfg) v =
      wr_header_update (header_set ''Access-Control-Expose-Headers'' (join_with '', '' (cr_exposed cfg)))
      (wr_header_update (header_set ''Access-Control-Allow-Headers'' (join_with '', '' (cr_headers cfg)))
      (wr_header_update (header_set ''Access-Control-Allow-Methods'' (join_with '', '' (cr_methods cfg)))
      (wr_header_update (header_set ''Access-Control-Allow-Origin'' (join_with '', '' (cr_hosts cfg)))
      (wr_header_update (header_set ''Content-Type'' ''application/json'') v))))"
    by (cases v) (simp add: json_headers_def)
  then show ?thesis
    using assms by (simp add: content_type_json_def cors_def bind_act_def both_calls)
qed

text \<open>What one request adds to the counters, and that it is no longer in flight.\<close>

definition fresh_recorder :: recorder where
  "fresh_recorder = \<lparr>rec_status = 200, rec_size = 0\<rparr>"

lemma marked_fresh:
  assumes "i = length xs" and "j = Suc i"
  shows "marked i j c n (xs @ [fresh_recorder, fresh_recorder]) = xs @ [\<lparr>rec_status = c, rec_size = n\<rparr>, \<lparr>rec_status = c, rec_size = 0\<rparr>]"
  using assms by (simp add: marked_def fresh_recorder_def list_update_append nth_append)

definition in_flight :: "string \<Rightarrow> string \<Rightarrow> site \<Rightarrow> site" where
  "in_flight meth route s = s\<lparr>st_metrics := mt_active_update (\<lambda>f. f((meth, route) := f (meth, route) + 1)) (st_metrics s)\<rparr>"

definition traced :: "uuid_lib \<Rightarrow> logger \<Rightarrow> areq \<Rightarrow> uuid \<Rightarrow> nat \<Rightarrow> areq" where
  "traced ul l r u c = r\<lparr>ar_cancels := ar_cancels r @ [c], ar_ctx := set_request_id
     (request_set_logger (request_set_logger (ar_ctx r) l) (log_with l [LogField ''request_id'' (VStr (ul_string ul u))])) u\<rparr>"

lemma traced_fields [simp]:
  "ar_method (traced ul l r u c) = ar_method r" "ar_url (traced ul l r u c) = ar_url r"
  "ar_path (traced ul l r u c) = ar_path r" "ar_raw_path (traced ul l r u c) = ar_raw_path r"
  "ctx_value (ar_ctx (traced ul l r u c)) LoggerKey =
    Some (CVLogger (log_with l [LogField ''request_id'' (VStr (ul_string ul u))]))"
  by (simp_all add: traced_def set_request_id_def set_context_request_id_def request_set_logger_def set_context_logger_def)

lemma traced_route: "own_key chi \<Longrightarrow> get_route_pattern chi (traced ul l r u c) = get_route_pattern chi r"
proof -
  assume "own_key chi"
  then have "chi (ar_ctx (traced ul l r u c)) = chi (ar_ctx r)"
    by (simp add: own_key_def traced_def set_request_id_def set_context_request_id_def request_set_logger_def
        set_context_logger_def)
  then show "get_route_pattern chi (traced ul l r u c) = get_route_pattern chi r"
    unfolding get_route_pattern_def by (simp only: traced_fields)
qed

definition request_logger :: "logger \<Rightarrow> areq \<Rightarrow> logger" where
  "request_logger global r =
     log_with global [LogField ''request_method'' (VStr (ar_method r)), LogField ''request_url'' (VStr (ar_url r))]"

definition started :: "logger \<Rightarrow> uuid_lib \<Rightarrow> areq \<Rightarrow> site \<Rightarrow> site" where
  "started global ul r s =
     (case request_logger global r of Logger n fs \<Rightarrow>
        s\<lparr>st_contexts := Suc (st_contexts s), st_uuids := Suc (st_uuids s),
          st_recorders := st_recorders s @ [fresh_recorder],
          st_srv := (st_srv s)\<lparr>sv_log := sv_log (st_srv s) @ [(LDebug, ''Handling '' @ ar_method r @ '' '' @ ar_url r, fs)],
            sv_writer := wr_header_update (header_set RequestIdHeaderKey (ul_string ul (ul_new ul (st_uuids s)))) (site_writer s)\<rparr>\<rparr>)"

lemma recommended_runs:
  "recommended global ul meter chi cfg h base_rw r s =
    deferred (\<lambda>_. bind_act (metrics_monitor meter global chi (content_type_json (cors cfg h))
        (logging_response_writer (length (st_recorders s)) base_rw)
        (traced ul (request_logger global r) r (ul_new ul (st_uuids s)) (st_contexts s)))
      (\<lambda>_. log_response (request_logger global r) (r\<lparr>ar_cancels := ar_cancels r @ [st_contexts s]\<rparr>) (st_clock s) (length (st_recorders s)))
      (started global ul r s)) (cancel_context (st_contexts s)) s"
proof -
  let ?i = "length (st_recorders s)" and ?l = "request_logger global r" and ?u = "ul_new ul (st_uuids s)"
  let ?r = "r\<lparr>ar_cancels := ar_cancels r @ [st_contexts s]\<rparr>"
  let ?next = "metrics_monitor meter global chi (content_type_json (cors cfg h))"
  obtain n fs where l: "?l = Logger n fs" by (cases ?l)
  define s1 where "s1 = s\<lparr>st_contexts := Suc (st_contexts s)\<rparr>"
  define s2 where "s2 = s1\<lparr>st_recorders := st_recorders s @ [fresh_recorder],
    st_srv := (st_srv s)\<lparr>sv_log := sv_log (st_srv s) @ [(LDebug, ''Handling '' @ ar_method r @ '' '' @ ar_url r, fs)]\<rparr>\<rparr>"
  have tr: "tracing ul ?next (logging_response_writer ?i base_rw) (with_ctx (\<lambda>c. request_set_logger c ?l) ?r) s2
      = ?next (logging_response_writer ?i base_rw) (traced ul ?l r ?u (st_contexts s)) (started global ul r s)"
  proof -
    have "put_writer (wr_header_update (header_set RequestIdHeaderKey (ul_string ul ?u))) (s2\<lparr>st_uuids := Suc (st_uuids s2)\<rparr>)
        = started global ul r s"
      by (simp add: put_writer_def started_def l s1_def s2_def site_writer_def)
    then show ?thesis
      by (simp add: tracing_def request_get_logger_def get_logger_from_context_def with_ctx_def request_set_logger_def
        set_context_logger_def bind_act_def ret_def uuid_new_def trace_request_def Let_def logging_response_writer_def
        base_calls traced_def) (simp add: s2_def s1_def)
  qed
  have "logging global (tracing ul ?next) base_rw ?r s1
      = bind_act (tracing ul ?next (logging_response_writer ?i base_rw) (with_ctx (\<lambda>c. request_set_logger c ?l) ?r))
          (\<lambda>_. log_response ?l ?r (st_clock s) ?i) s2"
    using l by (simp add: logging_def request_logger_def Let_def bind_act_def new_recorder_def ret_def site_log_def on_srv_def
        s1_def s2_def fresh_recorder_def)
  also have "\<dots> = bind_act (?next (logging_response_writer ?i base_rw) (traced ul ?l r ?u (st_contexts s)))
          (\<lambda>_. log_response ?l ?r (st_clock s) ?i) (started global ul r s)"
    using tr by (simp add: bind_act_def)
  finally show ?thesis
    by (simp add: recommended_def context_cancel_def new_context_def bind_act_def ret_def deferred_def s1_def)
qed

lemma started_simps [simp]:
  "site_writer (started global ul r s) =
    wr_header_update (header_set RequestIdHeaderKey (ul_string ul (ul_new ul (st_uuids s)))) (site_writer s)"
  "st_recorders (started global ul r s) = st_recorders s @ [fresh_recorder]"
  "sv_world (st_srv (started global ul r s)) = sv_world (st_srv s)" "st_metrics (started global ul r s) = st_metrics s"
  "st_clock (started global ul r s) = st_clock s"
  by (cases "request_logger global r"; simp add: started_def site_writer_def)+

definition counted :: "string \<Rightarrow> string \<Rightarrow> int \<Rightarrow> int \<Rightarrow> metrics \<Rightarrow> metrics" where
  "counted meth route status elapsed m =
     m\<lparr>mt_requests := (mt_requests m)((meth, route, status) := Suc (mt_requests m (meth, route, status))),
       mt_duration := mt_duration m @ [((meth, route, status), elapsed)]\<rparr>"

lemma monitored_runs:
  assumes b: "mt_built (st_metrics s) = Some True" and route: "\<not> is_ignored_route (get_route_pattern chi q)"
    and run: "h (status_recorder (length (st_recorders s)) w) q
      (in_flight (ar_method q) (get_route_pattern chi q) (s\<lparr>st_recorders := st_recorders s @ [fresh_recorder]\<rparr>)) = (Ret (), t)"
    and t: "st_metrics t = st_metrics (in_flight (ar_method q) (get_route_pattern chi q) s)"
  shows "metrics_monitor meter global chi h w q s = (Ret (), t\<lparr>st_metrics := counted (ar_method q) (get_route_pattern chi q)
    (rec_status (st_recorders t ! length (st_recorders s))) (st_clock t - st_clock s) (st_metrics s)\<rparr>)"
proof -
  have bt: "mt_built (st_metrics t) = Some True" using b t by (simp add: in_flight_def)
  have "metrics_monitor meter global chi h w q s = (Ret (), t\<lparr>st_metrics := request_done (ar_method q) (get_route_pattern chi q)
      (rec_status (st_recorders t ! length (st_recorders s))) (st_clock t - st_clock s) (st_metrics t)\<rparr>)"
    using b route run bt
    by (simp add: metrics_monitor_def new_recorder_def bind_act_def ret_def Let_def increment_active_requests_def
        resolve_built monitored_def deferred_def monitor_after_run fresh_recorder_def in_flight_def)
  then show ?thesis using t by (simp add: request_done_def in_flight_def counted_def)
qed

text \<open>The part of the stack inside the recorder of the log.\<close>

definition seen_status :: "(world \<Rightarrow> payload \<Rightarrow> string option) \<Rightarrow> world \<Rightarrow> kind \<Rightarrow> dto \<Rightarrow> int" where
  "seen_status json w k d = (if json w (PDTO (Some d)) = None then 500 else status_code k)"

definition seen_recorders :: "int \<Rightarrow> int \<Rightarrow> recorder list" where
  "seen_recorders c n = [\<lparr>rec_status = c, rec_size = n\<rparr>, \<lparr>rec_status = c, rec_size = 0\<rparr>]"

lemma monitored_error:
  fixes global ul chi r s
  defines "i \<equiv> length (st_recorders s)" and "S \<equiv> started global ul r s"
    and "q \<equiv> traced ul (request_logger global r) r (ul_new ul (st_uuids s)) (st_contexts s)"
    and "route \<equiv> get_route_pattern chi r"
    and "l \<equiv> log_with (request_logger global r) [LogField ''request_id'' (VStr (ul_string ul (ul_new ul (st_uuids s))))]"
  assumes fn: "reports fn r (sv_world (st_srv s)) e w1 now" and err: "as_errort e = Some (ErrorT k m c o' a)"
    and dto: "protect_error_dto (ErrorT k m c o' a) w1 = (Ret (Some d), w2)"
    and st: "200 \<le> status_code k" "status_code k \<le> 999" and new: "wr_sent (site_writer s) = None"
    and built: "mt_built (st_metrics s) = Some True" and chi: "own_key chi"
    and nr: "\<not> is_ignored_route route" and req: "ar_method r \<noteq> ''OPTIONS''"
  shows "\<exists>v. metrics_monitor meter global chi (content_type_json (cors cfg (route_on json unknown fn)))
      (logging_response_writer i base_rw) q S = (Ret (), answered v (st_recorders s
        @ seen_recorders (seen_status json w2 k d) (int (length (body_sent json w2 (PDTO (Some d))))))
      (reported (error_record l e) w2 now S)
        \<lparr>st_metrics := counted (ar_method r) route (seen_status json w2 k d) (now - st_clock s) (st_metrics s)\<rparr>)
    \<and> wr_sent v = Some (status_code k, header_set ''Content-Type'' ''application/json''
        (json_headers cfg (wr_header (site_writer S))))
    \<and> wr_body v = wr_body (site_writer s) @ [body_sent json w2 (PDTO (Some d))]"
proof -
  let ?h = "content_type_json (cors cfg (route_on json unknown fn))" and ?body = "body_sent json w2 (PDTO (Some d))"
  let ?seen = "seen_status json w2 k d"
  have q: "ar_method q = ar_method r" "get_route_pattern chi q = route" "ctx_value (ar_ctx q) LoggerKey = Some (CVLogger l)"
    using traced_route [OF chi] by (simp_all add: q_def route_def l_def)
  define S1 where "S1 = in_flight (ar_method r) route (S\<lparr>st_recorders := st_recorders S @ [fresh_recorder]\<rparr>)"
  define S2 where "S2 = answered (wr_header_update (json_headers cfg) (site_writer S)) (st_recorders S1) S1"
  have S1: "site_writer S1 = site_writer S" "st_recorders S1 = st_recorders s @ [fresh_recorder, fresh_recorder]"
    "sv_world (st_srv S1) = sv_world (st_srv s)" "st_clock S1 = st_clock s"
    by (simp_all add: S1_def S_def in_flight_def site_writer_def)
  have fn2: "fn (both i (Suc i)) q S2 = (Ret (Some e), S2\<lparr>st_clock := now, st_srv := (st_srv S2)\<lparr>sv_world := w1\<rparr>\<rparr>)"
    using fn S1(3) by (simp add: reports_def traced_def S2_def q_def)
  have "wr_sent (site_writer S2) = None" using new by (simp add: S2_def S_def)
  then obtain v where run: "route_on json unknown fn (both i (Suc i)) q S2 = (Ret (), answered v
      (marked i (Suc i) (recorded_status json w2 (write_response (status_code k) (PDTO (Some d))))
        (int (length ?body)) (st_recorders S2)) (reported (error_record l e) w2 now S2))"
    and v: "wr_sent v = Some (status_code k, header_set ''Content-Type'' ''application/json'' (wr_header (site_writer S2)))"
      "wr_body v = wr_body (site_writer S2) @ [?body]"
    using route_on_both [where fn = fn and i = i and j = "Suc i" and q = q and s = S2, OF fn2 err q(3) dto, of json unknown]
      st S1 by (auto simp: S2_def i_def)
  define T where "T = answered v (st_recorders s @ seen_recorders ?seen (int (length ?body))) (reported (error_record l e) w2 now S1)"
  have "T = answered v (marked i (Suc i) (recorded_status json w2 (write_response (status_code k) (PDTO (Some d))))
        (int (length ?body)) (st_recorders S2)) (reported (error_record l e) w2 now S2)"
    by (simp add: T_def S2_def S1(2) marked_fresh i_def recorded_status_def write_response_def seen_recorders_def
        seen_status_def answered_def reported_def)
  moreover have "answered (site_writer S) (st_recorders S1) S1 = S1" using answered_self [of S1] S1(1) by simp
  ultimately have inner: "?h (both i (Suc i)) q S1 = (Ret (), T)"
    using headers_then [of q cfg "route_on json unknown fn" i "Suc i" "site_writer S" "st_recorders S1" S1]
      q(1) req run by (simp add: S2_def)
  have run: "?h (status_recorder (length (st_recorders S)) (logging_response_writer i base_rw)) q
      (in_flight (ar_method q) (get_route_pattern chi q) (S\<lparr>st_recorders := st_recorders S @ [fresh_recorder]\<rparr>)) = (Ret (), T)"
    using inner q(1,2) by (simp add: S1_def S_def both_def i_def)
  have T: "st_metrics T = st_metrics (in_flight (ar_method q) (get_route_pattern chi q) S)" "st_clock T = now"
    "rec_status (st_recorders T ! length (st_recorders S)) = ?seen"
    using q by (simp_all add: T_def S1_def in_flight_def S_def nth_append seen_recorders_def)
  have b: "mt_built (st_metrics S) = Some True" "\<not> is_ignored_route (get_route_pattern chi q)"
    using built nr q(2) by (simp_all add: S_def)
  have "metrics_monitor meter global chi ?h (logging_response_writer i base_rw) q S
      = (Ret (), T\<lparr>st_metrics := counted (ar_method r) route ?seen (now - st_clock s) (st_metrics s)\<rparr>)"
    using monitored_runs [where h = ?h and q = q and s = S and t = T and w = "logging_response_writer i base_rw"
        and chi = chi, OF b run T(1)] T(2,3) q(1,2) by (simp add: S_def)
  moreover have "T\<lparr>st_metrics := x\<rparr> = answered v (st_recorders s @ seen_recorders ?seen (int (length ?body)))
      (reported (error_record l e) w2 now S)\<lparr>st_metrics := x\<rparr>" for x
    by (simp add: T_def S1_def in_flight_def answered_def reported_def)
  ultimately show ?thesis using v by (intro exI [of _ v]) (simp add: S2_def S_def)
qed

definition access_record :: "logger \<Rightarrow> areq \<Rightarrow> int \<Rightarrow> int \<Rightarrow> int \<Rightarrow> log_level \<times> string \<times> log_field list" where
  "access_record l r status elapsed bytes =
     (case log_with l [LogField ''response_status'' (VInt status), LogField ''response_time'' (VInt elapsed),
             LogField ''response_size'' (VInt bytes)] of
        Logger n fs \<Rightarrow> (LInfo, ''['' @ int_str status @ ''] '' @ ar_method r @ '' '' @ ar_url r, fs))"

lemma access_record_cancels [simp]: "access_record l (r\<lparr>ar_cancels := ks\<rparr>) c e n = access_record l r c e n"
  by (cases l) (simp add: access_record_def)

lemma log_response_run:
  assumes "ar_url r \<noteq> ''/health''" and "st_recorders s ! i = \<lparr>rec_status = c, rec_size = n\<rparr>"
  shows "log_response l r start i s = (Ret (), s\<lparr>st_srv := (st_srv s)\<lparr>sv_log := sv_log (st_srv s)
    @ [access_record l r c (st_clock s - start) n]\<rparr>\<rparr>)"
  using assms
  by (cases l) (simp add: log_response_def Let_def site_log_def on_srv_def ret_def access_record_def)

lemma reported_error_run:
  assumes fn: "reports fn r (sv_world (st_srv s)) e w1 now" and err: "as_errort e = Some (ErrorT k m c o' a)"
    and st: "200 \<le> status_code k" "status_code k \<le> 999" and new: "wr_sent (site_writer s) = None"
    and built: "mt_built (st_metrics s) = Some True" and chi: "own_key chi"
    and route: "\<not> is_ignored_route (get_route_pattern chi r)" and req: "ar_url r \<noteq> ''/health''" "ar_method r \<noteq> ''OPTIONS''"
  shows "\<exists>t d w2 seen body id.
      recommended global ul meter chi cfg (route_on json unknown fn) base_rw r s = (Ret (), t)
    \<and> protect_error_dto (ErrorT k m c o' a) w1 = (Ret (Some d), w2)
    \<and> id = ul_string ul (ul_new ul (st_uuids s)) \<and> body = body_sent json w2 (PDTO (Some d))
    \<and> seen = (if json w2 (PDTO (Some d)) = None then 500 else status_code k)
    \<and> wr_body (site_writer t) = wr_body (site_writer s) @ [body]
    \<and> (\<exists>h. wr_sent (site_writer t) = Some (status_code k, h)
        \<and> header_get h ''Content-Type'' = ''application/json'' \<and> header_get h ''X-Request-ID'' = id)
    \<and> st_metrics t = counted (ar_method r) (get_route_pattern chi r) seen (now - st_clock s) (st_metrics s)
    \<and> (\<exists>start. sv_log (st_srv t) = sv_log (st_srv s) @ [start,
        error_record (log_with (request_logger global r) [LogField ''request_id'' (VStr id)]) e,
        access_record (request_logger global r) r seen (now - st_clock s) (int (length body))])
    \<and> st_contexts s \<in> st_cancelled t"
proof -
  let ?i = "length (st_recorders s)" and ?l = "request_logger global r" and ?S = "started global ul r s"
  let ?q = "traced ul ?l r (ul_new ul (st_uuids s)) (st_contexts s)" and ?route = "get_route_pattern chi r"
  let ?id = "ul_string ul (ul_new ul (st_uuids s))"
  obtain d w2 where dto: "protect_error_dto (ErrorT k m c o' a) w1 = (Ret (Some d), w2)"
    by (cases "kind_is k KindUserError") (simp_all add: protect_user_run protect_system_run)
  let ?body = "body_sent json w2 (PDTO (Some d))" and ?seen = "seen_status json w2 k d"
  obtain v where mon: "metrics_monitor meter global chi (content_type_json (cors cfg (route_on json unknown fn)))
      (logging_response_writer ?i base_rw) ?q ?S = (Ret (), answered v (st_recorders s @ seen_recorders ?seen (int (length ?body)))
      (reported (error_record (log_with ?l [LogField ''request_id'' (VStr ?id)]) e) w2 now ?S)
        \<lparr>st_metrics := counted (ar_method r) ?route ?seen (now - st_clock s) (st_metrics s)\<rparr>)"
    and v: "wr_sent v = Some (status_code k, header_set ''Content-Type'' ''application/json'' (json_headers cfg (wr_header (site_writer ?S))))"
      "wr_body v = wr_body (site_writer s) @ [?body]"
    using monitored_error [OF fn err dto st new built chi route req(2)] by blast
  define T where "T = answered v (st_recorders s @ seen_recorders ?seen (int (length ?body)))
      (reported (error_record (log_with ?l [LogField ''request_id'' (VStr ?id)]) e) w2 now ?S)
        \<lparr>st_metrics := counted (ar_method r) ?route ?seen (now - st_clock s) (st_metrics s)\<rparr>"
  let ?access = "access_record ?l r ?seen (now - st_clock s) (int (length ?body))"
  define U where "U = T\<lparr>st_srv := (st_srv T)\<lparr>sv_log := sv_log (st_srv T) @ [?access]\<rparr>,
    st_cancelled := insert (st_contexts s) (st_cancelled T)\<rparr>"
  have rec: "st_recorders T ! ?i = \<lparr>rec_status = ?seen, rec_size = int (length ?body)\<rparr>" "st_clock T = now"
    by (simp_all add: T_def nth_append seen_recorders_def answered_def reported_def)
  have "log_response ?l (r\<lparr>ar_cancels := ar_cancels r @ [st_contexts s]\<rparr>) (st_clock s) ?i T
      = (Ret (), T\<lparr>st_srv := (st_srv T)\<lparr>sv_log := sv_log (st_srv T) @ [?access]\<rparr>\<rparr>)"
    using log_response_run [where r = "r\<lparr>ar_cancels := ar_cancels r @ [st_contexts s]\<rparr>", OF _ rec(1)] req(1) rec(2) by simp
  then have "recommended global ul meter chi cfg (route_on json unknown fn) base_rw r s = (Ret (), U)"
    unfolding recommended_runs using mon by (simp add: T_def [symmetric] bind_act_def deferred_def cancel_context_def ret_def U_def)
  moreover have "site_writer U = v" "st_metrics U = counted (ar_method r) ?route ?seen (now - st_clock s) (st_metrics s)"
    "st_contexts s \<in> st_cancelled U" by (simp_all add: U_def T_def site_writer_def answered_def)
  moreover have "\<exists>start. sv_log (st_srv U) = sv_log (st_srv s) @ [start,
      error_record (log_with ?l [LogField ''request_id'' (VStr ?id)]) e, ?access]"
    by (cases ?l) (simp add: U_def T_def started_def answered_def reported_def)
  moreover have "header_get (header_set ''Content-Type'' ''application/json'' (json_headers cfg (wr_header (site_writer ?S)))) ''X-Request-ID'' = ?id"
    by (simp add: json_headers_def RequestIdHeaderKey_def cors_keys)
  ultimately show ?thesis
    using dto v by (intro exI [of _ U] exI [of _ d] exI [of _ w2] exI [of _ ?seen]) (simp add: seen_status_def)
qed


text \<open>A route that refuses the id it is given, seven nanoseconds after it was called.\<close>

definition bad_id :: gerror where
  "bad_id = ErrorT KindUserError ''bad id'' None None 0"

definition refusing :: "rw \<Rightarrow> areq \<Rightarrow> (site, gerror option) act" where
  "refusing w q u = (Ret (Some bad_id), u\<lparr>st_clock := 7\<rparr>)"

lemma refusing_reports: "reports refusing example_request (sv_world (st_srv example_site)) bad_id (sv_world (st_srv example_site)) 7"
proof -
  have "u\<lparr>st_clock := 7\<rparr> = u\<lparr>st_clock := 7, st_srv := (st_srv u)\<lparr>sv_world := sv_world (st_srv u)\<rparr>\<rparr>" for u :: site
    by simp
  then show ?thesis by (auto simp: reports_def refusing_def)
qed


end
