(* ===== verification/Responses.thy ===== *)
theory Responses
  imports Http
begin

text \<open>
  Reading a response (\<open>httpclient/response.go\<close>): bounding what is kept of a peer's values on rune
  boundaries, recognising an error DTO, and turning an error response into an error.
\<close>

section \<open>UTF-8\<close>

definition max_diagnostic_bytes :: nat where
  "max_diagnostic_bytes = 4096"

definition max_media_type_component_bytes :: nat where
  "max_media_type_component_bytes = 127"

definition in_range :: "nat \<Rightarrow> nat \<Rightarrow> char \<Rightarrow> bool" where
  "in_range lo hi c \<longleftrightarrow> lo \<le> of_char c \<and> of_char c \<le> hi"

abbreviation cont :: "char \<Rightarrow> bool" where
  "cont \<equiv> in_range 128 191"

text \<open>
  \<open>utf8.DecodeRune\<close>: the size of the rune a byte string starts with, \<open>None\<close> where Go returns
  \<open>RuneError\<close> with size 0 or 1.
\<close>

fun rune_size :: "string \<Rightarrow> nat option" where
  "rune_size [] = None"
| "rune_size (a # r) =
     (if in_range 0 127 a then Some 1
      else if in_range 194 223 a then
        (case r of b # _ \<Rightarrow> if cont b then Some 2 else None | _ \<Rightarrow> None)
      else if in_range 224 239 a then
        (case r of
           b # c # _ \<Rightarrow>
             if in_range (if of_char a = (224::nat) then 160 else 128) (if of_char a = (237::nat) then 159 else 191) b
                \<and> cont c
             then Some 3 else None
         | _ \<Rightarrow> None)
      else if in_range 240 244 a then
        (case r of
           b # c # d # _ \<Rightarrow>
             if in_range (if of_char a = (240::nat) then 144 else 128) (if of_char a = (244::nat) then 143 else 191) b
                \<and> cont c \<and> cont d
             then Some 4 else None
         | _ \<Rightarrow> None)
      else None)"

lemma rune_size_bounds: "rune_size s = Some n \<Longrightarrow> 1 \<le> n \<and> n \<le> 4 \<and> n \<le> length s"
  by (cases s rule: rune_size.cases) (auto split: if_splits list.splits)

lemma rune_size_append: "rune_size s = Some n \<Longrightarrow> rune_size (s @ t) = Some n"
  by (cases s rule: rune_size.cases) (auto split: if_splits list.splits)

text \<open>The size depends on the bytes of the rune only.\<close>

lemma rune_size_take: "rune_size s = Some n \<Longrightarrow> n \<le> m \<Longrightarrow> rune_size (take m s) = Some n"
  by (cases s rule: rune_size.cases; cases m)
    (auto split: if_splits list.splits simp: take_Cons' numeral_eq_Suc)

function utf8_valid :: "string \<Rightarrow> bool" where
  "utf8_valid s =
     (s = [] \<or> (case rune_size s of None \<Rightarrow> False | Some n \<Rightarrow> utf8_valid (drop n s)))"
  by pat_completeness auto
termination
  by (relation "measure length") (auto dest: rune_size_bounds)

declare utf8_valid.simps [simp del]

section \<open>Bounded prefixes\<close>

text \<open>The loop of \<open>boundedPrefix\<close>, on its variable \<open>end\<close>; the prefix is \<open>value[:end]\<close>.\<close>

function prefix_end :: "string \<Rightarrow> nat \<Rightarrow> nat option" where
  "prefix_end v e =
     (if e < length v \<and> e < max_diagnostic_bytes then
        (case rune_size (drop e v) of
           None \<Rightarrow> None
         | Some n \<Rightarrow> if max_diagnostic_bytes < e + n then Some e else prefix_end v (e + n))
      else Some e)"
  by pat_completeness auto
termination
  by (relation "measure (\<lambda>(v, e). length v - e)") (auto dest!: rune_size_bounds)

declare prefix_end.simps [simp del]

definition bounded_prefix :: "string \<Rightarrow> string option" where
  "bounded_prefix v = map_option (\<lambda>e. take e v) (prefix_end v 0)"

record capture =
  cap_text :: string
  cap_length :: int
  cap_truncated :: bool
  cap_readable :: bool

definition empty_capture :: capture where
  "empty_capture = \<lparr>cap_text = [], cap_length = 0, cap_truncated = False, cap_readable = False\<rparr>"

definition capture_diagnostic :: "string \<Rightarrow> capture" where
  "capture_diagnostic v =
     (case bounded_prefix v of
        None \<Rightarrow>
          \<lparr>cap_text = [], cap_length = int (length v), cap_truncated = max_diagnostic_bytes < length v,
           cap_readable = False\<rparr>
      | Some p \<Rightarrow>
          \<lparr>cap_text = p, cap_length = int (length v), cap_truncated = length p < length v,
           cap_readable = True\<rparr>)"

text \<open>
  \<open>capturePeerString\<close>: one raw JSON member. What \<open>json.Unmarshal\<close> makes of a valid string literal is
  an argument.
\<close>

definition capture_peer_string :: "(string \<Rightarrow> string option) \<Rightarrow> string \<Rightarrow> capture option" where
  "capture_peer_string unquote raw =
     (if length raw < 3 \<or> hd raw \<noteq> CHR 0x22 \<or> last raw \<noteq> CHR 0x22 then None
      else if \<not> utf8_valid raw then
        Some \<lparr>cap_text = [], cap_length = int (length raw) - 2,
              cap_truncated = int max_diagnostic_bytes < int (length raw) - 2, cap_readable = False\<rparr>
      else case unquote raw of
             None \<Rightarrow> None
           | Some text \<Rightarrow> Some (capture_diagnostic text))"

definition render_received :: "(string \<Rightarrow> string) \<Rightarrow> capture \<Rightarrow> string" where
  "render_received quote c =
     (if \<not> cap_readable c then ''<'' @ int_str (cap_length c) @ '' unreadable bytes>''
      else cap_text (capture_diagnostic (quote (cap_text c))))"

definition captured_fields :: "string \<Rightarrow> capture \<Rightarrow> field_entry list" where
  "captured_fields name c =
     [Field (name @ ''_bytes'') (VInt (cap_length c)), Field (name @ ''_truncated'') (VBool (cap_truncated c))]
     @ (if cap_readable c then [Field name (VStr (cap_text c))] else [])"

section \<open>Media types\<close>

definition media_type_component :: "string \<Rightarrow> bool" where
  "media_type_component s \<longleftrightarrow> s \<noteq> [] \<and> length s \<le> max_media_type_component_bytes"

text \<open>What \<open>mime.ParseMediaType\<close> returns for a header is an argument.\<close>

definition safe_media_type :: "(string \<Rightarrow> string option) \<Rightarrow> string \<Rightarrow> string" where
  "safe_media_type parse header =
     (case parse header of
        None \<Rightarrow> []
      | Some mt \<Rightarrow>
          (case cut_at (CHR ''/'') mt of
             Some (a, b) \<Rightarrow> if media_type_component a \<and> media_type_component b then mt else []
           | None \<Rightarrow> []))"

section \<open>Proofs about prefixes\<close>

lemma utf8_valid_Nil [simp]: "utf8_valid []"
  by (simp add: utf8_valid.simps)

lemma utf8_valid_step: "rune_size s = Some n \<Longrightarrow> utf8_valid s = utf8_valid (drop n s)"
  using rune_size_bounds by (subst utf8_valid.simps) (auto split: option.splits)

lemma utf8_valid_rune: "utf8_valid s \<Longrightarrow> s \<noteq> [] \<Longrightarrow> \<exists>n. rune_size s = Some n"
  by (subst (asm) utf8_valid.simps) (auto split: option.splits)

lemma prefix_end_bounds:
  "prefix_end v e = Some f \<Longrightarrow> e \<le> length v \<Longrightarrow> e \<le> max_diagnostic_bytes \<Longrightarrow>
   e \<le> f \<and> f \<le> length v \<and> f \<le> max_diagnostic_bytes
   \<and> (f = length v \<or> max_diagnostic_bytes < f + 4) \<and> utf8_valid (drop e (take f v))"
proof (induction v e rule: prefix_end.induct)
  case (1 v e)
  show ?case
  proof (cases "e < length v \<and> e < max_diagnostic_bytes")
    case False
    with 1(2-4) have "f = e" by (simp add: prefix_end.simps)
    moreover have "e = length v \<or> e = max_diagnostic_bytes" using False 1(3,4) by linarith
    ultimately show ?thesis using 1(3,4) by auto
  next
    case True
    then obtain n where n: "rune_size (drop e v) = Some n"
      using 1(2) by (cases "rune_size (drop e v)") (auto simp: prefix_end.simps)
    note b = rune_size_bounds [OF n]
    show ?thesis
    proof (cases "max_diagnostic_bytes < e + n")
      case over: True
      with 1(2) True n have "f = e" by (simp add: prefix_end.simps)
      then show ?thesis using True over b by auto
    next
      case False
      with 1(2) True n have "prefix_end v (e + n) = Some f" by (subst (asm) prefix_end.simps) simp
      then have ih: "e + n \<le> f" "f \<le> length v" "f \<le> max_diagnostic_bytes"
          "f = length v \<or> max_diagnostic_bytes < f + 4" "utf8_valid (drop (e + n) (take f v))"
        using 1(1) [OF True n False] False b True by auto
      have "rune_size (drop e (take f v)) = Some n"
        using rune_size_take [OF n, of "f - e"] ih(1) by (simp add: drop_take)
      then have "utf8_valid (drop e (take f v))"
        using ih(5) by (simp add: utf8_valid_step add.commute)
      with ih show ?thesis by auto
    qed
  qed
qed

lemma prefix_end_None: "prefix_end v e = None \<Longrightarrow> \<not> utf8_valid (drop e v)"
proof (induction v e rule: prefix_end.induct)
  case (1 v e)
  then have c: "e < length v \<and> e < max_diagnostic_bytes"
    by (subst (asm) (2) prefix_end.simps) (auto split: if_splits)
  show ?case
  proof (cases "rune_size (drop e v)")
    case None
    then show ?thesis using utf8_valid_rune [of "drop e v"] c by auto
  next
    case (Some n)
    then have "\<not> max_diagnostic_bytes < e + n" "prefix_end v (e + n) = None"
      using 1(2) c by (subst (asm) prefix_end.simps, simp split: if_splits)+
    then have "\<not> utf8_valid (drop (e + n) v)" using 1(1) [OF c Some] by blast
    then show ?thesis using utf8_valid_step [OF Some] by (simp add: add.commute)
  qed
qed

text \<open>
  C36: A peer's value is kept bounded and readable, or not at all. What captureDiagnostic keeps is a
  prefix of the value of at most 4096 bytes and valid UTF-8; it is the whole value, or ends less
  than one rune before the bound. The length is the value's own, and truncated says whether
  something is missing. A value whose bytes are valid UTF-8 is always readable.
\<close>

theorem capture_bounded:
  "cap_length (capture_diagnostic v) = int (length v)
   \<and> length (cap_text (capture_diagnostic v)) \<le> 4096
   \<and> utf8_valid (cap_text (capture_diagnostic v))
   \<and> (\<exists>rest. v = cap_text (capture_diagnostic v) @ rest
        \<and> (cap_readable (capture_diagnostic v) \<longrightarrow>
             cap_truncated (capture_diagnostic v) = (rest \<noteq> [])
             \<and> (rest \<noteq> [] \<longrightarrow> 4092 < length (cap_text (capture_diagnostic v)))))
   \<and> (utf8_valid v \<longrightarrow> cap_readable (capture_diagnostic v))
   \<and> (\<not> cap_readable (capture_diagnostic v) \<longrightarrow>
        cap_text (capture_diagnostic v) = [] \<and> cap_truncated (capture_diagnostic v) = (4096 < length v))"
proof (cases "prefix_end v 0")
  case None
  then show ?thesis
    using prefix_end_None [OF None]
    by (simp add: capture_diagnostic_def bounded_prefix_def max_diagnostic_bytes_def)
next
  case (Some f)
  then have f: "f \<le> length v" "f \<le> 4096" "f = length v \<or> 4096 < f + 4" "utf8_valid (take f v)"
    using prefix_end_bounds [OF Some] by (auto simp: max_diagnostic_bytes_def)
  have c: "capture_diagnostic v = \<lparr>cap_text = take f v, cap_length = int (length v),
      cap_truncated = f < length v, cap_readable = True\<rparr>"
    using Some f(1) by (simp add: capture_diagnostic_def bounded_prefix_def min_def)
  show ?thesis
    unfolding c using f by (auto intro!: exI [of _ "drop f v"])
qed

theorem capture_bounded_witness: "cap_readable (capture_diagnostic ''plain text'')"
proof -
  have "utf8_valid ''plain text''" by code_simp
  then show ?thesis using capture_bounded [of "''plain text''"] by blast
qed

end
