(* ===== verification/Decode_Error.thy ===== *)
theory Decode_Error
  imports Responses Retry
begin

text \<open>
  The operations of a \<open>Response\<close> (\<open>httpclient/response.go\<close>): decoding a body, and \<open>DecodeError\<close>,
  which turns any error response into an error that reports the status the response arrived with.
\<close>

section \<open>What the JSON library makes of a body\<close>

text \<open>
  \<open>json.Unmarshal\<close> into the three types of \<open>parseErrorDTO\<close>, each \<open>None\<close> where it fails: the members
  \<open>error\<close> and \<open>kind\<close> when they are strings, a whole DTO, and the raw text of three members. Then
  the decoder of one string literal, \<open>strconv.Quote\<close> and \<open>mime.ParseMediaType\<close>.
\<close>

record json_dto =
  jd_name :: string
  jd_error :: string
  jd_code :: string
  jd_origin :: string
  jd_details :: "(string \<Rightarrow> gval option) option"

record raw_fields =
  rf_code :: string
  rf_name :: string
  rf_message :: string

record json_lib =
  js_core :: "string \<Rightarrow> (string option \<times> string option) option"
  js_dto :: "string \<Rightarrow> json_dto option"
  js_raw :: "string \<Rightarrow> raw_fields option"
  js_unquote :: "string \<Rightarrow> string option"
  js_quote :: "string \<Rightarrow> string"
  js_media :: "string \<Rightarrow> string option"

text \<open>The details of a decoded DTO are a map the decoder allocates, or nil.\<close>

definition alloc_dto :: "json_dto \<Rightarrow> world \<Rightarrow> dto \<times> world" where
  "alloc_dto j w =
     (case jd_details j of
        None \<Rightarrow>
          (\<lparr>dto_name = jd_name j, dto_error = jd_error j, dto_code = jd_code j, dto_origin = jd_origin j,
            dto_details = None\<rparr>, w)
      | Some m \<Rightarrow>
          (\<lparr>dto_name = jd_name j, dto_error = jd_error j, dto_code = jd_code j, dto_origin = jd_origin j,
            dto_details = Some (next_addr w)\<rparr>,
           w\<lparr>next_addr := Suc (next_addr w), details_maps := (details_maps w)(next_addr w := m)\<rparr>))"

definition parse_error_dto :: "json_lib \<Rightarrow> string \<Rightarrow> (json_dto \<times> raw_fields) option" where
  "parse_error_dto js body =
     (case js_core js body of
        Some (Some _, Some code) \<Rightarrow>
          if code = [] then None
          else (case (js_dto js body, js_raw js body) of
                  (Some j, Some raw) \<Rightarrow> Some (j, raw)
                | _ \<Rightarrow> None)
      | _ \<Rightarrow> None)"

section \<open>Statuses and diagnostics\<close>

definition is_error :: "http_response \<Rightarrow> bool" where
  "is_error r \<longleftrightarrow> 400 \<le> resp_status r"

definition response_retry_after :: "(string \<Rightarrow> int option) \<Rightarrow> http_response option \<Rightarrow> int option" where
  "response_retry_after until r =
     (case r of
        None \<Rightarrow> None
      | Some rs \<Rightarrow> parse_retry_after until (header_get (resp_header rs) ''Retry-After''))"

definition kind_with_status :: "kind \<Rightarrow> int \<Rightarrow> kind" where
  "kind_with_status k status = (if status_code k = status then k else customize_status_code k status)"

definition status_kind :: "int \<Rightarrow> kind" where
  "status_kind status = kind_with_status (kind_for_status status) status"

definition describe_body :: "string \<Rightarrow> gerror option \<Rightarrow> capture \<times> string" where
  "describe_body body err =
     (if err \<noteq> None then (capture_diagnostic body, ''failed reading the upstream error response'')
      else if body = [] then (empty_capture, ''upstream returned an empty error response'')
      else (capture_diagnostic body, ''upstream returned a non-garlic error response''))"

definition response_metadata :: "int \<Rightarrow> string \<Rightarrow> capture \<Rightarrow> string \<Rightarrow> gval option" where
  "response_metadata status media c =
     (let m = [''http_status'' \<mapsto> VInt status, ''body_bytes'' \<mapsto> VInt (cap_length c),
               ''truncated'' \<mapsto> VBool (cap_truncated c)]
      in if media \<noteq> [] then m(''content_type'' \<mapsto> VStr media) else m)"

definition optional_fields :: "string \<Rightarrow> capture option \<Rightarrow> field_entry list" where
  "optional_fields name c = (case c of None \<Rightarrow> [] | Some x \<Rightarrow> captured_fields name x)"

definition unknown_kind_fields :: "json_lib \<Rightarrow> int \<Rightarrow> raw_fields \<Rightarrow> capture \<Rightarrow> field_entry list" where
  "unknown_kind_fields js status raw code =
     [Field ''http_status'' (VInt status)]
     @ captured_fields ''received_kind'' code
     @ optional_fields ''received_name'' (capture_peer_string (js_unquote js) (rf_name raw))
     @ optional_fields ''received_message'' (capture_peer_string (js_unquote js) (rf_message raw))"

section \<open>Decode and DecodeError\<close>

text \<open>Consuming a response leaves it without a body; draining and closing the connection is I/O.\<close>

definition drain_and_close :: "http_response \<Rightarrow> http_response" where
  "drain_and_close r = r\<lparr>resp_body := None\<rparr>"

text \<open>\<open>Close\<close>: the error of closing the body, an argument, and the response it leaves.\<close>

definition response_close ::
  "(http_body \<Rightarrow> gerror option) \<Rightarrow> http_response option \<Rightarrow> gerror option \<times> http_response option" where
  "response_close closing r =
     (case r of
        None \<Rightarrow> (None, None)
      | Some rs \<Rightarrow>
          (case resp_body rs of
             None \<Rightarrow> (None, Some rs)
           | Some b \<Rightarrow> (closing b, Some (drain_and_close rs))))"

text \<open>It is safe to close twice: the second time nothing is closed and nothing fails.\<close>

lemma response_close_twice:
  "response_close closing (snd (response_close closing r)) = (None, snd (response_close closing r))"
  by (auto simp: response_close_def drain_and_close_def split: option.splits)

text \<open>\<open>Decode\<close>: what the streaming decoder makes of the body, an error or nothing, is an argument.\<close>

definition response_decode ::
  "(http_body \<Rightarrow> gerror option) \<Rightarrow> http_response option \<Rightarrow> (world, gerror option \<times> http_response option) act" where
  "response_decode dec r =
     (case r of
        None \<Rightarrow>
          bind_act (new_error ''Decode'' KindResponseDecodeError ''response body is empty'' []) (\<lambda>e. ret (Some e, None))
      | Some rs \<Rightarrow>
          (case resp_body rs of
             None \<Rightarrow>
               bind_act (new_error ''Decode'' KindResponseDecodeError ''response body is empty'' [])
                 (\<lambda>e. ret (Some e, Some rs))
           | Some b \<Rightarrow>
               bind_act (propagate_as ''Decode'' KindResponseDecodeError (dec b) ''failed to decode response body'' [])
                 (\<lambda>e. ret (e, Some (drain_and_close rs)))))"

definition unknown_kind_error :: "json_lib \<Rightarrow> int \<Rightarrow> raw_fields \<Rightarrow> (world, gerror option) act" where
  "unknown_kind_error js status raw w =
     (let code = (case capture_peer_string (js_unquote js) (rf_code raw) of Some c \<Rightarrow> c | None \<Rightarrow> empty_capture);
          message = ''upstream returned error kind '' @ render_received (js_quote js) code
                    @ '', which is not registered here''
      in bind_act (raw_error (status_kind status) ''upstream returned an error status'' []) (\<lambda>cause.
         from_error (kind_with_status KindUnknownResponseError status) (Some cause) message
           [context_opt (context_new (stack_at w ''DecodeError'') (unknown_kind_fields js status raw code))]) w)"

definition fallback_error ::
  "json_lib \<Rightarrow> http_response \<Rightarrow> string \<Rightarrow> gerror option \<Rightarrow> (world, gerror option) act" where
  "fallback_error js rs body err w =
     (let status = resp_status rs;
          (snippet, message) = describe_body body err;
          media = safe_media_type (js_media js) (header_get (resp_header rs) ''Content-Type'');
          opts = [details_opt (response_metadata status media snippet),
                  context_opt (context_new (stack_at w ''DecodeError'') (captured_fields ''body'' snippet))]
      in case err of
           Some e \<Rightarrow> from_error (status_kind status) (Some e) message opts w
         | None \<Rightarrow> bind_act (new_error ''DecodeError'' (status_kind status) message opts) (\<lambda>e. ret (Some e)) w)"

text \<open>\<open>io.ReadAll\<close> of the body, and the DTO of a body that arrived in full.\<close>

definition body_read :: "http_response \<Rightarrow> string \<times> gerror option" where
  "body_read rs = (case resp_body rs of None \<Rightarrow> ([], None) | Some b \<Rightarrow> (hb_bytes b, hb_error b))"

definition received_dto :: "json_lib \<Rightarrow> http_response \<Rightarrow> (json_dto \<times> raw_fields) option" where
  "received_dto js rs = (if snd (body_read rs) = None then parse_error_dto js (fst (body_read rs)) else None)"

definition error_of_response :: "json_lib \<Rightarrow> http_response \<Rightarrow> (world, gerror option) act" where
  "error_of_response js rs w =
     (case received_dto js rs of
        Some (j, raw) \<Rightarrow>
          let (d, w1) = alloc_dto j w in
          (case decode_for (resp_status rs) d w1 of
             (Some g, w2) \<Rightarrow> ret (Some g) w2
           | (None, w2) \<Rightarrow> unknown_kind_error js (resp_status rs) raw w2)
      | None \<Rightarrow> fallback_error js rs (fst (body_read rs)) (snd (body_read rs)) w)"

definition decode_error ::
  "json_lib \<Rightarrow> http_response option \<Rightarrow> (world, gerror option \<times> http_response option) act" where
  "decode_error js r =
     (case r of
        None \<Rightarrow>
          bind_act (new_error ''DecodeError'' KindResponseDecodeError ''response body is empty'' [])
            (\<lambda>e. ret (Some e, None))
      | Some rs \<Rightarrow>
          bind_act
            (if \<not> is_error rs then
               bind_act (new_error ''DecodeError'' KindResponseDecodeError
                 ''failed to decode a non-error response into error'' []) (\<lambda>e. ret (Some e))
             else error_of_response js rs)
            (\<lambda>e. ret (e, Some (drain_and_close rs))))"


section \<open>The error of a response\<close>

lemma kind_with_status_fields [simp]:
  "kind_is (kind_with_status k s) q = kind_is k q" "kind_is q (kind_with_status k s) = kind_is q k"
  "kind_code (kind_with_status k s) = kind_code k"
  by (simp_all add: kind_with_status_def)

lemma kind_with_status_status: "0 < s \<Longrightarrow> status_code (kind_with_status k s) = s"
  by (simp add: kind_with_status_def customize_status)

lemma kind_for_status_class: "kind_is (kind_for_status s) (class_for_status s)"
  by (auto simp: kind_for_status_eq http_kind_def intro: kind_is_parent)

lemma status_kind_class: "kind_is (status_kind s) (class_for_status s)"
  by (simp add: status_kind_def kind_for_status_class)

lemma wf_alloc_dto:
  assumes "wf_world w" and "alloc_dto j w = (d, w')"
  shows "wf_world w'" and "world_le w w'" and "dto_code d = jd_code j"
proof -
  have "cell_ok (w\<lparr>next_addr := Suc (next_addr w), details_maps := m\<rparr>) (cells w a)" for a m
    using wf_cell [OF assms(1), of a] by (rule cell_ok_mono) simp_all
  then show "wf_world w'"
    using assms by (auto simp: alloc_dto_def wf_world_def split: option.splits)
  show "world_le w w'" "dto_code d = jd_code j"
    using assms(2) by (auto simp: alloc_dto_def world_le_def same_env_def split: option.splits)
qed

text \<open>The two ways the fallback builds its error, with its details.\<close>

lemma new_error_details:
  "\<exists>w'. new_error site k msg [details_opt m, context_opt c] w = (Ret (ErrorT k msg None None (next_addr w)), w')
     \<and> details_of w' (next_addr w) = m"
proof -
  let ?a = "next_addr w" and ?d = "Suc (next_addr w)"
  define w1 where "w1 = w\<lparr>details_maps := (details_maps w)(?d := m), next_addr := Suc (Suc ?d),
     cells := (cells w)(?a := empty_cell\<lparr>cell_details := Some ?d, cell_context := Some (Suc ?d)\<rparr>),
     context_maps := (context_maps w)(Suc ?d := [ctx_caller c \<mapsto> context_outputs c])\<rparr>"
  obtain s w2 where app: "slice_append NilSlice (rev_trace_text (stack_at w site)) w1 = (s, w2)" by fastforce
  note fr = slice_append_frame [OF app]
  define w' where "w' = w2\<lparr>cells := (cells w2)(?a := (cells w2 ?a)\<lparr>cell_rtrace := s\<rparr>)\<rparr>"
  have "new_error site k msg [details_opt m, context_opt c] w = (Ret (ErrorT k msg None None ?a), w')"
    using app
    by (simp add: new_error_def raw_error_def new_errort_def with_opts_def bind_act_def ret_def
        details_opt_def context_opt_def alloc_context_def rev_trace_opt_def empty_cell_def Let_def w1_def w'_def)
  moreover have "details_of w' ?a = m" by (simp add: details_of_def w'_def fr w1_def)
  ultimately show ?thesis by blast
qed

lemma from_error_details:
  assumes "error_kind e = None"
  shows "\<exists>w'. from_error k (Some e) msg [details_opt m, context_opt c] w
      = (Ret (Some (ErrorT k msg (Some e) None (next_addr w))), w')
     \<and> details_of w' (next_addr w) = m"
proof -
  have "wrap_error (ErrorT k msg None None a) e x = (ErrorT k msg (Some e) None a, x)" for a x
    using assms by (cases e) (simp_all add: wrap_error_def)
  then show ?thesis
    by (simp add: from_error_def new_errort_def with_opts_def bind_act_def ret_def details_of_def
        details_opt_def context_opt_def alloc_context_def empty_cell_def Let_def)
qed


definition error_details :: "world \<Rightarrow> gerror \<Rightarrow> string \<Rightarrow> gval option" where
  "error_details w e = (case e of ErrorT k m c o' a \<Rightarrow> details_of w a | _ \<Rightarrow> Map.empty)"

text \<open>The three outcomes of an error response.\<close>

lemma decoded_outcome:
  assumes wf: "wf_world w" and pos: "0 < status"
    and al: "alloc_dto j w = (d, w1)" and k: "lookup_by_code (kinds_reg w) (jd_code j) = Some k"
  shows "\<exists>e w2. decode_for status d w1 = (Some e, w2) \<and> wf_world w2
    \<and> error_details w2 e = (case jd_details j of None \<Rightarrow> Map.empty | Some m \<Rightarrow> m)
    \<and> error_status_code e = Some status
    \<and> error_kind e = Some (kind_with_status k status) \<and> unwrap e = None
    \<and> code_of (error_origin e) = jd_origin j \<and> error_text e = jd_error j"
proof -
  note f = wf_alloc_dto [OF wf al]
  have k1: "lookup_by_code (kinds_reg w1) (dto_code d) = Some k"
    using k f(3) world_le_reg [OF f(2)] by simp
  have fields: "dto_error d = jd_error j" "dto_origin d = jd_origin j"
    using al by (auto simp: alloc_dto_def split: option.splits)
  have ref: "ref_ok w1 (dto_details d)"
    using al by (auto simp: alloc_dto_def ref_ok_def split: option.splits)
  obtain e v where new: "new_errort k (dto_error d) (new_headless_error (dto_origin d)) w1 = (e, v)" by fastforce
  note v = new_errort_props [OF new f(1)]
  have "snd (decode_with k d w1)
      = v\<lparr>cells := (cells v)(next_addr w1 := (cells v (next_addr w1))\<lparr>cell_details := dto_details d\<rparr>)\<rparr>"
    using new by (simp add: decode_with_def Let_def)
  moreover have "cell_ok v ((cells v (next_addr w1))\<lparr>cell_details := dto_details d\<rparr>)"
    using ref_ok_mono [OF ref, of v] v(4)
    by (simp add: v(5) cell_ok_def empty_cell_def ref_ok_def slice_ok_def)
  ultimately have "wf_world (snd (decode_with k d w1))"
    using wf_put_cell [OF v(2)] by simp
  moreover have "(case dto_details d of None \<Rightarrow> Map.empty | Some p \<Rightarrow> details_maps (snd (decode_with k d w1)) p)
      = (case jd_details j of None \<Rightarrow> Map.empty | Some m \<Rightarrow> m)"
    using al by (auto simp: alloc_dto_def decode_with_def new_errort_def Let_def split: option.splits)
  then have "details_of (snd (decode_with k d w1)) (next_addr w1)
      = (case jd_details j of None \<Rightarrow> Map.empty | Some m \<Rightarrow> m)"
    by (simp add: details_of_def decoded_cell)
  ultimately show ?thesis
    using pos by (auto simp: decode_for_sent [OF k1] fields kind_with_status_def error_status_code_def
        customize_status error_details_def)
qed

lemma unknown_wrapped:
  assumes "error_kind c = Some (status_kind s)" and "0 < s"
  shows "wrapped_kind (kind_with_status KindUnknownResponseError s) c = kind_with_status KindUnknownResponseError s"
proof (cases "s = 500")
  case True
  have "status_code (kind_for_status 500) = 500"
    by (simp add: kind_for_status_eq status_http_kind class_status)
  then have "\<not> custom_status (status_kind s)" by (simp add: status_kind_def kind_with_status_def True)
  then show ?thesis using assms by (simp add: wrapped_kind_def inherit_status_customization_def)
next
  case False
  then have "status_code KindUnknownResponseError \<noteq> s" by (simp add: kind_defs KindUnknownResponseError_def KindSystemError_def)
  then have "custom_status (kind_with_status KindUnknownResponseError s)"
    using assms(2) by (simp add: kind_with_status_def customize_custom)
  then show ?thesis using assms by (simp add: wrapped_kind_def inherit_status_customization_def)
qed

lemma unknown_outcome:
  assumes wf: "wf_world w" and pos: "0 < status"
  shows "runs w (unknown_kind_error js status raw) (\<lambda>r w'. \<exists>e c. r = Some e
    \<and> error_kind e = Some (kind_with_status KindUnknownResponseError status) \<and> unwrap e = Some c
    \<and> error_kind c = Some (status_kind status))"
proof -
  define code where
    "code = (case capture_peer_string (js_unquote js) (rf_code raw) of Some c \<Rightarrow> c | None \<Rightarrow> empty_capture)"
  define opts where
    "opts = [context_opt (context_new (stack_at w ''DecodeError'') (unknown_kind_fields js status raw code))]"
  define message where "message = ''upstream returned error kind '' @ render_received (js_quote js) code
                    @ '', which is not registered here''"
  have ok: "opts_ok opts" "opts_ok []" by (simp_all add: opts_def)
  have "unknown_kind_error js status raw w
      = bind_act (raw_error (status_kind status) ''upstream returned an error status'' []) (\<lambda>cause.
         from_error (kind_with_status KindUnknownResponseError status) (Some cause) message opts) w"
    by (simp add: unknown_kind_error_def Let_def opts_def message_def code_def)
  note eq = this
  have "runs w (bind_act (raw_error (status_kind status) ''upstream returned an error status'' []) (\<lambda>cause.
         from_error (kind_with_status KindUnknownResponseError status) (Some cause) message opts))
     (\<lambda>r w'. \<exists>e c. r = Some e
    \<and> error_kind e = Some (kind_with_status KindUnknownResponseError status) \<and> unwrap e = Some c
    \<and> error_kind c = Some (status_kind status))"
  proof (rule runs_bind [OF runs_raw_error [OF wf ok(2)]])
    fix c w'
    assume w': "wf_world w'" and c: "live_error w' (status_kind status) c
      \<and> c = ErrorT (status_kind status) ''upstream returned an error status'' None None (next_addr w)"
    note k = live_kind [OF conjunct1 [OF c]]
    show "runs w' (from_error (kind_with_status KindUnknownResponseError status) (Some c) message opts)
      (\<lambda>r w'. \<exists>e c. r = Some e
        \<and> error_kind e = Some (kind_with_status KindUnknownResponseError status) \<and> unwrap e = Some c
        \<and> error_kind c = Some (status_kind status))"
      using runs_from_error [OF w' ok(1) live_good [OF conjunct1 [OF c]]]
      by (rule runs_weaken) (auto simp: wraps_def unknown_wrapped [OF k pos] k)
  qed
  then show ?thesis by (simp only: runs_def eq)
qed

definition kept_metadata :: "json_lib \<Rightarrow> http_response \<Rightarrow> string \<Rightarrow> gval option" where
  "kept_metadata js rs =
     response_metadata (resp_status rs)
       (safe_media_type (js_media js) (header_get (resp_header rs) ''Content-Type''))
       (fst (describe_body (fst (body_read rs)) (snd (body_read rs))))"

lemma fallback_outcome:
  assumes wf: "wf_world w" and foreign: "\<And>e. err = Some e \<Longrightarrow> error_kind e = None"
  shows "\<exists>e w'. fallback_error js rs body err w = (Ret (Some e), w') \<and> wf_world w'
    \<and> error_kind e = Some (status_kind (resp_status rs)) \<and> unwrap e = err
    \<and> error_details w' e = response_metadata (resp_status rs)
       (safe_media_type (js_media js) (header_get (resp_header rs) ''Content-Type'')) (fst (describe_body body err))"
proof -
  obtain snippet message where d: "describe_body body err = (snippet, message)" by fastforce
  let ?m = "response_metadata (resp_status rs)
       (safe_media_type (js_media js) (header_get (resp_header rs) ''Content-Type'')) snippet"
  let ?c = "context_new (stack_at w ''DecodeError'') (captured_fields ''body'' snippet)"
  have ok: "opts_ok [details_opt ?m, context_opt ?c]" by simp
  show ?thesis
  proof (cases err)
    case None
    obtain w' where "new_error ''DecodeError'' (status_kind (resp_status rs)) message
        [details_opt ?m, context_opt ?c] w = (Ret (ErrorT (status_kind (resp_status rs)) message None None (next_addr w)), w')"
      and "details_of w' (next_addr w) = ?m"
      using new_error_details by blast
    moreover from this have "wf_world w'"
      using runs_new_error [OF wf ok, of "''DecodeError''" "status_kind (resp_status rs)" message]
      by (simp add: runs_def)
    ultimately show ?thesis
      using None d
      by (simp add: fallback_error_def Let_def bind_act_def ret_def error_details_def)
  next
    case (Some e)
    note f = foreign [OF Some]
    obtain w' where "from_error (status_kind (resp_status rs)) (Some e) message
        [details_opt ?m, context_opt ?c] w
        = (Ret (Some (ErrorT (status_kind (resp_status rs)) message (Some e) None (next_addr w))), w')"
      and "details_of w' (next_addr w) = ?m"
      using from_error_details [OF f] by blast
    moreover from this have "wf_world w'"
      using runs_from_foreign [OF wf ok f, of "status_kind (resp_status rs)" message]
      by (simp add: runs_def)
    ultimately show ?thesis
      using Some d by (simp add: fallback_error_def Let_def error_details_def)
  qed
qed

lemma decode_error_known:
  assumes wf: "wf_world w" and err: "is_error rs" and dto: "received_dto js rs = Some (j, raw)"
    and known: "lookup_by_code (kinds_reg w) (jd_code j) = Some k"
  shows "\<exists>e w'. decode_error js (Some rs) w = (Ret (Some e, Some (rs\<lparr>resp_body := None\<rparr>)), w')
    \<and> wf_world w' \<and> error_status_code e = Some (resp_status rs)
    \<and> (\<forall>q. is_kind (Some e) q = kind_is k q)
    \<and> code_of (error_origin e) = jd_origin j \<and> error_text e = jd_error j
    \<and> error_details w' e = (case jd_details j of None \<Rightarrow> Map.empty | Some m \<Rightarrow> m)"
proof -
  have pos: "0 < resp_status rs" using err by (simp add: is_error_def)
  obtain d w1 where al: "alloc_dto j w = (d, w1)" by fastforce
  obtain e w2 where dec: "decode_for (resp_status rs) d w1 = (Some e, w2)" and w2: "wf_world w2"
    and st: "error_status_code e = Some (resp_status rs)"
    and k: "error_kind e = Some (kind_with_status k (resp_status rs))"
    and u: "unwrap e = None" and o: "code_of (error_origin e) = jd_origin j" "error_text e = jd_error j"
    and d: "error_details w2 e = (case jd_details j of None \<Rightarrow> Map.empty | Some m \<Rightarrow> m)"
    using decoded_outcome [OF wf pos al known] by blast
  have "is_kind (Some e) q = kind_is k q" for q
    using k u by (cases e) (auto simp: is_kind_iff opt_chain_def has_kind_def)
  moreover have "decode_error js (Some rs) w = (Ret (Some e, Some (rs\<lparr>resp_body := None\<rparr>)), w2)"
    using err dto al dec
    by (simp add: decode_error_def drain_and_close_def error_of_response_def bind_act_def ret_def)
  ultimately show ?thesis using st w2 o d by blast
qed


text \<open>A body that is no DTO, under a status net/http does not name.\<close>

definition deaf_json :: json_lib where
  "deaf_json = \<lparr>js_core = Map.empty, js_dto = Map.empty, js_raw = Map.empty, js_unquote = Map.empty,
     js_quote = (\<lambda>s. s), js_media = Map.empty\<rparr>"

definition plain_failure :: http_response where
  "plain_failure = \<lparr>resp_status = 499, resp_header = no_header,
     resp_body = Some \<lparr>hb_bytes = ''gone'', hb_error = None\<rparr>\<rparr>"


end
