(* ===== verification/Wire.thy ===== *)
theory Wire
  imports Rest_Props Decode_Error
begin

text \<open>
  Two services: the error one of them answers with (\<open>rest.WriteError\<close>), sent as a DTO, is the error
  the other one gets from its client (\<open>httpclient.Response.DecodeError\<close>).
\<close>

text \<open>
  What the encoding and decoding of JSON between the services keep: the response has the status that
  was written, and its body parses to the DTO that was written, with its details.
\<close>

definition sent_dto :: "world \<Rightarrow> dto \<Rightarrow> json_dto" where
  "sent_dto w d =
     \<lparr>jd_name = dto_name d, jd_error = dto_error d, jd_code = dto_code d, jd_origin = dto_origin d,
      jd_details = map_option (details_maps w) (dto_details d)\<rparr>"

definition carries :: "json_lib \<Rightarrow> http_response \<Rightarrow> response \<Rightarrow> world \<Rightarrow> bool" where
  "carries js rs sent w \<longleftrightarrow>
     resp_status rs = rs_status sent
   \<and> (case rs_payload sent of
        PDTO (Some d) \<Rightarrow> (case received_dto js rs of Some (j, raw) \<Rightarrow> j = sent_dto w d | None \<Rightarrow> False)
      | _ \<Rightarrow> False)"

lemma carries_dto:
  assumes "carries js rs (write_response s (PDTO (Some d))) w"
  shows "resp_status rs = s \<and> (\<exists>raw. received_dto js rs = Some (sent_dto w d, raw))"
  using assms by (auto simp: carries_def write_response_def split: option.splits)

lemma projected_error_decodes:
  assumes wf: "wf_world v" and st: "400 \<le> status_code k" "resp_status rs = status_code k"
    and protect: "protect_error_dto (ErrorT k m c' o' a) w = (Ret (Some d), w')"
    and dto: "received_dto js rs = Some (sent_dto w' d, raw)"
    and user: "kind_is k KindUserError \<longrightarrow> (\<exists>k'. lookup_by_code (kinds_reg v) (kind_code k) = Some k'
          \<and> (k' = k \<or> (\<exists>n. k = customize_status_code k' n)))"
    and generic: "lookup_by_code (kinds_reg v) (kind_code (kind_for_status (status_code k)))
      = Some (kind_for_status (status_code k))"
  shows "\<exists>e v'. decode_error js (Some rs) v = (Ret (Some e, Some (rs\<lparr>resp_body := None\<rparr>)), v')
    \<and> error_status_code e = Some (status_code k)
    \<and> (if kind_is k KindUserError
       then (\<forall>q. is_kind (Some e) q = kind_is k q) \<and> error_text e = m
         \<and> code_of (error_origin e) = code_of o' \<and> error_details v' e = details_of w a
       else is_kind (Some e) (class_for_status (status_code k))
         \<and> error_text e = kind_description (kind_for_status (status_code k))
         \<and> code_of (error_origin e) = kind_code k
         \<and> error_details v' e = [''hint'' \<mapsto> VStr SUPPRESSED_HINT])"
proof (cases "kind_is k KindUserError")
  case True
  have d: "w' = w" "sent_dto w' d = \<lparr>jd_name = fqn k, jd_error = m, jd_code = kind_code k, jd_origin = code_of o',
      jd_details = map_option (details_maps w) (cell_details (cells w a))\<rparr>"
    using protect by (simp_all add: protect_user_run [OF True] sent_dto_def split: option.splits)
      (auto simp: sent_dto_def)
  have err: "is_error rs" using st by (simp add: is_error_def)
  obtain k' where k': "lookup_by_code (kinds_reg v) (kind_code k) = Some k'"
      and same: "\<And>q. kind_is k' q = kind_is k q"
    using user True by auto
  from decode_error_known [OF wf err dto] k' same st(2)
  show ?thesis using True d by (fastforce simp: details_of_def split: option.split)
next
  case False
  let ?g = "kind_for_status (status_code k)"
  have d: "sent_dto w' d = \<lparr>jd_name = fqn ?g, jd_error = kind_description ?g, jd_code = kind_code ?g,
      jd_origin = kind_code k, jd_details = Some [''hint'' \<mapsto> VStr SUPPRESSED_HINT]\<rparr>"
    using protect by (auto simp: protect_system_run [OF False] sent_dto_def suppressed_dto_def suppressed_world_def Let_def)
  have err: "is_error rs" using st by (simp add: is_error_def)
  from decode_error_known [OF wf err dto] generic st(2)
  show ?thesis using False d kind_for_status_class by fastforce
qed


text \<open>A failure of one service, decoded by another.\<close>

definition db_error :: gerror where
  "db_error = ErrorT KindSystemError ''password is hunter2'' None None 0"

definition client_world :: world where
  "client_world = init_world \<lparr>registered_codes = [kind_code (http_kind 500) \<mapsto> http_kind 500],
     registered_names = Map.empty\<rparr> (\<lambda>_. [])"

definition echo_json :: "json_dto \<Rightarrow> json_lib" where
  "echo_json j = deaf_json\<lparr>js_core := (\<lambda>_. Some (Some (jd_error j), Some (jd_code j))), js_dto := (\<lambda>_. Some j),
     js_raw := (\<lambda>_. Some \<lparr>rf_code = [], rf_name = [], rf_message = []\<rparr>)\<rparr>"


end
