(* ===== verification/Service.thy ===== *)
theory Service
  imports Serving Wire
begin

text \<open>
  A failing call between two services: the whole server, from the route to the writer under the
  recommended middlewares, and the client that decodes its answer.
\<close>

text \<open>What the writer sent, as the client gets it: a complete body.\<close>

definition response_of :: "writer \<Rightarrow> http_response" where
  "response_of v =
     \<lparr>resp_status = final_status v, resp_header = (case wr_sent v of Some (c, h) \<Rightarrow> h | None \<Rightarrow> wr_header v),
      resp_body = Some \<lparr>hb_bytes = concat (wr_body v), hb_error = None\<rparr>\<rparr>"

text \<open>The decoder of the client reads what the encoder of the server writes of a DTO with a code.\<close>

definition json_agrees :: "(world \<Rightarrow> payload \<Rightarrow> string option) \<Rightarrow> json_lib \<Rightarrow> bool" where
  "json_agrees json js \<longleftrightarrow>
     (\<forall>w d b. json w (PDTO (Some d)) = Some b \<and> dto_code d \<noteq> [] \<longrightarrow>
        (\<exists>raw. parse_error_dto js b = Some (sent_dto w d, raw)))"

lemma generic_code: "kind_code (kind_for_status n) \<noteq> []"
  by (simp add: kind_for_status_eq class_for_status_def KindUserError_def KindSystemError_def)

lemma projected_code:
  assumes "protect_error_dto (ErrorT k m c o' a) w = (Ret (Some d), w')" and "kind_code k \<noteq> []"
  shows "dto_code d \<noteq> []"
  using assms generic_code
  by (cases "kind_is k KindUserError") (auto simp: protect_user_run protect_system_run suppressed_dto_def Let_def)


text \<open>The route that refuses its id, and a client that knows the kind of user errors.\<close>

definition user_client :: world where
  "user_client = init_world \<lparr>registered_codes = [kind_code KindUserError \<mapsto> KindUserError,
     kind_code (http_kind 400) \<mapsto> http_kind 400], registered_names = Map.empty\<rparr> (\<lambda>_. [])"

definition one_json :: "json_dto \<Rightarrow> world \<Rightarrow> payload \<Rightarrow> string option" where
  "one_json j w p = (case p of PDTO (Some d) \<Rightarrow> if sent_dto w d = j then Some ''{}'' else None | _ \<Rightarrow> None)"

lemma one_json_agrees: "jd_code j \<noteq> [] \<Longrightarrow> json_agrees (one_json j) (echo_json j)"
  by (auto simp: json_agrees_def one_json_def parse_error_dto_def echo_json_def split: if_splits)


end
