(* ===== verification/Tx.thy ===== *)
theory Tx
  imports Calls
begin

text \<open>
  Transactions (\<open>database/transaction.go\<close>, \<open>database/storer.go\<close> and \<open>Database.BeginContext\<close>). The
  database is an abstract value of type \<open>'d\<close>, its committed contents; an open transaction works on a
  copy, which a commit installs and a rollback drops.
\<close>

section \<open>The database, as database/sql shows it\<close>

datatype 'd tx = TxOpen 'd | TxDone

record 'd dbs =
  ds_world :: world
  ds_main :: 'd
  ds_txs :: "nat \<Rightarrow> 'd tx"
  ds_next :: nat
  ds_log :: "(string \<times> zap_field) list"

text \<open>
  Which calls of the driver fail, by transaction, and the dynamic type and text of the error they
  give; errors of database/sql and its drivers are no garlic errors. A commit or rollback ends the transaction even
  when it fails, and a failed one leaves the committed contents alone; on a transaction that has
  ended both return \<open>sql.ErrTxDone\<close>. Transactions here run one at a time.
\<close>

type_synonym sql_failure = "string \<times> string"

record tx_env =
  te_begin :: "nat \<Rightarrow> sql_failure option"
  te_commit :: "nat \<Rightarrow> sql_failure option"
  te_rollback :: "nat \<Rightarrow> sql_failure option"

definition sql_error :: "sql_failure \<Rightarrow> gerror" where
  "sql_error f = ForeignErr (fst f) (snd f) None None"

lemma sql_error_kind [simp]: "error_kind (sql_error f) = None"
  by (simp add: sql_error_def)

definition ErrTxDone :: gerror where
  "ErrTxDone = ForeignErr ''*errors.errorString'' ''sql: transaction has already been committed or rolled back'' None None"

definition sql_begin :: "tx_env \<Rightarrow> ('d dbs, gerror + nat) act" where
  "sql_begin env s =
     (case te_begin env (ds_next s) of
        Some e \<Rightarrow> ret (Inl (sql_error e)) s
      | None \<Rightarrow> ret (Inr (ds_next s))
          (s\<lparr>ds_txs := (ds_txs s)(ds_next s := TxOpen (ds_main s)), ds_next := Suc (ds_next s)\<rparr>))"

definition sql_commit :: "tx_env \<Rightarrow> nat \<Rightarrow> ('d dbs, gerror option) act" where
  "sql_commit env t s =
     (case ds_txs s t of
        TxDone \<Rightarrow> ret (Some ErrTxDone) s
      | TxOpen d \<Rightarrow>
          (case te_commit env t of
             Some e \<Rightarrow> ret (Some (sql_error e)) (s\<lparr>ds_txs := (ds_txs s)(t := TxDone)\<rparr>)
           | None \<Rightarrow> ret None (s\<lparr>ds_main := d, ds_txs := (ds_txs s)(t := TxDone)\<rparr>)))"

definition sql_rollback :: "tx_env \<Rightarrow> nat \<Rightarrow> ('d dbs, gerror option) act" where
  "sql_rollback env t s =
     (case ds_txs s t of
        TxDone \<Rightarrow> ret (Some ErrTxDone) s
      | TxOpen d \<Rightarrow> ret (map_option sql_error (te_rollback env t)) (s\<lparr>ds_txs := (ds_txs s)(t := TxDone)\<rparr>))"

definition on_heap :: "(world, 'a) act \<Rightarrow> ('d dbs, 'a) act" where
  "on_heap m s = (let (x, w) = m (ds_world s) in (x, s\<lparr>ds_world := w\<rparr>))"

definition log_error :: "string \<Rightarrow> gerror option \<Rightarrow> ('d dbs, unit) act" where
  "log_error msg e s = ret () (s\<lparr>ds_log := ds_log s @ [(msg, zap_error e)]\<rparr>)"

section \<open>Beginning, committing and rolling back\<close>

definition commit_tx :: "tx_env \<Rightarrow> nat \<Rightarrow> ('d dbs, gerror option) act" where
  "commit_tx env t =
     bind_act (sql_commit env t) (\<lambda>e.
     on_heap (propagate_as ''Commit'' KindDatabaseTransactionError e ''failed to commit transaction'' []))"

definition rollback_tx :: "tx_env \<Rightarrow> nat \<Rightarrow> ('d dbs, gerror option) act" where
  "rollback_tx env t =
     bind_act (sql_rollback env t) (\<lambda>e.
     on_heap (propagate_as ''Rollback'' KindDatabaseTransactionError e ''failed to rollback transaction'' []))"

definition transaction_of :: "go_ctx \<Rightarrow> nat option" where
  "transaction_of c = (case ctx_value c TransactionKey of Some (CVTx t) \<Rightarrow> Some t | _ \<Rightarrow> None)"

definition nop :: "('d dbs, gerror option) act" where
  "nop = ret None"

text \<open>The four results of \<open>BeginContext\<close>.\<close>

record 'd begun =
  bg_ctx :: go_ctx
  bg_commit :: "('d dbs, gerror option) act"
  bg_rollback :: "('d dbs, gerror option) act"
  bg_err :: "gerror option"

definition begin_context :: "tx_env \<Rightarrow> go_ctx \<Rightarrow> ('d dbs, 'd begun) act" where
  "begin_context env c =
     (if transaction_of c \<noteq> None then ret \<lparr>bg_ctx = c, bg_commit = nop, bg_rollback = nop, bg_err = None\<rparr>
      else bind_act (sql_begin env) (\<lambda>r. case r of
        Inl e \<Rightarrow>
          bind_act (on_heap (propagate_as ''BeginContext'' KindDatabaseTransactionError (Some e)
            ''failed to begin transaction'' []))
            (\<lambda>e'. ret \<lparr>bg_ctx = c, bg_commit = nop, bg_rollback = nop, bg_err = e'\<rparr>)
      | Inr t \<Rightarrow>
          ret \<lparr>bg_ctx = with_value c TransactionKey (CVTx t), bg_commit = commit_tx env t,
               bg_rollback = rollback_tx env t, bg_err = None\<rparr>))"

definition database_begin_context :: "tx_env \<Rightarrow> go_ctx \<Rightarrow> ('d dbs, 'd begun) act" where
  "database_begin_context env c =
     bind_act (begin_context env c) (\<lambda>b.
     bind_act (on_heap (propagate ''Database.BeginContext'' (bg_err b) ''failed to begin database transaction'' []))
       (\<lambda>e. ret (b\<lparr>bg_err := e\<rparr>)))"

section \<open>Storer.Transaction\<close>

text \<open>
  The two deferred functions: the one for errors runs first, and when the function panicked \<open>err\<close>
  is still nil, so only the one that recovers acts; it panics again with the same value. Should the
  rollback for an error panic, the other function recovers that panic and rolls back once more.
\<close>

definition rollback_and_log :: "string \<Rightarrow> 'd begun \<Rightarrow> ('d dbs, unit) act" where
  "rollback_and_log msg b =
     bind_act (bg_rollback b) (\<lambda>rerr.
       case rerr of None \<Rightarrow> ret () | Some _ \<Rightarrow> log_error msg rerr)"

definition panicking_rollback :: "string \<Rightarrow> 'd begun \<Rightarrow> ('d dbs, 'a) act" where
  "panicking_rollback p b =
     bind_act (rollback_and_log ''Failed to rollback transaction during panic handling'' b) (\<lambda>_. panic p)"

definition failing_rollback :: "gerror option \<Rightarrow> 'd begun \<Rightarrow> ('d dbs, gerror option) act" where
  "failing_rollback e b s =
     (case rollback_and_log ''Failed to rollback transaction during error handling'' b s of
        (Panic p, s') \<Rightarrow> panicking_rollback p b s'
      | (Ret _, s') \<Rightarrow> ret e s')"

definition after_function ::
  "'d begun \<Rightarrow> gerror option outcome \<times> 'd dbs \<Rightarrow> gerror option outcome \<times> 'd dbs" where
  "after_function b r =
     (case r of
        (Panic p, s) \<Rightarrow> panicking_rollback p b s
      | (Ret (Some e), s) \<Rightarrow>
          bind_act (on_heap (propagate ''Transaction#2'' (Some e) ''failed to execute transactional function'' []))
            (\<lambda>e'. failing_rollback e' b) s
      | (Ret None, s) \<Rightarrow>
          (case bg_commit b s of
             (Panic p, s') \<Rightarrow> panicking_rollback p b s'
           | (Ret None, s') \<Rightarrow> ret None s'
           | (Ret (Some e), s') \<Rightarrow>
               bind_act (on_heap (propagate ''Transaction#3'' (Some e)
                 ''storer failed to commit database transaction'' []))
                 (\<lambda>e'. failing_rollback e' b) s'))"

definition storer_transaction ::
  "(go_ctx \<Rightarrow> ('d dbs, 'd begun) act) \<Rightarrow> (go_ctx \<Rightarrow> ('d dbs, gerror option) act) \<Rightarrow> go_ctx
    \<Rightarrow> ('d dbs, gerror option) act" where
  "storer_transaction begin_ctx fn c =
     bind_act (begin_ctx c) (\<lambda>b.
       case bg_err b of
         Some e \<Rightarrow> on_heap (propagate ''Transaction#1'' (Some e) ''storer failed to begin database transaction'' [])
       | None \<Rightarrow> (\<lambda>s. after_function b (fn (bg_ctx b) s)))"

section \<open>What a store owes Storer.Transaction\<close>

definition heap_le :: "'d dbs \<Rightarrow> 'd dbs \<Rightarrow> bool" where
  "heap_le s s' \<longleftrightarrow> wf_world (ds_world s') \<and> world_le (ds_world s) (ds_world s')"

lemma heap_le_refl: "wf_world (ds_world s) \<Longrightarrow> heap_le s s"
  by (simp add: heap_le_def)

lemma heap_le_trans: "heap_le r s \<Longrightarrow> heap_le s t \<Longrightarrow> heap_le r t"
  by (auto simp: heap_le_def intro: world_le_trans)

lemma heap_le_wf: "heap_le s t \<Longrightarrow> wf_world (ds_world t)"
  by (simp add: heap_le_def)

definition commits :: "nat \<Rightarrow> ('d dbs, gerror option) act \<Rightarrow> bool" where
  "commits t m \<longleftrightarrow>
     (\<forall>s d. wf_world (ds_world s) \<longrightarrow> ds_txs s t = TxOpen d \<longrightarrow>
        (\<exists>r s'. m s = (Ret r, s') \<and> heap_le s s' \<and> ds_txs s' = (ds_txs s)(t := TxDone) \<and> ds_next s' = ds_next s
           \<and> (case r of
                None \<Rightarrow> ds_main s' = d
              | Some e \<Rightarrow> ds_main s' = ds_main s \<and> live_error (ds_world s') KindDatabaseTransactionError e)))"

definition rolls_back :: "nat \<Rightarrow> ('d dbs, gerror option) act \<Rightarrow> bool" where
  "rolls_back t m \<longleftrightarrow>
     (\<forall>s. wf_world (ds_world s) \<longrightarrow>
        (\<exists>r s'. m s = (Ret r, s') \<and> heap_le s s' \<and> ds_txs s' = (ds_txs s)(t := TxDone) \<and> ds_next s' = ds_next s
           \<and> ds_main s' = ds_main s))"

text \<open>
  The function given to \<open>Transaction\<close>: it works on the transaction of its context and on no other,
  and does not end it; it may fail or panic.
\<close>

definition works_within :: "(go_ctx \<Rightarrow> ('d dbs, gerror option) act) \<Rightarrow> bool" where
  "works_within fn \<longleftrightarrow>
     (\<forall>c s t d. wf_world (ds_world s) \<longrightarrow> transaction_of c = Some t \<longrightarrow> ds_txs s t = TxOpen d \<longrightarrow>
        (\<exists>r s' d'. fn c s = (r, s') \<and> heap_le s s' \<and> ds_main s' = ds_main s \<and> ds_next s' = ds_next s
           \<and> ds_txs s' = (ds_txs s)(t := TxOpen d') \<and> (\<forall>e. r = Ret (Some e) \<longrightarrow> good_error (ds_world s') e)))"

lemma on_heap_runs:
  assumes "runs (ds_world s) m Q"
  shows "\<exists>x s'. on_heap m s = (Ret x, s') \<and> heap_le s s' \<and> ds_main s' = ds_main s
    \<and> ds_txs s' = ds_txs s \<and> ds_next s' = ds_next s \<and> Q x (ds_world s')"
  using assms by (auto simp: runs_def on_heap_def heap_le_def split: prod.split)

lemma on_heap_propagate:
  assumes "wf_world (ds_world s)" and "good_error (ds_world s) e"
  shows "\<exists>e' s'. on_heap (propagate site (Some e) msg []) s = (Ret (Some e'), s') \<and> heap_le s s'
    \<and> ds_main s' = ds_main s \<and> ds_txs s' = ds_txs s \<and> ds_next s' = ds_next s \<and> good_error (ds_world s') e' \<and> unwrap e' = Some e
    \<and> error_kind e' = Some (case error_kind e of None \<Rightarrow> KindError | Some k \<Rightarrow> k)"
proof -
  let ?k = "case error_kind e of None \<Rightarrow> KindError | Some k \<Rightarrow> k"
  have "wrapped_kind ?k e = ?k" by (simp add: wrapped_kind_def split: option.split)
  moreover have "runs (ds_world s) (propagate site (Some e) msg []) (wraps ?k msg e)"
    by (rule runs_propagate) (use assms in simp_all)
  ultimately show ?thesis
    using on_heap_runs [of s "propagate site (Some e) msg []" "wraps ?k msg e"]
    by (fastforce simp: wraps_def dest: live_good)
qed

lemma rollback_and_log_run:
  assumes "rolls_back t (bg_rollback b)" and "wf_world (ds_world s)"
  shows "\<exists>s'. rollback_and_log msg b s = (Ret (), s') \<and> heap_le s s' \<and> ds_txs s' = (ds_txs s)(t := TxDone)
    \<and> ds_next s' = ds_next s \<and> ds_main s' = ds_main s"
proof -
  obtain r s' where "bg_rollback b s = (Ret r, s')" "heap_le s s'" "ds_txs s' = (ds_txs s)(t := TxDone)"
    "ds_next s' = ds_next s" "ds_main s' = ds_main s"
    using assms by (auto simp: rolls_back_def)
  then show ?thesis
    by (cases r) (auto simp: rollback_and_log_def bind_act_def ret_def log_error_def heap_le_def)
qed

lemma settles_open:
  fixes b :: "'d begun"
  assumes t: "ds_txs s2 t = TxOpen d" and wf: "wf_world (ds_world s2)"
    and c: "commits t (bg_commit b)" and rb: "rolls_back t (bg_rollback b)"
    and good: "\<forall>e. r = Ret (Some e) \<longrightarrow> good_error (ds_world s2) e"
  shows "\<exists>r' s'. after_function b (r, s2) = (r', s') \<and> heap_le s2 s' \<and> ds_txs s' = (ds_txs s2)(t := TxDone)
    \<and> ds_next s' = ds_next s2
    \<and> (case r of
         Panic p \<Rightarrow> r' = Panic p \<and> ds_main s' = ds_main s2
       | Ret (Some e) \<Rightarrow> ds_main s' = ds_main s2 \<and> (\<exists>e'. r' = Ret (Some e') \<and> unwrap e' = Some e)
       | Ret None \<Rightarrow> r' = Ret None \<and> ds_main s' = d
           \<or> ds_main s' = ds_main s2 \<and> (\<exists>e'. r' = Ret (Some e') \<and> error_kind e' = Some KindDatabaseTransactionError))"
proof -
  have fail: "\<exists>e' s'. bind_act (on_heap (propagate site (Some e) msg [])) (\<lambda>e'. failing_rollback e' b) x
      = (Ret (Some e'), s') \<and> heap_le x s' \<and> ds_txs s' = (ds_txs x)(t := TxDone) \<and> ds_next s' = ds_next x
      \<and> ds_main s' = ds_main x \<and> unwrap e' = Some e
      \<and> error_kind e' = Some (case error_kind e of None \<Rightarrow> KindError | Some k \<Rightarrow> k)"
    if "wf_world (ds_world x)" and "good_error (ds_world x) e" for site msg e and x :: "'d dbs"
  proof -
    note x = that
    obtain e' y where p: "on_heap (propagate site (Some e) msg []) x = (Ret (Some e'), y)" "heap_le x y"
        "ds_main y = ds_main x" "ds_txs y = ds_txs x" "ds_next y = ds_next x" "unwrap e' = Some e"
        "error_kind e' = Some (case error_kind e of None \<Rightarrow> KindError | Some k \<Rightarrow> k)"
      using on_heap_propagate [OF x] by blast
    obtain z where "rollback_and_log ''Failed to rollback transaction during error handling'' b y = (Ret (), z)"
        "heap_le y z" "ds_txs z = (ds_txs y)(t := TxDone)" "ds_next z = ds_next y" "ds_main z = ds_main y"
      using rollback_and_log_run [OF rb heap_le_wf [OF p(2)]] by blast
    then show ?thesis
      using p heap_le_trans [OF p(2)] by (auto simp: failing_rollback_def bind_act_def ret_def)
  qed
  show ?thesis
  proof (cases r)
    case (Panic p)
    obtain z where "rollback_and_log ''Failed to rollback transaction during panic handling'' b s2 = (Ret (), z)"
        "heap_le s2 z" "ds_txs z = (ds_txs s2)(t := TxDone)" "ds_next z = ds_next s2" "ds_main z = ds_main s2"
      using rollback_and_log_run [OF rb wf] by blast
    then show ?thesis
      by (simp add: Panic after_function_def panicking_rollback_def bind_act_def panic_def)
  next
    case (Ret o')
    show ?thesis
    proof (cases o')
      case (Some e)
      with good have "good_error (ds_world s2) e" by (simp add: Ret)
      from fail [OF wf this, of "''Transaction#2''" "''failed to execute transactional function''"]
      show ?thesis by (auto simp: Ret after_function_def Some)
    next
      case None
      obtain q s3 where cm: "bg_commit b s2 = (Ret q, s3)" "heap_le s2 s3" "ds_txs s3 = (ds_txs s2)(t := TxDone)"
          "ds_next s3 = ds_next s2" "case q of None \<Rightarrow> ds_main s3 = d
            | Some e \<Rightarrow> ds_main s3 = ds_main s2 \<and> live_error (ds_world s3) KindDatabaseTransactionError e"
        using c wf t unfolding commits_def by blast
      show ?thesis
      proof (cases q)
        case None
        then show ?thesis using cm \<open>o' = None\<close> by (simp add: Ret after_function_def ret_def)
      next
        case (Some e)
        with cm(5) have e: "live_error (ds_world s3) KindDatabaseTransactionError e" "ds_main s3 = ds_main s2"
          by simp_all
        have "heap_le s2 x" if "heap_le s3 x" for x using heap_le_trans [OF cm(2) that] .
        then show ?thesis
          using fail [OF heap_le_wf [OF cm(2)] live_good [OF e(1)],
              of "''Transaction#3''" "''storer failed to commit database transaction''"]
            cm(1,3,4) e(2) live_kind [OF e(1)] Some \<open>o' = None\<close>
          by (fastforce simp: Ret after_function_def)
      qed
    qed
  qed
qed

locale store_contract =
  fixes begin_ctx :: "go_ctx \<Rightarrow> ('d dbs, 'd begun) act"
  assumes nested: "transaction_of c = Some t \<Longrightarrow>
      begin_ctx c s = (Ret \<lparr>bg_ctx = c, bg_commit = nop, bg_rollback = nop, bg_err = None\<rparr>, s)"
    and outermost: "transaction_of c = None \<Longrightarrow> wf_world (ds_world s) \<Longrightarrow>
      \<exists>b s1. begin_ctx c s = (Ret b, s1) \<and> heap_le s s1 \<and> ds_main s1 = ds_main s
        \<and> (case bg_err b of
             Some e \<Rightarrow> ds_txs s1 = ds_txs s \<and> ds_next s1 = ds_next s
               \<and> live_error (ds_world s1) KindDatabaseTransactionError e
           | None \<Rightarrow> bg_ctx b = with_value c TransactionKey (CVTx (ds_next s))
               \<and> ds_txs s1 = (ds_txs s)(ds_next s := TxOpen (ds_main s)) \<and> ds_next s1 = Suc (ds_next s)
               \<and> commits (ds_next s) (bg_commit b) \<and> rolls_back (ds_next s) (bg_rollback b))"
begin

lemma nested_run:
  assumes "transaction_of c = Some t"
  shows "storer_transaction begin_ctx fn c s =
    (case fn c s of
       (Ret (Some e), s') \<Rightarrow>
         on_heap (propagate ''Transaction#2'' (Some e) ''failed to execute transactional function'' []) s'
     | r \<Rightarrow> r)"
proof -
  let ?b = "\<lparr>bg_ctx = c, bg_commit = nop, bg_rollback = nop, bg_err = None\<rparr> :: 'd begun"
  have nolog: "rollback_and_log msg ?b = ret ()" for msg by (simp add: rollback_and_log_def nop_def)
  have quiet: "panicking_rollback p ?b = panic p" for p :: string by (simp add: panicking_rollback_def nolog)
  have kept: "failing_rollback e ?b = ret e" for e by (rule ext) (simp add: failing_rollback_def nolog ret_def)
  have id: "bind_act m ret = m" for m :: "('d dbs, gerror option) act"
    by (auto simp: bind_act_def ret_def fun_eq_iff split: prod.split outcome.split)
  have nop_apply: "nop x = (Ret None, x)" for x :: "'d dbs" by (simp add: nop_def ret_def)
  have "storer_transaction begin_ctx fn c s = after_function ?b (fn c s)"
    by (simp add: storer_transaction_def bind_act_Ret [OF nested [OF assms]])
  then show ?thesis
    by (cases "fn c s") (auto simp: after_function_def quiet kept id panic_apply nop_apply ret_def
        split: outcome.split option.split)
qed

lemma works_within_nested:
  assumes "works_within fn"
  shows "works_within (storer_transaction begin_ctx fn)"
  unfolding works_within_def
proof (intro allI impI)
  fix c t d and s :: "'d dbs"
  assume wf: "wf_world (ds_world s)" and t: "transaction_of c = Some t" and d: "ds_txs s t = TxOpen d"
  obtain r s1 d1 where fn: "fn c s = (r, s1)" and s1: "heap_le s s1" "ds_main s1 = ds_main s"
      "ds_next s1 = ds_next s" "ds_txs s1 = (ds_txs s)(t := TxOpen d1)"
    and good: "\<forall>e. r = Ret (Some e) \<longrightarrow> good_error (ds_world s1) e"
    using assms wf t d unfolding works_within_def by blast
  show "\<exists>r s' d'. storer_transaction begin_ctx fn c s = (r, s') \<and> heap_le s s' \<and> ds_main s' = ds_main s
      \<and> ds_next s' = ds_next s \<and> ds_txs s' = (ds_txs s)(t := TxOpen d')
      \<and> (\<forall>e. r = Ret (Some e) \<longrightarrow> good_error (ds_world s') e)"
  proof (cases "\<exists>e. r = Ret (Some e)")
    case False
    then have "storer_transaction begin_ctx fn c s = (r, s1)"
      unfolding nested_run [OF t] fn by (auto split: outcome.split option.split)
    then show ?thesis using s1 False by blast
  next
    case True
    then obtain e where e: "r = Ret (Some e)" by blast
    obtain e' s' where p: "on_heap (propagate ''Transaction#2'' (Some e)
        ''failed to execute transactional function'' []) s1 = (Ret (Some e'), s')" "heap_le s1 s'"
        "ds_main s' = ds_main s1" "ds_txs s' = ds_txs s1" "ds_next s' = ds_next s1" "good_error (ds_world s') e'"
      using on_heap_propagate [OF heap_le_wf [OF s1(1)]] good e by blast
    then have "storer_transaction begin_ctx fn c s = (Ret (Some e'), s')"
      unfolding nested_run [OF t] fn by (simp add: e)
    then show ?thesis using s1 p(3-6) heap_le_trans [OF s1(1) p(2)] by (auto intro!: exI [of _ d1])
  qed
qed

lemma outermost_run:
  assumes none: "transaction_of c = None" and wf: "wf_world (ds_world s)" and fn: "works_within fn"
  shows "\<exists>r s'. storer_transaction begin_ctx fn c s = (r, s') \<and> heap_le s s' \<and>
    (ds_main s' = ds_main s \<and> ds_txs s' = ds_txs s
       \<and> (\<exists>e. r = Ret (Some e) \<and> error_kind e = Some KindDatabaseTransactionError)
     \<or> ds_txs s' = (ds_txs s)(ds_next s := TxDone)
       \<and> (\<exists>s1 q s2 d. heap_le s s1 \<and> ds_txs s1 = (ds_txs s)(ds_next s := TxOpen (ds_main s))
           \<and> fn (with_value c TransactionKey (CVTx (ds_next s))) s1 = (q, s2) \<and> ds_txs s2 (ds_next s) = TxOpen d
           \<and> (case q of
                Panic p \<Rightarrow> r = Panic p \<and> ds_main s' = ds_main s
              | Ret (Some e) \<Rightarrow> ds_main s' = ds_main s \<and> (\<exists>e'. r = Ret (Some e') \<and> unwrap e' = Some e)
              | Ret None \<Rightarrow> r = Ret None \<and> ds_main s' = d
                  \<or> ds_main s' = ds_main s
                    \<and> (\<exists>e'. r = Ret (Some e') \<and> error_kind e' = Some KindDatabaseTransactionError))))"
proof -
  let ?t = "ds_next s"
  obtain b s1 where bg: "begin_ctx c s = (Ret b, s1)" and s1: "heap_le s s1" "ds_main s1 = ds_main s"
    and cs: "case bg_err b of
             Some e \<Rightarrow> ds_txs s1 = ds_txs s \<and> ds_next s1 = ds_next s
               \<and> live_error (ds_world s1) KindDatabaseTransactionError e
           | None \<Rightarrow> bg_ctx b = with_value c TransactionKey (CVTx (ds_next s))
               \<and> ds_txs s1 = (ds_txs s)(ds_next s := TxOpen (ds_main s)) \<and> ds_next s1 = Suc (ds_next s)
               \<and> commits (ds_next s) (bg_commit b) \<and> rolls_back (ds_next s) (bg_rollback b)"
    using outermost [OF none wf] by blast
  show ?thesis
  proof (cases "bg_err b")
    case (Some e)
    with cs have e: "live_error (ds_world s1) KindDatabaseTransactionError e" "ds_txs s1 = ds_txs s" by simp_all
    obtain e' s' where "on_heap (propagate ''Transaction#1'' (Some e)
          ''storer failed to begin database transaction'' []) s1 = (Ret (Some e'), s')" "heap_le s1 s'"
        "ds_main s' = ds_main s1" "ds_txs s' = ds_txs s1" "error_kind e' = Some KindDatabaseTransactionError"
      using on_heap_propagate [OF heap_le_wf [OF s1(1)] live_good [OF e(1)]] live_kind [OF e(1)] by fastforce
    then show ?thesis
      using bg Some s1 e(2) heap_le_trans [OF s1(1)] by (auto simp: storer_transaction_def bind_act_def)
  next
    case None
    with cs have b: "bg_ctx b = with_value c TransactionKey (CVTx ?t)" "ds_txs s1 = (ds_txs s)(?t := TxOpen (ds_main s))"
        "commits ?t (bg_commit b)" "rolls_back ?t (bg_rollback b)"
      by simp_all
    have "transaction_of (bg_ctx b) = Some ?t" by (simp add: b(1) transaction_of_def)
    moreover have "ds_txs s1 ?t = TxOpen (ds_main s)" by (simp add: b(2))
    ultimately obtain q s2 d where f: "fn (bg_ctx b) s1 = (q, s2)" "heap_le s1 s2" "ds_main s2 = ds_main s1"
        "ds_txs s2 = (ds_txs s1)(?t := TxOpen d)" "\<forall>e. q = Ret (Some e) \<longrightarrow> good_error (ds_world s2) e"
      using fn heap_le_wf [OF s1(1)] unfolding works_within_def by blast
    have d: "ds_txs s2 ?t = TxOpen d" by (simp add: f(4))
    obtain r s' where r: "after_function b (q, s2) = (r, s')" "heap_le s2 s'" "ds_txs s' = (ds_txs s2)(?t := TxDone)"
      and out: "case q of
         Panic p \<Rightarrow> r = Panic p \<and> ds_main s' = ds_main s2
       | Ret (Some e) \<Rightarrow> ds_main s' = ds_main s2 \<and> (\<exists>e'. r = Ret (Some e') \<and> unwrap e' = Some e)
       | Ret None \<Rightarrow> r = Ret None \<and> ds_main s' = d
           \<or> ds_main s' = ds_main s2 \<and> (\<exists>e'. r = Ret (Some e') \<and> error_kind e' = Some KindDatabaseTransactionError)"
      using settles_open [OF d heap_le_wf [OF f(2)] b(3,4) f(5)] by blast
    have run: "storer_transaction begin_ctx fn c s = (r, s')"
      using bg None f(1) r(1) by (simp add: storer_transaction_def bind_act_def)
    have main: "ds_main s2 = ds_main s" using f(3) s1(2) by simp
    have txs: "ds_txs s' = (ds_txs s)(?t := TxDone)" using r(3) f(4) b(2) by simp
    have le: "heap_le s s'" using heap_le_trans [OF heap_le_trans [OF s1(1) f(2)] r(2)] .
    have out': "case q of
         Panic p \<Rightarrow> r = Panic p \<and> ds_main s' = ds_main s
       | Ret (Some e) \<Rightarrow> ds_main s' = ds_main s \<and> (\<exists>e'. r = Ret (Some e') \<and> unwrap e' = Some e)
       | Ret None \<Rightarrow> r = Ret None \<and> ds_main s' = d
           \<or> ds_main s' = ds_main s \<and> (\<exists>e'. r = Ret (Some e') \<and> error_kind e' = Some KindDatabaseTransactionError)"
      using out unfolding main .
    show ?thesis
      apply (rule exI [of _ r], rule exI [of _ s'], rule conjI [OF run], rule conjI [OF le], rule disjI2,
          rule conjI [OF txs])
      apply (rule exI [of _ s1], rule exI [of _ q], rule exI [of _ s2], rule exI [of _ d])
      using b(1,2) f(1) d out' s1(1) by simp
  qed
qed

end

section \<open>Database.BeginContext keeps the contract\<close>

lemma on_heap_tx_error:
  assumes "wf_world (ds_world s)" and "error_kind e = None"
  shows "\<exists>e' s'. on_heap (propagate_as site KindDatabaseTransactionError (Some e) msg []) s = (Ret (Some e'), s')
    \<and> heap_le s s' \<and> ds_main s' = ds_main s \<and> ds_txs s' = ds_txs s \<and> ds_next s' = ds_next s
    \<and> live_error (ds_world s') KindDatabaseTransactionError e'"
proof -
  have "good_error (ds_world s) e" using assms(2) by (cases e) (simp_all add: good_error_def)
  then have "runs (ds_world s) (propagate_as site KindDatabaseTransactionError (Some e) msg [])
      (wraps KindDatabaseTransactionError msg e)"
    by (intro runs_propagate_as) (use assms(1) in simp_all)
  moreover have "wrapped_kind KindDatabaseTransactionError e = KindDatabaseTransactionError"
    using assms(2) by (simp add: wrapped_kind_def)
  ultimately show ?thesis
    using on_heap_runs [of s "propagate_as site KindDatabaseTransactionError (Some e) msg []"]
    by (fastforce simp: wraps_def)
qed

lemma commits_commit_tx: "commits t (commit_tx env t)"
  unfolding commits_def
proof (intro allI impI)
  fix s :: "'d dbs" and d
  assume wf: "wf_world (ds_world s)" and t: "ds_txs s t = TxOpen d"
  show "\<exists>r s'. commit_tx env t s = (Ret r, s') \<and> heap_le s s' \<and> ds_txs s' = (ds_txs s)(t := TxDone)
      \<and> ds_next s' = ds_next s \<and> (case r of
          None \<Rightarrow> ds_main s' = d
        | Some e \<Rightarrow> ds_main s' = ds_main s \<and> live_error (ds_world s') KindDatabaseTransactionError e)"
  proof (cases "te_commit env t")
    case None
    then show ?thesis
      using wf t by (simp add: commit_tx_def sql_commit_def bind_act_def ret_def on_heap_def propagate_as_def heap_le_def)
  next
    case (Some e)
    let ?s = "s\<lparr>ds_txs := (ds_txs s)(t := TxDone)\<rparr>"
    from on_heap_tx_error [of ?s, OF _ sql_error_kind [of e], of "''Commit''" "''failed to commit transaction''"] wf
    show ?thesis
      using Some t by (fastforce simp: commit_tx_def sql_commit_def bind_act_def ret_def heap_le_def)
  qed
qed

lemma rolls_back_rollback_tx: "rolls_back t (rollback_tx env t)"
  unfolding rolls_back_def
proof (intro allI impI)
  fix s :: "'d dbs"
  assume wf: "wf_world (ds_world s)"
  let ?s = "s\<lparr>ds_txs := (ds_txs s)(t := TxDone)\<rparr>"
  have sql: "\<exists>e. sql_rollback env t s = (Ret e, ?s) \<and> (\<forall>x. e = Some x \<longrightarrow> error_kind x = None)"
  proof (cases "ds_txs s t")
    case (TxOpen d)
    then show ?thesis by (auto simp: sql_rollback_def ret_def)
  next
    case TxDone
    then have "(ds_txs s)(t := TxDone) = ds_txs s" by (metis fun_upd_triv)
    then show ?thesis using TxDone by (simp add: sql_rollback_def ret_def ErrTxDone_def)
  qed
  then obtain e where e: "sql_rollback env t s = (Ret e, ?s)" "\<forall>x. e = Some x \<longrightarrow> error_kind x = None" by blast
  show "\<exists>r s'. rollback_tx env t s = (Ret r, s') \<and> heap_le s s' \<and> ds_txs s' = (ds_txs s)(t := TxDone)
      \<and> ds_next s' = ds_next s \<and> ds_main s' = ds_main s"
  proof (cases e)
    case None
    then show ?thesis
      using wf e by (simp add: rollback_tx_def bind_act_def on_heap_def propagate_as_def ret_def heap_le_def)
  next
    case (Some x)
    have "error_kind x = None" using e(2) Some by simp
    from on_heap_tx_error [of ?s, OF _ this, of "''Rollback''" "''failed to rollback transaction''"] wf
    show ?thesis using Some e(1) by (fastforce simp: rollback_tx_def bind_act_def heap_le_def)
  qed
qed

interpretation database_store: store_contract "database_begin_context env" for env
proof
  fix c t and s :: "'d dbs"
  assume "transaction_of c = Some t"
  then show "database_begin_context env c s
      = (Ret \<lparr>bg_ctx = c, bg_commit = nop, bg_rollback = nop, bg_err = None\<rparr>, s)"
    by (simp add: database_begin_context_def begin_context_def bind_act_def ret_def on_heap_def propagate_def)
next
  fix c and s :: "'d dbs"
  assume none: "transaction_of c = None" and wf: "wf_world (ds_world s)"
  show "\<exists>b s1. database_begin_context env c s = (Ret b, s1) \<and> heap_le s s1 \<and> ds_main s1 = ds_main s
        \<and> (case bg_err b of
             Some e \<Rightarrow> ds_txs s1 = ds_txs s \<and> ds_next s1 = ds_next s
               \<and> live_error (ds_world s1) KindDatabaseTransactionError e
           | None \<Rightarrow> bg_ctx b = with_value c TransactionKey (CVTx (ds_next s))
               \<and> ds_txs s1 = (ds_txs s)(ds_next s := TxOpen (ds_main s)) \<and> ds_next s1 = Suc (ds_next s)
               \<and> commits (ds_next s) (bg_commit b) \<and> rolls_back (ds_next s) (bg_rollback b))"
  proof (cases "te_begin env (ds_next s)")
    case None
    then show ?thesis
      using none wf
      by (simp add: database_begin_context_def begin_context_def sql_begin_def bind_act_def ret_def
          on_heap_def propagate_def heap_le_def commits_commit_tx rolls_back_rollback_tx)
  next
    case (Some e)
    from on_heap_tx_error [OF wf sql_error_kind [of e], of "''BeginContext''" "''failed to begin transaction''"]
    obtain e1 s1 where p: "on_heap (propagate_as ''BeginContext'' KindDatabaseTransactionError (Some (sql_error e))
          ''failed to begin transaction'' []) s = (Ret (Some e1), s1)" "heap_le s s1" "ds_main s1 = ds_main s"
        "ds_txs s1 = ds_txs s" "ds_next s1 = ds_next s" "live_error (ds_world s1) KindDatabaseTransactionError e1"
      by blast
    have good: "good_error (ds_world s1) e1" using p(6) by (rule live_good)
    have "runs (ds_world s1) (propagate ''Database.BeginContext'' (Some e1)
        ''failed to begin database transaction'' []) (wraps KindDatabaseTransactionError ''failed to begin database transaction'' e1)"
      using runs_propagate [OF heap_le_wf [OF p(2)] _ good, of "[]"] live_kind [OF p(6)] by simp
    from on_heap_runs [OF this]
    obtain e2 s2 where q: "on_heap (propagate ''Database.BeginContext'' (Some e1)
        ''failed to begin database transaction'' []) s1 = (Ret (Some e2), s2)" "heap_le s1 s2"
        "ds_main s2 = ds_main s1" "ds_txs s2 = ds_txs s1" "ds_next s2 = ds_next s1"
        "live_error (ds_world s2) KindDatabaseTransactionError e2"
      using wrapped_kind_self [OF live_kind [OF p(6)]] by (fastforce simp: wraps_def)
    have "sql_begin env s = (Ret (Inl (sql_error e)), s)" using Some by (simp add: sql_begin_def ret_def)
    then have "database_begin_context env c s
        = (Ret \<lparr>bg_ctx = c, bg_commit = nop, bg_rollback = nop, bg_err = Some e2\<rparr>, s2)"
      using none p(1) q(1)
      by (simp add: database_begin_context_def begin_context_def bind_act_def ret_def)
    then show ?thesis using p q heap_le_trans [OF p(2) q(2)] by simp
  qed
qed

section \<open>Transactions are atomic\<close>

text \<open>
  C5: A transaction is all or nothing, and is always ended. For a function that works within the
  transaction of its context, Storer.Transaction on a context without one either fails to begin,
  with a transaction error and nothing changed, or runs the function once on a transaction that
  starts from the committed contents and has ended afterwards. The database then holds exactly what
  the function left in it when the function returned no error and the commit succeeded, and
  otherwise what it held before: after an error, which is returned as the cause, after a panic,
  which is raised again with the same value, and after a failed commit, which is reported as a
  transaction error.
\<close>

theorem transaction_atomic:
  fixes s :: "'d dbs"
  assumes "transaction_of c = None" and "wf_world (ds_world s)" and "works_within fn"
  shows "\<exists>r s'. storer_transaction (database_begin_context env) fn c s = (r, s') \<and> wf_world (ds_world s') \<and>
    (ds_main s' = ds_main s \<and> ds_txs s' = ds_txs s
       \<and> (\<exists>e. r = Ret (Some e) \<and> error_kind e = Some KindDatabaseTransactionError)
     \<or> ds_txs s' = (ds_txs s)(ds_next s := TxDone)
       \<and> (\<exists>s1 q s2 d. ds_txs s1 = (ds_txs s)(ds_next s := TxOpen (ds_main s))
           \<and> fn (with_value c TransactionKey (CVTx (ds_next s))) s1 = (q, s2) \<and> ds_txs s2 (ds_next s) = TxOpen d
           \<and> (case q of
                Panic p \<Rightarrow> r = Panic p \<and> ds_main s' = ds_main s
              | Ret (Some e) \<Rightarrow> ds_main s' = ds_main s \<and> (\<exists>e'. r = Ret (Some e') \<and> unwrap e' = Some e)
              | Ret None \<Rightarrow> r = Ret None \<and> ds_main s' = d
                  \<or> ds_main s' = ds_main s
                    \<and> (\<exists>e'. r = Ret (Some e') \<and> error_kind e' = Some KindDatabaseTransactionError))))"
  using database_store.outermost_run [OF assms, of env] heap_le_wf by blast

text \<open>A function that writes, and one that writes and then panics, over a database that is a number.\<close>

definition tx_write :: "int \<Rightarrow> go_ctx \<Rightarrow> (int dbs, unit) act" where
  "tx_write v c s =
     (case transaction_of c of
        Some t \<Rightarrow> ret () (s\<lparr>ds_txs := (ds_txs s)(t := TxOpen v)\<rparr>)
      | None \<Rightarrow> ret () (s\<lparr>ds_main := v\<rparr>))"

definition write_then_panic :: "go_ctx \<Rightarrow> (int dbs, gerror option) act" where
  "write_then_panic c = bind_act (tx_write 7 c) (\<lambda>_. panic ''boom'')"

definition start_db :: "int dbs" where
  "start_db = \<lparr>ds_world = init_world empty_registry (\<lambda>_. []), ds_main = 5, ds_txs = (\<lambda>_. TxDone), ds_next = 0,
     ds_log = []\<rparr>"

definition calm_env :: tx_env where
  "calm_env = \<lparr>te_begin = Map.empty, te_commit = Map.empty, te_rollback = Map.empty\<rparr>"

lemma works_within_panic: "works_within write_then_panic"
  unfolding works_within_def
proof (intro allI impI)
  fix c t d and s :: "int dbs"
  assume "wf_world (ds_world s)" and "transaction_of c = Some t" and "ds_txs s t = TxOpen d"
  then show "\<exists>r s' d'. write_then_panic c s = (r, s') \<and> heap_le s s' \<and> ds_main s' = ds_main s
      \<and> ds_next s' = ds_next s \<and> ds_txs s' = (ds_txs s)(t := TxOpen d')
      \<and> (\<forall>e. r = Ret (Some e) \<longrightarrow> good_error (ds_world s') e)"
    by (auto simp: write_then_panic_def tx_write_def bind_act_def ret_def panic_def heap_le_def)
qed

theorem transaction_atomic_witness:
  "\<exists>s'. storer_transaction (database_begin_context calm_env) write_then_panic background start_db
      = (Panic ''boom'', s') \<and> ds_main s' = 5 \<and> ds_txs s' 0 = TxDone"
proof -
  have c: "transaction_of background = None" by (simp add: transaction_of_def background_def)
  have wf: "wf_world (ds_world start_db)" by (simp add: start_db_def wf_init_world)
  have run: "fst (write_then_panic x s) = Panic ''boom''" for x s
    by (simp add: write_then_panic_def tx_write_def bind_act_def ret_def panic_def split: option.split)
  have "te_begin calm_env = Map.empty" by (simp add: calm_env_def)
  then have fst_run: "\<exists>s'. storer_transaction (database_begin_context calm_env) write_then_panic background start_db
      = (Panic ''boom'', s')"
    using c by (simp add: storer_transaction_def database_begin_context_def begin_context_def sql_begin_def
        bind_act_def ret_def on_heap_def propagate_def write_then_panic_def tx_write_def panic_def
        transaction_of_def after_function_def panicking_rollback_def rollback_and_log_def rollback_tx_def
        sql_rollback_def calm_env_def propagate_as_def)
  have vals: "ds_main start_db = 5" "ds_next start_db = 0" by (simp_all add: start_db_def)
  obtain s' where e: "storer_transaction (database_begin_context calm_env) write_then_panic background start_db
      = (Panic ''boom'', s')"
    using fst_run by blast
  have runD: "q = Panic ''boom''" if "write_then_panic x s = (q, s2)" for x s q s2
    using run [of x s] that by simp
  from transaction_atomic [OF c wf works_within_panic, of calm_env]
  have "ds_main s' = 5 \<and> ds_txs s' 0 = TxDone"
    unfolding e by (auto simp: vals dest!: runD)
  with e show ?thesis by blast
qed

text \<open>
  A nested transaction joins the outer one. On a context that carries a transaction,
  Storer.Transaction neither begins, commits nor rolls back anything: it runs the function in that
  transaction, passes its success and its panic through unchanged, and wraps its error. So what
  the function did before it failed stays in the transaction, and the outer call decides.
\<close>

theorem nested_transaction_joins:
  fixes s :: "'d dbs"
  assumes "transaction_of c = Some t" and "wf_world (ds_world s)" and "works_within fn"
    and "ds_txs s t = TxOpen d" and "fn c s = (q, s1)"
  shows "\<exists>r s'. storer_transaction (database_begin_context env) fn c s = (r, s')
    \<and> ds_main s' = ds_main s \<and> ds_txs s' = ds_txs s1 \<and> (\<exists>d'. ds_txs s' t = TxOpen d')
    \<and> (case q of
         Ret (Some e) \<Rightarrow> \<exists>e'. r = Ret (Some e') \<and> unwrap e' = Some e
       | _ \<Rightarrow> r = q \<and> s' = s1)"
proof -
  obtain d' where s1: "heap_le s s1" "ds_main s1 = ds_main s" "ds_txs s1 = (ds_txs s)(t := TxOpen d')"
    and good: "\<forall>e. q = Ret (Some e) \<longrightarrow> good_error (ds_world s1) e"
    using assms unfolding works_within_def by fastforce
  note run = database_store.nested_run [OF assms(1), of env fn s, unfolded assms(5)]
  show ?thesis
  proof (cases "\<exists>e. q = Ret (Some e)")
    case True
    then obtain e where e: "q = Ret (Some e)" by blast
    have g: "good_error (ds_world s1) e" using good e by simp
    show ?thesis
      using on_heap_propagate [OF heap_le_wf [OF s1(1)] g] run s1 e by fastforce
  next
    case False
    then have "storer_transaction (database_begin_context env) fn c s = (q, s1)"
      using run by (auto split: outcome.splits option.splits)
    then show ?thesis using s1 False by (auto split: outcome.split option.split)
  qed
qed

theorem nested_transaction_joins_witness:
  "\<exists>r s'. storer_transaction (database_begin_context calm_env) write_then_panic
      (with_value background TransactionKey (CVTx 0)) (start_db\<lparr>ds_txs := (\<lambda>_. TxOpen 5)\<rparr>) = (r, s')
    \<and> ds_main s' = 5 \<and> (\<exists>d'. ds_txs s' 0 = TxOpen d')"
proof -
  let ?c = "with_value background TransactionKey (CVTx 0)" and ?s = "start_db\<lparr>ds_txs := (\<lambda>_. TxOpen 5)\<rparr>"
  have c: "transaction_of ?c = Some 0" by (simp add: transaction_of_def)
  have wf: "wf_world (ds_world ?s)" by (simp add: start_db_def wf_init_world)
  have o: "ds_txs ?s 0 = TxOpen 5" "ds_main ?s = 5" by (simp_all add: start_db_def)
  show ?thesis
    using nested_transaction_joins [OF c wf works_within_panic o(1) surjective_pairing, of calm_env] o(2)
    by auto
qed

end
