(* ===== verification/Store_Ops.thy ===== *)
theory Store_Ops
  imports Tx
begin

text \<open>
  The operations of a store (\<open>database/database.go\<close>): which executor runs a query, and how every
  outcome of the database becomes an error of the library.
\<close>

section \<open>Executors and the driver\<close>

text \<open>The transaction of the context, or else the connection pool, where each query commits itself.\<close>

datatype executor = ViaTx nat | ViaPool

definition executor_of :: "go_ctx \<Rightarrow> executor" where
  "executor_of c = (case transaction_of c of Some t \<Rightarrow> ViaTx t | None \<Rightarrow> ViaPool)"

text \<open>
  How a call of the driver fails: with a \<open>*pgconn.PgError\<close> and its SQLSTATE, with \<open>sql.ErrNoRows\<close> or
  an error that wraps it, or otherwise.
\<close>

datatype db_failure = PgError string string | NoRows string | OtherFailure string string

fun failure_error :: "db_failure \<Rightarrow> gerror" where
  "failure_error (PgError code m) = ForeignErr ''*pgconn.PgError'' m None None"
| "failure_error (NoRows m) = ForeignErr ''*errors.errorString'' m None None"
| "failure_error (OtherFailure t m) = ForeignErr t m None None"

lemma failure_error_kind [simp]: "error_kind (failure_error f) = None"
  by (cases f) simp_all

text \<open>
  What the driver makes of a query on the contents of the database. The rows of a named query are
  their first one, if any, as \<open>StructScan\<close> reads it; an executed query affects a number of rows,
  which the driver may be unable to tell.
\<close>

record 'd driver =
  dr_named_query :: "string \<Rightarrow> gval \<Rightarrow> 'd \<Rightarrow> (db_failure + (db_failure + gval) option) \<times> 'd"
  dr_select :: "string \<Rightarrow> gval list \<Rightarrow> 'd \<Rightarrow> (db_failure + gval list) \<times> 'd"
  dr_exec :: "string \<Rightarrow> gval list \<Rightarrow> 'd \<Rightarrow> (db_failure + (db_failure + int)) \<times> 'd"
  dr_named_exec :: "string \<Rightarrow> gval \<Rightarrow> 'd \<Rightarrow> (db_failure + (db_failure + int)) \<times> 'd"
  dr_get :: "string \<Rightarrow> gval list \<Rightarrow> 'd \<Rightarrow> (db_failure + gval) \<times> 'd"

definition run_on :: "executor \<Rightarrow> ('d \<Rightarrow> (db_failure + 'x) \<times> 'd) \<Rightarrow> ('d dbs, db_failure + 'x) act" where
  "run_on ex f s =
     (case ex of
        ViaPool \<Rightarrow> (let (x, d) = f (ds_main s) in ret x (s\<lparr>ds_main := d\<rparr>))
      | ViaTx t \<Rightarrow>
          (case ds_txs s t of
             TxOpen d \<Rightarrow> (let (x, d') = f d in ret x (s\<lparr>ds_txs := (ds_txs s)(t := TxOpen d')\<rparr>))
           | TxDone \<Rightarrow> ret (Inl (OtherFailure ''*errors.errorString''
               ''sql: transaction has already been committed or rolled back'')) s))"

section \<open>Reporting\<close>

definition entry_opt :: "string \<Rightarrow> field_entry list \<Rightarrow> 'd dbs \<Rightarrow> opt" where
  "entry_opt site fs s = context_opt (context_new (stack_at (ds_world s) site) fs)"

definition sql_fail ::
  "string \<Rightarrow> kind \<Rightarrow> db_failure \<Rightarrow> string \<Rightarrow> opt list \<Rightarrow> ('d dbs, gerror option) act" where
  "sql_fail site k f msg opts = on_heap (propagate_as site k (Some (failure_error f)) msg opts)"

definition fail_new :: "string \<Rightarrow> kind \<Rightarrow> string \<Rightarrow> opt list \<Rightarrow> ('d dbs, gerror option) act" where
  "fail_new site k msg opts = bind_act (on_heap (new_error site k msg opts)) (\<lambda>e. ret (Some e))"

definition NOT_FOUND_HINT :: string where
  "NOT_FOUND_HINT = ''Check if the reference of this resource is right and if exists.''"

definition UNIQUE_HINT :: string where
  "UNIQUE_HINT = ''Another resource with similar parameters already exists in our system. ''
     @ ''Please change the parameters and try again.''"

definition NOT_NULL_HINT :: string where
  "NOT_NULL_HINT = ''You'' @ [CHR 0x27] @ ''re trying to create a new resource but some parameters are missing. ''
     @ ''Please, check the documentation to clarify which parameters are necessary and try again.''"

section \<open>The operations\<close>

text \<open>Each returns its error and what it wrote to the resource it was given, if it did.\<close>

definition create_failure :: "db_failure \<Rightarrow> opt \<Rightarrow> ('d dbs, gerror option) act" where
  "create_failure f ectx =
     (case f of
        PgError code m \<Rightarrow>
          if code = ''23505'' then
            sql_fail ''Create#1'' KindUserError f ''resource already exists'' [hint_opt UNIQUE_HINT, ectx]
          else if code = ''23502'' then
            sql_fail ''Create#2'' KindUserError f ''missing required field'' [hint_opt NOT_NULL_HINT, ectx]
          else sql_fail ''Create#3'' KindSystemError f ''unexpected database constraint error'' [ectx]
      | _ \<Rightarrow> sql_fail ''Create#4'' KindSystemError f ''failed to insert resource'' [ectx])"

fun create_report ::
  "opt \<Rightarrow> db_failure + (db_failure + gval) option \<Rightarrow> ('d dbs, gerror option \<times> gval option) act" where
  "create_report ectx (Inl f) = bind_act (create_failure f ectx) (\<lambda>e. ret (e, None))"
| "create_report ectx (Inr (Some (Inl f))) =
     bind_act (sql_fail ''Create#5'' KindSystemError f ''failed to scan returned resource'' [ectx])
       (\<lambda>e. ret (e, None))"
| "create_report ectx (Inr (Some (Inr v))) = ret (None, Some v)"
| "create_report ectx (Inr None) =
     bind_act (fail_new ''Create#6'' KindSystemError
       ''no rows returned while scanning resource during creation'' [ectx]) (\<lambda>e. ret (e, None))"

definition db_create ::
  "'d driver \<Rightarrow> go_ctx \<Rightarrow> string \<Rightarrow> gval \<Rightarrow> ('d dbs, gerror option \<times> gval option) act" where
  "db_create dr c query resource s =
     (let ectx = entry_opt ''Create'' [Field ''query'' (VStr query), Field ''resource_name'' resource] s in
      bind_act (run_on (executor_of c) (dr_named_query dr query resource)) (create_report ectx) s)"

definition exec_result ::
  "string \<Rightarrow> string \<Rightarrow> opt \<Rightarrow> db_failure + 'x \<Rightarrow> ('d dbs, gerror option \<times> 'x option) act" where
  "exec_result site msg ectx r =
     (case r of
        Inl f \<Rightarrow> bind_act (sql_fail site KindSystemError f msg [ectx]) (\<lambda>e. ret (e, None))
      | Inr x \<Rightarrow> ret (None, Some x))"

definition db_list ::
  "'d driver \<Rightarrow> go_ctx \<Rightarrow> string \<Rightarrow> gval list \<Rightarrow> ('d dbs, gerror option \<times> gval list option) act" where
  "db_list dr c query args s =
     (let ectx = entry_opt ''List'' [Field ''query'' (VStr query)] s in
      bind_act (run_on (executor_of c) (dr_select dr query args))
        (exec_result ''List'' ''failed to select resources'' ectx) s)"

definition affected_rows ::
  "string \<Rightarrow> string \<Rightarrow> string \<Rightarrow> opt \<Rightarrow> db_failure + (db_failure + int) \<Rightarrow> ('d dbs, gerror option) act" where
  "affected_rows site exec_msg rows_msg ectx r =
     (case r of
        Inl f \<Rightarrow> sql_fail (site @ ''#1'') KindSystemError f exec_msg [ectx]
      | Inr (Inl f) \<Rightarrow> sql_fail (site @ ''#2'') KindSystemError f rows_msg [ectx]
      | Inr (Inr n) \<Rightarrow>
          if n < 1 then fail_new (site @ ''#3'') KindNotFoundError ''resource not found'' [hint_opt NOT_FOUND_HINT, ectx]
          else ret None)"

definition db_delete :: "'d driver \<Rightarrow> go_ctx \<Rightarrow> string \<Rightarrow> gval list \<Rightarrow> ('d dbs, gerror option) act" where
  "db_delete dr c query args s =
     (let ectx = entry_opt ''Delete'' [Field ''query'' (VStr query), Field ''args'' (VList args)] s in
      bind_act (run_on (executor_of c) (dr_exec dr query args))
        (affected_rows ''Delete'' ''failed to execute delete query''
           ''failed to get affected rows while deleting resource'' ectx) s)"

definition db_update :: "'d driver \<Rightarrow> go_ctx \<Rightarrow> string \<Rightarrow> gval list \<Rightarrow> ('d dbs, gerror option) act" where
  "db_update dr c query args s =
     (let ectx = entry_opt ''Update'' [Field ''query'' (VStr query), Field ''args'' (VList args)] s in
      bind_act (run_on (executor_of c) (dr_exec dr query args))
        (affected_rows ''Update'' ''failed to execute query while updating resource''
           ''failed to get affected rows while updating resource'' ectx) s)"

fun read_report :: "opt \<Rightarrow> db_failure + gval \<Rightarrow> ('d dbs, gerror option \<times> gval option) act" where
  "read_report ectx (Inl (NoRows m)) =
     bind_act (fail_new ''Read#1'' KindNotFoundError ''resource not found'' [hint_opt NOT_FOUND_HINT, ectx])
       (\<lambda>e. ret (e, None))"
| "read_report ectx (Inl f) =
     bind_act (sql_fail ''Read#2'' KindSystemError f ''failed to read dataset from database'' [ectx])
       (\<lambda>e. ret (e, None))"
| "read_report ectx (Inr v) = ret (None, Some v)"

definition db_read ::
  "'d driver \<Rightarrow> go_ctx \<Rightarrow> string \<Rightarrow> gval list \<Rightarrow> ('d dbs, gerror option \<times> gval option) act" where
  "db_read dr c query args s =
     (let ectx = entry_opt ''Read'' [Field ''query'' (VStr query), Field ''args'' (VList args)] s in
      bind_act (run_on (executor_of c) (dr_get dr query args)) (read_report ectx) s)"

text \<open>The results of executed queries: a \<open>sql.Result\<close>, or nil with the error.\<close>

definition db_raw_exec ::
  "'d driver \<Rightarrow> go_ctx \<Rightarrow> string \<Rightarrow> gval list \<Rightarrow> ('d dbs, gerror option \<times> (db_failure + int) option) act" where
  "db_raw_exec dr c query args s =
     (let ectx = entry_opt ''RawExec'' [Field ''query'' (VStr query), Field ''args'' (VList args)] s in
      bind_act (run_on (executor_of c) (dr_exec dr query args))
        (exec_result ''RawExec'' ''failed to execute arbitrary query'' ectx) s)"

definition db_named_raw_exec ::
  "'d driver \<Rightarrow> go_ctx \<Rightarrow> string \<Rightarrow> gval \<Rightarrow> ('d dbs, gerror option \<times> (db_failure + int) option) act" where
  "db_named_raw_exec dr c query resource s =
     (let ectx = entry_opt ''NamedRawExec'' [Field ''query'' (VStr query), Field ''arg'' resource] s in
      bind_act (run_on (executor_of c) (dr_named_exec dr query resource))
        (exec_result ''NamedRawExec'' ''failed to execute arbitrary named query'' ectx) s)"

section \<open>Running a store operation\<close>

text \<open>
  A run over the database state that leaves the committed contents, the transactions and the log as
  they are: what happens once the query itself has been run.
\<close>

definition druns :: "'d dbs \<Rightarrow> ('d dbs, 'a) act \<Rightarrow> ('a \<Rightarrow> world \<Rightarrow> bool) \<Rightarrow> bool" where
  "druns s m Q \<longleftrightarrow>
     (\<exists>x s'. m s = (Ret x, s') \<and> heap_le s s' \<and> ds_main s' = ds_main s \<and> ds_txs s' = ds_txs s
        \<and> ds_next s' = ds_next s \<and> Q x (ds_world s'))"

lemma druns_ret: "wf_world (ds_world s) \<Longrightarrow> Q x (ds_world s) \<Longrightarrow> druns s (ret x) Q"
  by (simp add: druns_def ret_def heap_le_def)

lemma druns_on_heap: "runs (ds_world s) m Q \<Longrightarrow> druns s (on_heap m) Q"
  unfolding druns_def by (drule on_heap_runs) blast

lemma druns_bind_ret: "druns s m Q \<Longrightarrow> (\<And>x w. Q x w \<Longrightarrow> R (f x) w) \<Longrightarrow> druns s (bind_act m (\<lambda>x. ret (f x))) R"
  by (fastforce simp: druns_def bind_act_def ret_def)

definition fails_as :: "kind \<Rightarrow> gerror option \<Rightarrow> world \<Rightarrow> bool" where
  "fails_as k r w \<longleftrightarrow> (\<exists>e. r = Some e \<and> live_error w k e)"

lemma druns_sql_fail:
  assumes "wf_world (ds_world s)" and "opts_ok opts"
  shows "druns s (sql_fail site k f msg opts) (\<lambda>r w. fails_as k r w \<and> Option.bind r unwrap = Some (failure_error f))"
proof -
  have "good_error (ds_world s) (failure_error f)" by (cases f) simp_all
  then have "runs (ds_world s) (propagate_as site k (Some (failure_error f)) msg opts)
      (wraps k msg (failure_error f))"
    by (rule runs_propagate_as [OF assms])
  then show ?thesis
    unfolding sql_fail_def
    by (intro druns_on_heap) (erule runs_weaken, auto simp: wraps_def wrapped_kind_def fails_as_def)
qed

lemma druns_fail_new:
  assumes "wf_world (ds_world s)" and "opts_ok opts"
  shows "druns s (fail_new site k msg opts) (\<lambda>r w. fails_as k r w \<and> Option.bind r unwrap = None)"
  unfolding fail_new_def
  by (rule druns_bind_ret [OF druns_on_heap [OF runs_new_error [OF assms]]]) (auto simp: fails_as_def)

lemma entry_opt_ok [simp]: "garlic_opt (entry_opt site fs s)"
  by (simp add: entry_opt_def ectx.garlic_opt_axioms)

text \<open>The effect of the query itself.\<close>

definition contents :: "executor \<Rightarrow> 'd dbs \<Rightarrow> 'd option" where
  "contents ex s =
     (case ex of
        ViaPool \<Rightarrow> Some (ds_main s)
      | ViaTx t \<Rightarrow> (case ds_txs s t of TxOpen d \<Rightarrow> Some d | TxDone \<Rightarrow> None))"

definition with_contents :: "executor \<Rightarrow> 'd \<Rightarrow> 'd dbs \<Rightarrow> 'd dbs" where
  "with_contents ex d s =
     (case ex of
        ViaPool \<Rightarrow> s\<lparr>ds_main := d\<rparr>
      | ViaTx t \<Rightarrow> s\<lparr>ds_txs := (ds_txs s)(t := TxOpen d)\<rparr>)"

lemma run_on_contents:
  "contents ex s = Some d \<Longrightarrow> f d = (x, d') \<Longrightarrow> run_on ex f s = (Ret x, with_contents ex d' s)"
  by (auto simp: run_on_def contents_def with_contents_def ret_def split: executor.splits tx.splits)

lemma with_contents_world [simp]: "ds_world (with_contents ex d s) = ds_world s"
  by (simp add: with_contents_def split: executor.split)

text \<open>
  An operation that runs one query \<open>f\<close> and then reports: on open contents it returns, the contents
  become what the query made of them, nothing else of the database changes, and the answer fits the
  outcome of the query.
\<close>

definition answers ::
  "executor \<Rightarrow> 'd dbs \<Rightarrow> ('d dbs, 'a) act \<Rightarrow> ('d \<Rightarrow> 'x \<times> 'd) \<Rightarrow> ('x \<Rightarrow> 'a \<Rightarrow> world \<Rightarrow> bool) \<Rightarrow> bool" where
  "answers ex s m f Q \<longleftrightarrow>
     (\<forall>d. contents ex s = Some d \<longrightarrow>
        (\<exists>y s'. m s = (Ret y, s') \<and> heap_le s s'
           \<and> ds_main s' = ds_main (with_contents ex (snd (f d)) s)
           \<and> ds_txs s' = ds_txs (with_contents ex (snd (f d)) s) \<and> ds_next s' = ds_next s
           \<and> Q (fst (f d)) y (ds_world s')))"

lemma answersI:
  assumes "\<And>x s1. wf_world (ds_world s1) \<Longrightarrow> druns s1 (post x) (Q x)" and "wf_world (ds_world s)"
    and "m s = bind_act (run_on ex f) post s"
  shows "answers ex s m f Q"
  unfolding answers_def
proof (intro allI impI)
  fix d assume d: "contents ex s = Some d"
  obtain x d' where f: "f d = (x, d')" by fastforce
  let ?s = "with_contents ex d' s"
  have r: "run_on ex f s = (Ret x, ?s)" using run_on_contents [OF d, of f x d'] f by simp
  obtain y s' where p: "post x ?s = (Ret y, s')" "heap_le ?s s'" "ds_main s' = ds_main ?s" "ds_txs s' = ds_txs ?s"
      "ds_next s' = ds_next ?s" "Q x y (ds_world s')"
    using assms(1) [of ?s x] assms(2) unfolding druns_def by auto
  moreover have "m s = (Ret y, s')" using assms(3) r p(1) by (simp add: bind_act_def)
  moreover have "ds_next ?s = ds_next s" by (simp add: with_contents_def split: executor.split)
  moreover have "heap_le s s'" using p(2) by (simp add: heap_le_def)
  ultimately show "\<exists>y s'. m s = (Ret y, s') \<and> heap_le s s' \<and> ds_main s' = ds_main (with_contents ex (snd (f d)) s)
      \<and> ds_txs s' = ds_txs (with_contents ex (snd (f d)) s) \<and> ds_next s' = ds_next s
      \<and> Q (fst (f d)) y (ds_world s')"
    using f by auto
qed

section \<open>What each operation answers\<close>

fun create_answer ::
  "db_failure + (db_failure + gval) option \<Rightarrow> gerror option \<times> gval option \<Rightarrow> world \<Rightarrow> bool" where
  "create_answer (Inl (PgError code m)) r w \<longleftrightarrow>
     fails_as (if code = ''23505'' \<or> code = ''23502'' then KindUserError else KindSystemError) (fst r) w \<and> snd r = None"
| "create_answer (Inr (Some (Inr x))) r w \<longleftrightarrow> r = (None, Some x)"
| "create_answer _ r w \<longleftrightarrow> fails_as KindSystemError (fst r) w \<and> snd r = None"

fun rows_answer :: "db_failure + (db_failure + int) \<Rightarrow> gerror option \<Rightarrow> world \<Rightarrow> bool" where
  "rows_answer (Inr (Inr n)) e w \<longleftrightarrow> (if n < 1 then fails_as KindNotFoundError e w else e = None)"
| "rows_answer _ e w \<longleftrightarrow> fails_as KindSystemError e w"

fun read_answer :: "db_failure + gval \<Rightarrow> gerror option \<times> gval option \<Rightarrow> world \<Rightarrow> bool" where
  "read_answer (Inr x) r w \<longleftrightarrow> r = (None, Some x)"
| "read_answer (Inl (NoRows m)) r w \<longleftrightarrow> fails_as KindNotFoundError (fst r) w \<and> snd r = None"
| "read_answer (Inl f) r w \<longleftrightarrow> fails_as KindSystemError (fst r) w \<and> snd r = None"

fun exec_answer :: "db_failure + 'x \<Rightarrow> gerror option \<times> 'x option \<Rightarrow> world \<Rightarrow> bool" where
  "exec_answer (Inr x) r w \<longleftrightarrow> r = (None, Some x)"
| "exec_answer (Inl f) r w \<longleftrightarrow> fails_as KindSystemError (fst r) w \<and> snd r = None"

lemma druns_weaken: "druns s m Q \<Longrightarrow> (\<And>x w. Q x w \<Longrightarrow> R x w) \<Longrightarrow> druns s m R"
  by (fastforce simp: druns_def)

lemma druns_failing:
  assumes "wf_world (ds_world s)" and "opts_ok opts" and "\<And>e w. fails_as k e w \<Longrightarrow> R e w"
  shows "druns s (sql_fail site k f msg opts) R" and "druns s (fail_new site k msg opts) R"
  using druns_weaken [OF druns_sql_fail [OF assms(1,2)]] druns_weaken [OF druns_fail_new [OF assms(1,2)]] assms(3)
  by blast+

lemma druns_pair: "druns s m (\<lambda>e w. R (e, None) w) \<Longrightarrow> druns s (bind_act m (\<lambda>e. ret (e, None))) R"
  by (erule druns_bind_ret) simp

lemmas report_intros = druns_pair druns_failing druns_ret

lemma create_report_answers:
  "wf_world (ds_world s) \<Longrightarrow> garlic_opt ectx \<Longrightarrow> druns s (create_report ectx x) (create_answer x)"
  by (induction ectx x rule: create_report.induct)
    (auto simp: create_failure_def split: db_failure.split intro!: report_intros)

lemma affected_rows_answers:
  "wf_world (ds_world s) \<Longrightarrow> garlic_opt ectx \<Longrightarrow> druns s (affected_rows site m1 m2 ectx x) (rows_answer x)"
proof (induction x)
  case (Inr y)
  then show ?case by (cases y) (auto simp: affected_rows_def intro!: report_intros)
qed (auto simp: affected_rows_def intro!: report_intros)

lemma read_report_answers:
  "wf_world (ds_world s) \<Longrightarrow> garlic_opt ectx \<Longrightarrow> druns s (read_report ectx x) (read_answer x)"
  by (induction ectx x rule: read_report.induct) (auto intro!: report_intros)

lemma exec_result_answers:
  "wf_world (ds_world s) \<Longrightarrow> garlic_opt ectx \<Longrightarrow> druns s (exec_result site msg ectx x) (exec_answer x)"
  by (cases x) (auto simp: exec_result_def intro!: report_intros)

lemma store_answers:
  fixes s :: "'d dbs"
  assumes "wf_world (ds_world s)"
  shows "answers (executor_of c) s (db_create dr c query resource) (dr_named_query dr query resource) create_answer"
    and "answers (executor_of c) s (db_list dr c query args) (dr_select dr query args) exec_answer"
    and "answers (executor_of c) s (db_update dr c query args) (dr_exec dr query args) rows_answer"
    and "answers (executor_of c) s (db_delete dr c query args) (dr_exec dr query args) rows_answer"
    and "answers (executor_of c) s (db_read dr c query args) (dr_get dr query args) read_answer"
    and "answers (executor_of c) s (db_raw_exec dr c query args) (dr_exec dr query args) exec_answer"
    and "answers (executor_of c) s (db_named_raw_exec dr c query resource) (dr_named_exec dr query resource) exec_answer"
  by ((rule answersI [OF _ assms];
      simp add: create_report_answers affected_rows_answers read_report_answers exec_result_answers db_create_def
        db_list_def db_update_def db_delete_def db_read_def db_raw_exec_def db_named_raw_exec_def Let_def)+)


text \<open>An insert that violates a unique constraint, in the pool.\<close>

definition refusing_driver :: "int driver" where
  "refusing_driver = \<lparr>dr_named_query = (\<lambda>q r d. (Inl (PgError ''23505'' ''duplicate key''), d)),
     dr_select = (\<lambda>q as d. (Inr [], d)), dr_exec = (\<lambda>q as d. (Inr (Inr 0), d)),
     dr_named_exec = (\<lambda>q r d. (Inr (Inr 0), d)), dr_get = (\<lambda>q as d. (Inl (NoRows ''no rows''), d))\<rparr>"


section \<open>Sequences of store calls in a transaction\<close>

text \<open>A client that makes calls one after the other and stops at the first error.\<close>

datatype store_call =
    CCreate string gval
  | CRead string "gval list"
  | CUpdate string "gval list"
  | CDelete string "gval list"
  | CList string "gval list"
  | CRawExec string "gval list"
  | CNamedRawExec string gval

fun run_call :: "'d driver \<Rightarrow> go_ctx \<Rightarrow> store_call \<Rightarrow> ('d dbs, gerror option) act" where
  "run_call dr c (CCreate q r) = bind_act (db_create dr c q r) (\<lambda>x. ret (fst x))"
| "run_call dr c (CRead q as) = bind_act (db_read dr c q as) (\<lambda>x. ret (fst x))"
| "run_call dr c (CUpdate q as) = bind_act (db_update dr c q as) (\<lambda>x. ret x)"
| "run_call dr c (CDelete q as) = bind_act (db_delete dr c q as) (\<lambda>x. ret x)"
| "run_call dr c (CList q as) = bind_act (db_list dr c q as) (\<lambda>x. ret (fst x))"
| "run_call dr c (CRawExec q as) = bind_act (db_raw_exec dr c q as) (\<lambda>x. ret (fst x))"
| "run_call dr c (CNamedRawExec q r) = bind_act (db_named_raw_exec dr c q r) (\<lambda>x. ret (fst x))"

fun run_calls :: "'d driver \<Rightarrow> store_call list \<Rightarrow> go_ctx \<Rightarrow> ('d dbs, gerror option) act" where
  "run_calls dr [] c = ret None"
| "run_calls dr (x # xs) c =
     bind_act (run_call dr c x) (\<lambda>e. case e of None \<Rightarrow> run_calls dr xs c | Some _ \<Rightarrow> ret e)"

text \<open>The same calls as functions on the contents: whether a call succeeds, and what it leaves.\<close>

fun created :: "db_failure + (db_failure + gval) option \<Rightarrow> bool" where
  "created (Inr (Some (Inr v))) = True"
| "created _ = False"

fun changed :: "db_failure + (db_failure + int) \<Rightarrow> bool" where
  "changed (Inr (Inr n)) = (1 \<le> n)"
| "changed _ = False"

fun call_effect :: "'d driver \<Rightarrow> store_call \<Rightarrow> 'd \<Rightarrow> bool \<times> 'd" where
  "call_effect dr (CCreate q r) d = apfst created (dr_named_query dr q r d)"
| "call_effect dr (CRead q as) d = apfst (\<lambda>x. \<not> isl x) (dr_get dr q as d)"
| "call_effect dr (CUpdate q as) d = apfst changed (dr_exec dr q as d)"
| "call_effect dr (CDelete q as) d = apfst changed (dr_exec dr q as d)"
| "call_effect dr (CList q as) d = apfst (\<lambda>x. \<not> isl x) (dr_select dr q as d)"
| "call_effect dr (CRawExec q as) d = apfst (\<lambda>x. \<not> isl x) (dr_exec dr q as d)"
| "call_effect dr (CNamedRawExec q r) d = apfst (\<lambda>x. \<not> isl x) (dr_named_exec dr q r d)"

fun calls_effect :: "'d driver \<Rightarrow> store_call list \<Rightarrow> 'd \<Rightarrow> bool \<times> 'd" where
  "calls_effect dr [] d = (True, d)"
| "calls_effect dr (x # xs) d =
     (let (ok, d') = call_effect dr x d in if ok then calls_effect dr xs d' else (False, d'))"

definition call_answer :: "bool \<Rightarrow> gerror option \<Rightarrow> world \<Rightarrow> bool" where
  "call_answer ok e w \<longleftrightarrow> (if ok then e = None else \<exists>x k. e = Some x \<and> live_error w k x)"

lemma answers_apfst:
  assumes "answers ex s m f Q" and "\<And>x y w. Q x y w \<Longrightarrow> R (g x) (h y) w"
  shows "answers ex s (bind_act m (\<lambda>y. ret (h y))) (\<lambda>d. apfst g (f d)) R"
  unfolding answers_def
proof (intro allI impI)
  fix d assume "contents ex s = Some d"
  then obtain y s' where "m s = (Ret y, s')" "heap_le s s'" "ds_main s' = ds_main (with_contents ex (snd (f d)) s)"
      "ds_txs s' = ds_txs (with_contents ex (snd (f d)) s)" "ds_next s' = ds_next s" "Q (fst (f d)) y (ds_world s')"
    using assms(1) unfolding answers_def by blast
  then show "\<exists>z s'. bind_act m (\<lambda>y. ret (h y)) s = (Ret z, s') \<and> heap_le s s'
      \<and> ds_main s' = ds_main (with_contents ex (snd (apfst g (f d))) s)
      \<and> ds_txs s' = ds_txs (with_contents ex (snd (apfst g (f d))) s) \<and> ds_next s' = ds_next s
      \<and> R (fst (apfst g (f d))) z (ds_world s')"
    using assms(2) by (auto simp: bind_act_def ret_def)
qed

lemma create_success: "create_answer x y w \<Longrightarrow> call_answer (created x) (fst y) w"
  by (induction x y w rule: create_answer.induct) (auto simp: call_answer_def fails_as_def split: if_splits)

lemma rows_success: "rows_answer x y w \<Longrightarrow> call_answer (changed x) y w"
  by (induction x y w rule: rows_answer.induct) (auto simp: call_answer_def fails_as_def split: if_splits)

lemma read_success: "read_answer x y w \<Longrightarrow> call_answer (\<not> isl x) (fst y) w"
  by (induction x y w rule: read_answer.induct) (auto simp: call_answer_def fails_as_def)

lemma exec_success: "exec_answer x y w \<Longrightarrow> call_answer (\<not> isl x) (fst y) w"
  by (induction x y w rule: exec_answer.induct) (auto simp: call_answer_def fails_as_def)

lemma run_call_answers:
  assumes "wf_world (ds_world s)"
  shows "answers (executor_of c) s (run_call dr c x) (call_effect dr x) call_answer"
proof -
  note st = store_answers [OF assms, of c dr]
  note lift = answers_apfst [where R = call_answer]
  note pair = lift [where h = fst] and rows = lift [where h = "\<lambda>x. x" and g = changed]
  have eq: "call_effect dr (CCreate q r) = (\<lambda>d. apfst created (dr_named_query dr q r d))"
    "call_effect dr (CRead q as) = (\<lambda>d. apfst (\<lambda>x. \<not> isl x) (dr_get dr q as d))"
    "call_effect dr (CUpdate q as) = (\<lambda>d. apfst changed (dr_exec dr q as d))"
    "call_effect dr (CDelete q as) = (\<lambda>d. apfst changed (dr_exec dr q as d))"
    "call_effect dr (CList q as) = (\<lambda>d. apfst (\<lambda>x. \<not> isl x) (dr_select dr q as d))"
    "call_effect dr (CRawExec q as) = (\<lambda>d. apfst (\<lambda>x. \<not> isl x) (dr_exec dr q as d))"
    "call_effect dr (CNamedRawExec q r) = (\<lambda>d. apfst (\<lambda>x. \<not> isl x) (dr_named_exec dr q r d))"
    for q r as by (simp_all add: fun_eq_iff)
  show ?thesis
  proof (cases x)
    case (CCreate q r)
    then show ?thesis unfolding CCreate eq run_call.simps by (intro pair [OF st(1)] create_success)
  next
    case (CRead q as)
    then show ?thesis unfolding CRead eq run_call.simps by (intro pair [OF st(5)] read_success)
  next
    case (CUpdate q as)
    then show ?thesis unfolding CUpdate eq run_call.simps by (intro rows [OF st(3)] rows_success)
  next
    case (CDelete q as)
    then show ?thesis unfolding CDelete eq run_call.simps by (intro rows [OF st(4)] rows_success)
  next
    case (CList q as)
    then show ?thesis unfolding CList eq run_call.simps by (intro pair [OF st(2)] exec_success)
  next
    case (CRawExec q as)
    then show ?thesis unfolding CRawExec eq run_call.simps by (intro pair [OF st(6)] exec_success)
  next
    case (CNamedRawExec q r)
    then show ?thesis unfolding CNamedRawExec eq run_call.simps by (intro pair [OF st(7)] exec_success)
  qed
qed

lemma run_calls_answers:
  assumes "wf_world (ds_world s)"
  shows "answers (executor_of c) s (run_calls dr xs c) (calls_effect dr xs) call_answer"
  using assms
proof (induction xs arbitrary: s)
  case Nil
  then show ?case
    by (auto simp: answers_def contents_def with_contents_def ret_def call_answer_def heap_le_def
        split: executor.splits tx.splits)
next
  case (Cons x xs)
  show ?case
    unfolding answers_def
  proof (intro allI impI)
    fix d assume d: "contents (executor_of c) s = Some d"
    obtain ok d1 where e: "call_effect dr x d = (ok, d1)" by fastforce
    obtain y s1 where s1: "run_call dr c x s = (Ret y, s1)" "heap_le s s1"
        "ds_main s1 = ds_main (with_contents (executor_of c) d1 s)"
        "ds_txs s1 = ds_txs (with_contents (executor_of c) d1 s)" "ds_next s1 = ds_next s"
        "call_answer ok y (ds_world s1)"
      using run_call_answers [OF Cons.prems, of c dr x] d e unfolding answers_def by fastforce
    show "\<exists>y s'. run_calls dr (x # xs) c s = (Ret y, s') \<and> heap_le s s'
        \<and> ds_main s' = ds_main (with_contents (executor_of c) (snd (calls_effect dr (x # xs) d)) s)
        \<and> ds_txs s' = ds_txs (with_contents (executor_of c) (snd (calls_effect dr (x # xs) d)) s)
        \<and> ds_next s' = ds_next s \<and> call_answer (fst (calls_effect dr (x # xs) d)) y (ds_world s')"
    proof (cases ok)
      case False
      then obtain k z where "y = Some z" "live_error (ds_world s1) k z" using s1(6) by (auto simp: call_answer_def)
      then show ?thesis using s1 e False by (simp add: bind_act_def ret_def)
    next
      case True
      then have y: "y = None" using s1(6) by (simp add: call_answer_def)
      have c1: "contents (executor_of c) s1 = Some d1"
        using s1(3,4) d by (auto simp: contents_def with_contents_def split: executor.splits tx.splits)
      have same: "ds_main (with_contents (executor_of c) e' s1) = ds_main (with_contents (executor_of c) e' s)"
        "ds_txs (with_contents (executor_of c) e' s1) = ds_txs (with_contents (executor_of c) e' s)" for e'
        using s1(3,4) by (auto simp: with_contents_def split: executor.splits)
      obtain z s2 where "run_calls dr xs c s1 = (Ret z, s2)" "heap_le s1 s2"
          "ds_main s2 = ds_main (with_contents (executor_of c) (snd (calls_effect dr xs d1)) s1)"
          "ds_txs s2 = ds_txs (with_contents (executor_of c) (snd (calls_effect dr xs d1)) s1)"
          "ds_next s2 = ds_next s1" "call_answer (fst (calls_effect dr xs d1)) z (ds_world s2)"
        using Cons.IH [OF heap_le_wf [OF s1(2)]] c1 unfolding answers_def by blast
      then show ?thesis
        using s1(1,5) y e True same heap_le_trans [OF s1(2)] by (simp add: bind_act_def)
    qed
  qed
qed

lemma run_calls_in_tx:
  fixes dr :: "'d driver"
  assumes wf: "wf_world (ds_world s)" and t: "transaction_of c = Some t" and d: "ds_txs s t = TxOpen d"
  shows "\<exists>y s'. run_calls dr xs c s = (Ret y, s') \<and> heap_le s s' \<and> ds_main s' = ds_main s
      \<and> ds_txs s' = (ds_txs s)(t := TxOpen (snd (calls_effect dr xs d))) \<and> ds_next s' = ds_next s
      \<and> call_answer (fst (calls_effect dr xs d)) y (ds_world s')"
proof -
  have ex: "executor_of c = ViaTx t" using t by (simp add: executor_of_def)
  then have "contents (executor_of c) s = Some d" using d by (simp add: contents_def)
  then show ?thesis
    using run_calls_answers [OF wf, of c dr xs] unfolding answers_def ex by (auto simp: with_contents_def)
qed

lemma works_within_run_calls:
  fixes dr :: "'d driver"
  shows "works_within (run_calls dr xs)"
  unfolding works_within_def
proof (intro allI impI)
  fix c t d and s :: "'d dbs"
  assume wf: "wf_world (ds_world s)" and t: "transaction_of c = Some t" and d: "ds_txs s t = TxOpen d"
  obtain y s' where "run_calls dr xs c s = (Ret y, s')" "heap_le s s'" "ds_main s' = ds_main s"
      "ds_txs s' = (ds_txs s)(t := TxOpen (snd (calls_effect dr xs d)))" "ds_next s' = ds_next s"
      "call_answer (fst (calls_effect dr xs d)) y (ds_world s')"
    using run_calls_in_tx [OF wf t d] by blast
  then show "\<exists>r s' d'. run_calls dr xs c s = (r, s') \<and> heap_le s s' \<and> ds_main s' = ds_main s
      \<and> ds_next s' = ds_next s \<and> ds_txs s' = (ds_txs s)(t := TxOpen d')
      \<and> (\<forall>e. r = Ret (Some e) \<longrightarrow> good_error (ds_world s') e)"
    by (auto simp: call_answer_def live_good split: if_splits)
qed

lemma calls_commit:
  fixes dr :: "'d driver" and s :: "'d dbs"
  assumes none: "transaction_of c = None" and wf: "wf_world (ds_world s)"
    and env: "te_begin env (ds_next s) = None" "te_commit env (ds_next s) = None"
    and ok: "fst (calls_effect dr xs (ds_main s))"
  shows "fst (storer_transaction (database_begin_context env) (run_calls dr xs) c s) = Ret None"
proof -
  let ?t = "ds_next s" and ?c = "with_value c TransactionKey (CVTx (ds_next s))"
  let ?b = "\<lparr>bg_ctx = ?c, bg_commit = commit_tx env ?t, bg_rollback = rollback_tx env ?t, bg_err = None\<rparr>"
  define s1 where "s1 = s\<lparr>ds_txs := (ds_txs s)(?t := TxOpen (ds_main s)), ds_next := Suc ?t\<rparr>"
  have b: "database_begin_context env c s = (Ret ?b, s1)"
    using none env(1) by (simp add: database_begin_context_def begin_context_def sql_begin_def bind_act_def
        ret_def on_heap_def propagate_def s1_def)
  have w1: "wf_world (ds_world s1)" and t1: "transaction_of ?c = Some ?t" and o1: "ds_txs s1 ?t = TxOpen (ds_main s)"
    using wf by (simp_all add: s1_def transaction_of_def)
  obtain s2 where r: "run_calls dr xs ?c s1 = (Ret None, s2)"
      and t2: "ds_txs s2 ?t = TxOpen (snd (calls_effect dr xs (ds_main s)))"
    using run_calls_in_tx [OF w1 t1 o1, of dr xs] ok by (auto simp: call_answer_def)
  have "fst (commit_tx env ?t s2) = Ret None"
    using t2 env(2) by (simp add: commit_tx_def sql_commit_def bind_act_def ret_def on_heap_def propagate_as_def)
  then have "fst (after_function ?b (Ret None, s2)) = Ret None"
    by (cases "commit_tx env ?t s2") (simp add: after_function_def ret_def)
  then show ?thesis using b r by (simp add: storer_transaction_def bind_act_def)
qed

text \<open>
  C7: Store calls in a transaction take effect together. Storer.Transaction over the library's own
  store, given a function that makes any sequence of store calls and stops at the first error,
  either returns no error and leaves the database exactly as the calls applied one after the other
  to its contents do, all of them successful; or returns an error and leaves it as it was. When all
  the calls succeed and the driver can begin and commit, it is the first.
\<close>

theorem store_calls_atomic:
  fixes s :: "'d dbs" and dr :: "'d driver"
  assumes "transaction_of c = None" and "wf_world (ds_world s)"
  shows "\<exists>r s'. storer_transaction (database_begin_context env) (run_calls dr xs) c s = (r, s')
    \<and> (r = Ret None \<and> calls_effect dr xs (ds_main s) = (True, ds_main s')
       \<or> (\<exists>e. r = Ret (Some e)) \<and> ds_main s' = ds_main s)
    \<and> (te_begin env (ds_next s) = None \<and> te_commit env (ds_next s) = None
        \<and> fst (calls_effect dr xs (ds_main s)) \<longrightarrow> r = Ret None)"
proof -
  let ?t = "ds_next s" and ?c = "with_value c TransactionKey (CVTx (ds_next s))"
  obtain r s' where run: "storer_transaction (database_begin_context env) (run_calls dr xs) c s = (r, s')"
    and out: "(ds_main s' = ds_main s \<and> ds_txs s' = ds_txs s
       \<and> (\<exists>e. r = Ret (Some e) \<and> error_kind e = Some KindDatabaseTransactionError)
     \<or> ds_txs s' = (ds_txs s)(?t := TxDone)
       \<and> (\<exists>s1 q s2 d. heap_le s s1 \<and> ds_txs s1 = (ds_txs s)(?t := TxOpen (ds_main s))
           \<and> run_calls dr xs ?c s1 = (q, s2) \<and> ds_txs s2 ?t = TxOpen d
           \<and> (case q of
                Panic p \<Rightarrow> r = Panic p \<and> ds_main s' = ds_main s
              | Ret (Some e) \<Rightarrow> ds_main s' = ds_main s \<and> (\<exists>e'. r = Ret (Some e') \<and> unwrap e' = Some e)
              | Ret None \<Rightarrow> r = Ret None \<and> ds_main s' = d
                  \<or> ds_main s' = ds_main s
                    \<and> (\<exists>e'. r = Ret (Some e') \<and> error_kind e' = Some KindDatabaseTransactionError))))"
    using database_store.outermost_run [OF assms works_within_run_calls [of dr xs], of env] by blast
  have "r = Ret None \<and> calls_effect dr xs (ds_main s) = (True, ds_main s')
       \<or> (\<exists>e. r = Ret (Some e)) \<and> ds_main s' = ds_main s"
    using out
  proof (elim disjE conjE exE)
    fix s1 q s2 d
    assume s1: "heap_le s s1" "ds_txs s1 = (ds_txs s)(?t := TxOpen (ds_main s))"
      and q: "run_calls dr xs ?c s1 = (q, s2)" and d: "ds_txs s2 ?t = TxOpen d"
      and cs: "case q of
                Panic p \<Rightarrow> r = Panic p \<and> ds_main s' = ds_main s
              | Ret (Some e) \<Rightarrow> ds_main s' = ds_main s \<and> (\<exists>e'. r = Ret (Some e') \<and> unwrap e' = Some e)
              | Ret None \<Rightarrow> r = Ret None \<and> ds_main s' = d
                  \<or> ds_main s' = ds_main s
                    \<and> (\<exists>e'. r = Ret (Some e') \<and> error_kind e' = Some KindDatabaseTransactionError)"
    have t1: "transaction_of ?c = Some ?t" by (simp add: transaction_of_def)
    have o1: "ds_txs s1 ?t = TxOpen (ds_main s)" by (simp add: s1(2))
    obtain y where y: "q = Ret y" "d = snd (calls_effect dr xs (ds_main s))"
        "y = None \<longleftrightarrow> fst (calls_effect dr xs (ds_main s))"
      using run_calls_in_tx [OF heap_le_wf [OF s1(1)] t1 o1, of dr xs] q d
      by (auto simp: call_answer_def split: if_splits)
    then show ?thesis using cs by (cases y) (auto simp: prod_eq_iff)
  qed auto
  moreover have "te_begin env ?t = None \<and> te_commit env ?t = None
        \<and> fst (calls_effect dr xs (ds_main s)) \<longrightarrow> r = Ret None"
    using calls_commit [OF assms, of env dr xs] run by auto
  ultimately show ?thesis using run by blast
qed

theorem store_calls_atomic_witness:
  "\<exists>r s'. storer_transaction (database_begin_context calm_env)
      (run_calls refusing_driver [CList ''SELECT'' [], CUpdate ''UPDATE'' []]) background start_db = (r, s')
    \<and> (\<exists>e. r = Ret (Some e)) \<and> ds_main s' = 5"
proof -
  have c: "transaction_of background = None" by (simp add: transaction_of_def background_def)
  have wf: "wf_world (ds_world start_db)" by (simp add: start_db_def wf_init_world)
  have "\<not> fst (calls_effect refusing_driver [CList ''SELECT'' [], CUpdate ''UPDATE'' []] (ds_main start_db))"
    "ds_main start_db = 5"
    by (simp_all add: refusing_driver_def start_db_def)
  then show ?thesis
    using store_calls_atomic [OF c wf, of calm_env refusing_driver "[CList ''SELECT'' [], CUpdate ''UPDATE'' []]"]
    by fastforce
qed

end
