(* ===== verification/Db_Values.thy ===== *)
theory Db_Values
  imports Heap Strings "HOL-Library.AList"
begin

text \<open>
  The values the database packages read out of structs and columns: filters (\<open>database/filter.go\<close>),
  patches (\<open>database/utils/patch.go\<close>), string arrays (\<open>database/utils/slices.go\<close>) and the
  configuration (\<open>database/config.go\<close>, the connection strings of \<open>database/database.go\<close>).
\<close>

section \<open>Structs, as reflection shows them\<close>

text \<open>A field is a pointer, nil or to a value, or of another kind; its tags are empty when absent.\<close>

datatype field_kind = PointerField "gval option" | OtherField gval

record struct_field =
  sf_name :: string
  sf_filter :: string
  sf_db :: string
  sf_exported :: bool
  sf_value :: field_kind

datatype reflected = NilPointer | PointerToStruct "struct_field list" | PointerToOther
  | StructValue "struct_field list" | OtherValue

section \<open>Filters\<close>

record filter_t =
  flt_key :: string
  flt_value :: gval

definition filter_statement :: "filter_t \<Rightarrow> int \<Rightarrow> string" where
  "filter_statement f i = flt_key f @ ''=$'' @ int_str i"

definition not_a_struct :: string where
  "not_a_struct = ''input must be a struct or a pointer to a struct''"

definition not_a_pointer :: "string \<Rightarrow> string" where
  "not_a_pointer name = ''field '' @ [CHR 0x22] @ name @ [CHR 0x22] @ '' is tagged with filter but is not a pointer''"

text \<open>
  The loop over the fields, on the map \<open>uniqueFilters\<close>. Reflection does not hand out the value of an
  unexported field.
\<close>

definition unexported :: string where
  "unexported = ''reflect.Value.Interface: cannot return value obtained from unexported field or method''"

fun collect_filters :: "struct_field list \<Rightarrow> (string \<times> filter_t) list \<Rightarrow> (string \<times> filter_t) list outcome" where
  "collect_filters [] m = Ret m"
| "collect_filters (f # fs) m =
     (if sf_filter f = [] then collect_filters fs m
      else case sf_value f of
             OtherField _ \<Rightarrow> Panic (not_a_pointer (sf_name f))
           | PointerField None \<Rightarrow> collect_filters fs m
           | PointerField (Some v) \<Rightarrow>
               if \<not> sf_exported f then Panic unexported
               else collect_filters fs (AList.update (sf_filter f) \<lparr>flt_key = sf_filter f, flt_value = v\<rparr> m))"

definition extract_filter_map :: "reflected \<Rightarrow> (string \<times> filter_t) list outcome" where
  "extract_filter_map input =
     (case input of
        NilPointer \<Rightarrow> Ret []
      | PointerToStruct fs \<Rightarrow> collect_filters fs []
      | StructValue fs \<Rightarrow> collect_filters fs []
      | _ \<Rightarrow> Panic not_a_struct)"

text \<open>\<open>slices.Collect(maps.Values(m))\<close> gives the values in an order the language does not fix.\<close>

definition extracts :: "reflected \<Rightarrow> filter_t list \<Rightarrow> bool" where
  "extracts input filters \<longleftrightarrow>
     (\<exists>m m'. extract_filter_map input = Ret m \<and> distinct m' \<and> set m' = set m \<and> filters = map snd m')"

section \<open>Patches\<close>

text \<open>
  The pairs a complete iteration yields, in the order of the fields. The texts of reflection's own
  panics are without the name of the type.
\<close>

fun patch_fields :: "struct_field list \<Rightarrow> (string \<times> gval) list outcome" where
  "patch_fields [] = Ret []"
| "patch_fields (f # fs) =
     (if sf_db f = [] then patch_fields fs
      else case sf_value f of
             PointerField (Some v) \<Rightarrow>
               if \<not> sf_exported f then Panic unexported
               else (case patch_fields fs of Panic p \<Rightarrow> Panic p | Ret kvs \<Rightarrow> Ret ((sf_db f, v) # kvs))
           | _ \<Rightarrow> patch_fields fs)"

definition resource_iter :: "reflected \<Rightarrow> (string \<times> gval) list outcome" where
  "resource_iter r =
     (case r of
        PointerToStruct fs \<Rightarrow> patch_fields fs
      | StructValue fs \<Rightarrow> patch_fields fs
      | NilPointer \<Rightarrow> Panic ''pointer does not point to a struct''
      | PointerToOther \<Rightarrow> Panic ''pointer does not point to a struct''
      | OtherValue \<Rightarrow> Panic ''reflect: NumField of non-struct type'')"

definition named_resource_bindings :: "reflected \<Rightarrow> string list outcome" where
  "named_resource_bindings r =
     (case resource_iter r of
        Panic p \<Rightarrow> Panic p
      | Ret kvs \<Rightarrow> Ret (map (\<lambda>(k, v). k @ '' = :'' @ k) kvs))"

definition joined_patch_resource_bindings :: "reflected \<Rightarrow> string outcome" where
  "joined_patch_resource_bindings r =
     (case named_resource_bindings r of Panic p \<Rightarrow> Panic p | Ret bs \<Rightarrow> Ret (join_with '', '' bs))"

text \<open>
  \<open>Named\<close>: the three steps of sqlx, each of which may fail (\<open>Inl\<close> with the text of its error), are
  arguments; the last one cannot.
\<close>

definition Named ::
  "(string \<Rightarrow> 'r \<Rightarrow> string + string \<times> 'a list) \<Rightarrow> (string \<Rightarrow> 'a list \<Rightarrow> string + string \<times> 'a list)
    \<Rightarrow> (string \<Rightarrow> string) \<Rightarrow> string \<Rightarrow> 'r \<Rightarrow> (string \<times> 'a list) outcome" where
  "Named sqlx_named sqlx_in rebind query r =
     (case sqlx_named query r of
        Inl e \<Rightarrow> Panic (''fatal failure trying to get named query: '' @ e)
      | Inr (q, args) \<Rightarrow>
          (case sqlx_in q args of
             Inl e \<Rightarrow> Panic (''fatal failure trying to get expand named query: '' @ e)
           | Inr (q', args') \<Rightarrow> Ret (rebind q', args')))"

section \<open>String arrays\<close>

text \<open>A nil slice is \<open>None\<close>. Column values, as \<open>database/sql\<close> hands them over.\<close>

datatype column = ColNull | ColString string | ColBytes string | ColOther string

definition braces :: "char set" where
  "braces = {CHR ''{'', CHR ''}''}"

definition string_slice_scan :: "column \<Rightarrow> string + string list option" where
  "string_slice_scan src =
     (let read = (\<lambda>s. let t = trim_set braces s in Inr (Some (if t = [] then [] else split_on (CHR '','') t))) in
      case src of
        ColNull \<Rightarrow> Inr None
      | ColString s \<Rightarrow> read s
      | ColBytes s \<Rightarrow> read s
      | ColOther t \<Rightarrow> Inl (''cannot scan '' @ t @ '' into StringSlice''))"

definition string_slice_value :: "string list option \<Rightarrow> column" where
  "string_slice_value ss =
     (case ss of
        None \<Rightarrow> ColNull
      | Some xs \<Rightarrow> ColString (''{'' @ join_with '','' xs @ ''}''))"

section \<open>Configuration\<close>

datatype ssl_mode = SSLMode string

definition SSLModeRequire :: ssl_mode where "SSLModeRequire = SSLMode ''require''"
definition SSLModeDisable :: ssl_mode where "SSLModeDisable = SSLMode ''disable''"
definition SSLModes :: "ssl_mode list" where "SSLModes = [SSLModeRequire, SSLModeDisable]"

definition ErrConfigInvalidSSLMode :: string where
  "ErrConfigInvalidSSLMode = ''invalid SSLMode; valid options are [require, disable]''"

text \<open>The JSON decoder of a string is an argument: its error's text or the string.\<close>

definition ssl_mode_unmarshal :: "(string \<Rightarrow> string + string) \<Rightarrow> string \<Rightarrow> string + ssl_mode" where
  "ssl_mode_unmarshal json data =
     (case json data of
        Inl e \<Rightarrow> Inl (''[database] failed unmarshalling database config: '' @ e)
      | Inr mode \<Rightarrow>
          if SSLMode mode \<in> set SSLModes then Inr (SSLMode mode)
          else Inl (''[database] failed validating database config: '' @ ErrConfigInvalidSSLMode))"

record db_config =
  dc_host :: string
  dc_port :: int
  dc_database :: string
  dc_username :: string
  dc_password :: string
  dc_ssl :: ssl_mode

definition db_config_defaults :: db_config where
  "db_config_defaults = \<lparr>dc_host = ''0.0.0.0'', dc_port = 5432, dc_database = ''postgres'',
     dc_username = ''postgres'', dc_password = ''postgres'', dc_ssl = SSLModeDisable\<rparr>"

fun ssl_text :: "ssl_mode \<Rightarrow> string" where
  "ssl_text (SSLMode s) = s"

definition build_connection_string :: "db_config \<Rightarrow> string" where
  "build_connection_string c =
     ''host='' @ dc_host c @ '' port='' @ int_str (dc_port c) @ '' user='' @ dc_username c
     @ '' password='' @ dc_password c @ '' dbname='' @ dc_database c @ '' sslmode='' @ ssl_text (dc_ssl c)"

definition build_connection_url :: "db_config \<Rightarrow> string" where
  "build_connection_url c =
     ''pgx5://'' @ dc_username c @ '':'' @ dc_password c @ ''@'' @ dc_host c @ '':'' @ int_str (dc_port c)
     @ ''/'' @ dc_database c @ ''?sslmode='' @ ssl_text (dc_ssl c)"

text \<open>
  A database is its configuration and the pool of connections, nil until \<open>Connect\<close>. Parsing the
  connection string, with the text of its error, and opening the pool are arguments.
\<close>

record 'c database =
  db_config_of :: db_config
  db_pool :: "'c option"

definition new_database :: "db_config \<Rightarrow> 'c database" where
  "new_database c = \<lparr>db_config_of = c, db_pool = None\<rparr>"

definition database_connect ::
  "(string \<Rightarrow> string + 'p) \<Rightarrow> ('p \<Rightarrow> 'c) \<Rightarrow> 'c database \<Rightarrow> string option \<times> 'c database" where
  "database_connect parse open_pool db =
     (case parse (build_connection_string (db_config_of db)) of
        Inl e \<Rightarrow> (Some (''invalid pg dsn: '' @ e), db)
      | Inr cfg \<Rightarrow> (None, db\<lparr>db_pool := Some (open_pool cfg)\<rparr>))"

section \<open>Proofs\<close>

lemma join_split: "join_with [c] (split_on c s) = s"
proof (induction s)
  case (Cons x s)
  obtain y ys where y: "split_on c s = y # ys" by (cases "split_on c s") simp_all
  then show ?case using Cons by (cases ys) auto
qed simp

lemma split_no_seps: "x \<in> set (split_on c s) \<Longrightarrow> c \<notin> set x"
  by (induction s arbitrary: x) (auto split: list.splits if_splits)

lemma trim_set_end: "x \<in> cs \<Longrightarrow> trim_set cs (s @ [x]) = trim_set cs s"
proof (cases "\<forall>y\<in>set s. y \<in> cs")
  case True
  then show "x \<in> cs \<Longrightarrow> ?thesis"
    by (auto simp: trim_set_def dropWhile_append dropWhile_eq_Nil_conv dest: set_dropWhileD)
qed (auto simp: trim_set_def dropWhile_append)

lemma trim_set_braced: "trim_set braces (CHR ''{'' # s @ ''}'') = trim_set braces s"
proof -
  have "trim_set braces (CHR ''{'' # s @ ''}'') = trim_set braces (s @ ''}'')"
    by (simp add: trim_set_def braces_def)
  also have "\<dots> = trim_set braces s" by (rule trim_set_end) (simp add: braces_def)
  finally show ?thesis .
qed

lemma trim_set_fixed: "trim_set cs s = s \<longleftrightarrow> s = [] \<or> hd s \<notin> cs \<and> last s \<notin> cs"
proof
  assume t: "trim_set cs s = s"
  have len: "length (dropWhile P xs) \<le> length xs" for P and xs :: string by (rule length_dropWhile_le)
  have "length s \<le> length (dropWhile (\<lambda>c. c \<in> cs) s)"
    using t len [of "\<lambda>c. c \<in> cs" "rev (dropWhile (\<lambda>c. c \<in> cs) s)"] by (metis length_rev trim_set_def)
  moreover have "length (dropWhile (\<lambda>c. c \<in> cs) s) < length s" if "s \<noteq> []" "hd s \<in> cs"
    using that len [of "\<lambda>c. c \<in> cs" "tl s"] by (cases s) auto
  ultimately have h: "s = [] \<or> hd s \<notin> cs" by linarith
  then have d: "dropWhile (\<lambda>c. c \<in> cs) s = s" by (cases s) auto
  then have r: "dropWhile (\<lambda>c. c \<in> cs) (rev s) = rev s" using t by (metis rev_rev_ident trim_set_def)
  have "last s \<notin> cs" if "s \<noteq> []"
  proof
    assume "last s \<in> cs"
    then have "rev s \<noteq> [] \<and> hd (rev s) \<in> cs" using that by (simp add: hd_rev)
    then have "length (dropWhile (\<lambda>c. c \<in> cs) (rev s)) < length (rev s)"
      using len [of "\<lambda>c. c \<in> cs" "tl (rev s)"] by (cases "rev s") auto
    then show False using r by simp
  qed
  then show "s = [] \<or> hd s \<notin> cs \<and> last s \<notin> cs" using h by blast
qed (rule trim_set_id)

text \<open>
  C37: Which string arrays survive the database column. Scanning what StringSlice.Value wrote gives
  back a slice exactly when it is nil, or empty, or no element holds a comma and the elements
  joined by commas are not empty and neither begin nor end with a brace. So a slice whose only
  element is empty, or with a comma or an outer brace in an element, comes back changed.
\<close>

theorem string_slice_roundtrip:
  "string_slice_scan (string_slice_value ss) = Inr ss \<longleftrightarrow>
     (case ss of
        None \<Rightarrow> True
      | Some xs \<Rightarrow> xs = [] \<or> (\<forall>x\<in>set xs. CHR '','' \<notin> set x) \<and> join_with '','' xs \<noteq> []
          \<and> hd (join_with '','' xs) \<notin> braces \<and> last (join_with '','' xs) \<notin> braces)"
proof (cases ss)
  case None
  then show ?thesis by (simp add: string_slice_scan_def string_slice_value_def)
next
  case (Some xs)
  let ?j = "join_with '','' xs" and ?t = "trim_set braces (join_with '','' xs)"
  have scan: "string_slice_scan (string_slice_value ss)
      = Inr (Some (if ?t = [] then [] else split_on (CHR '','') ?t))"
    using trim_set_braced [of ?j] by (simp add: Some string_slice_scan_def string_slice_value_def)
  show ?thesis
  proof (cases "xs = []")
    case True
    then show ?thesis using scan Some by (simp add: trim_set_def)
  next
    case False
    have "(if ?t = [] then [] else split_on (CHR '','') ?t) = xs \<longleftrightarrow>
        (\<forall>x\<in>set xs. CHR '','' \<notin> set x) \<and> ?j \<noteq> [] \<and> ?t = ?j"
    proof
      assume eq: "(if ?t = [] then [] else split_on (CHR '','') ?t) = xs"
      then have t: "?t \<noteq> []" "split_on (CHR '','') ?t = xs" using False by (auto split: if_splits)
      then have j: "?j = ?t" using join_split [of "CHR '',''" ?t] by simp
      have "\<forall>x\<in>set xs. CHR '','' \<notin> set x" using split_no_seps [of _ "CHR '',''" ?t] unfolding t(2) by blast
      with t(1) j show "(\<forall>x\<in>set xs. CHR '','' \<notin> set x) \<and> ?j \<noteq> [] \<and> ?t = ?j" by simp
    next
      assume "(\<forall>x\<in>set xs. CHR '','' \<notin> set x) \<and> ?j \<noteq> [] \<and> ?t = ?j"
      then show "(if ?t = [] then [] else split_on (CHR '','') ?t) = xs"
        using split_on_join [OF False, of "CHR '',''"] by simp
    qed
    then show ?thesis using scan Some False by (auto simp: trim_set_fixed)
  qed
qed

text \<open>A slice that survives, and two that do not.\<close>

theorem string_slice_roundtrip_witness:
  "string_slice_scan (string_slice_value (Some [''a'', ''b''])) = Inr (Some [''a'', ''b''])
    \<and> string_slice_scan (string_slice_value (Some [''a,b''])) \<noteq> Inr (Some [''a,b''])
    \<and> string_slice_scan (string_slice_value (Some [''''])) \<noteq> Inr (Some [''''])"
  using string_slice_roundtrip [of "Some [''a'', ''b'']"] string_slice_roundtrip [of "Some [''a,b'']"]
    string_slice_roundtrip [of "Some ['''']"]
  by (simp add: braces_def)

text \<open>A tag no field carries keeps the filter it has, and no two filters share a tag.\<close>

lemma collect_filters_values:
  assumes "collect_filters fs m = Ret m'" and "\<forall>f\<in>set fs. sf_filter f \<noteq> k"
  shows "map_of m' k = map_of m k"
  using assms
  by (induction fs arbitrary: m) (auto split: if_splits field_kind.splits option.splits simp: update_conv')

lemma collect_filters_distinct:
  "collect_filters fs m = Ret m' \<Longrightarrow> distinct (map fst m) \<Longrightarrow> distinct (map fst m')"
  by (induction fs arbitrary: m) (auto split: if_splits field_kind.splits option.splits simp: distinct_update)

lemma extracts_distinct_keys:
  assumes "extract_filter_map input = Ret m"
  shows "distinct (map fst m)"
  using assms collect_filters_distinct [of _ "[]"]
  by (auto simp: extract_filter_map_def split: reflected.splits)

end
