(* ===== verification/Pool.thy ===== *)
theory Pool
  imports Main "HOL-Library.Multiset"
begin

text \<open>
  The worker pool (\<open>worker/pool.go\<close>): callers of \<open>Submit\<close> and \<open>WaitAll\<close>, and the goroutines \<open>spawn\<close>
  starts, as one step relation over the unbuffered channel and the wait group. A task is a name;
  what it does is outside the model, except that it may never return.
\<close>

section \<open>The pool and its steps\<close>

text \<open>
  A worker receives from the channel, runs a task, or has a task that returned and is about to call
  \<open>Done\<close>. A caller of \<open>Submit\<close> that has called \<open>Add\<close> waits in its send.
\<close>

datatype worker = Receiving | Running nat | Returned

record pool =
  po_workers :: "worker list"
  po_sending :: "nat multiset"
  po_count :: nat
  po_submitted :: "nat multiset"
  po_ran :: "nat multiset"

text \<open>\<open>NewPool\<close> and \<open>spawn\<close>: a loop from 0 up to the size, so none for a negative one.\<close>

definition new_pool :: "int \<Rightarrow> pool" where
  "new_pool n = \<lparr>po_workers = replicate (nat n) Receiving, po_sending = {#}, po_count = 0,
     po_submitted = {#}, po_ran = {#}\<rparr>"

datatype pool_event = SubmitCalled nat | Received nat nat | TaskReturned nat nat | DoneCalled nat | WaitReturned

definition submit_task :: "nat \<Rightarrow> pool \<Rightarrow> pool" where
  "submit_task x p = p\<lparr>po_count := Suc (po_count p), po_sending := add_mset x (po_sending p),
     po_submitted := add_mset x (po_submitted p)\<rparr>"

inductive pool_step :: "pool \<Rightarrow> pool_event \<Rightarrow> pool \<Rightarrow> bool" where
  submit: "pool_step p (SubmitCalled x) (submit_task x p)"
| receive: "i < length (po_workers p) \<Longrightarrow> po_workers p ! i = Receiving \<Longrightarrow> x \<in># po_sending p \<Longrightarrow>
    pool_step p (Received i x) (p\<lparr>po_workers := (po_workers p)[i := Running x], po_sending := po_sending p - {#x#}\<rparr>)"
| return: "i < length (po_workers p) \<Longrightarrow> po_workers p ! i = Running x \<Longrightarrow>
    pool_step p (TaskReturned i x) (p\<lparr>po_workers := (po_workers p)[i := Returned], po_ran := add_mset x (po_ran p)\<rparr>)"
| done_called: "i < length (po_workers p) \<Longrightarrow> po_workers p ! i = Returned \<Longrightarrow>
    pool_step p (DoneCalled i) (p\<lparr>po_workers := (po_workers p)[i := Receiving], po_count := po_count p - 1\<rparr>)"
| wait_all: "po_count p = 0 \<Longrightarrow> pool_step p WaitReturned p"

inductive_cases submit_stepE: "pool_step p (SubmitCalled x) q"
inductive_cases wait_stepE: "pool_step p WaitReturned q"

inductive pool_run :: "pool \<Rightarrow> pool_event list \<Rightarrow> pool \<Rightarrow> bool" where
  run_nil: "pool_run p [] p"
| run_step: "pool_run p es q \<Longrightarrow> pool_step q e r \<Longrightarrow> pool_run p (es @ [e]) r"

inductive_cases run_nilE: "pool_run p [] q"
inductive_cases run_snocE: "pool_run p (es @ [e]) q"

section \<open>The invariant\<close>

definition running_tasks :: "worker list \<Rightarrow> nat multiset" where
  "running_tasks ws = mset (List.map_filter (\<lambda>w. case w of Running x \<Rightarrow> Some x | _ \<Rightarrow> None) ws)"

definition busy :: "worker list \<Rightarrow> nat" where
  "busy ws = length (filter (\<lambda>w. w \<noteq> Receiving) ws)"

definition pool_inv :: "pool \<Rightarrow> bool" where
  "pool_inv p \<longleftrightarrow>
     po_submitted p = po_sending p + running_tasks (po_workers p) + po_ran p
   \<and> po_count p = size (po_sending p) + busy (po_workers p)"

text \<open>Replacing one worker, in terms of the lists around it.\<close>

lemma worker_split:
  assumes "i < length ws" and "ws ! i = w"
  shows "\<exists>a b. ws = a @ w # b \<and> (\<forall>v. ws[i := v] = a @ v # b)"
  using id_take_nth_drop [OF assms(1)] assms by (metis upd_conv_take_nth_drop)

lemma worker_simps [simp]:
  "running_tasks (a @ b) = running_tasks a + running_tasks b"
  "running_tasks (Receiving # ws) = running_tasks ws" "running_tasks (Returned # ws) = running_tasks ws"
  "running_tasks (Running x # ws) = add_mset x (running_tasks ws)" "running_tasks [] = {#}"
  "busy (a @ b) = busy a + busy b" "busy (Receiving # ws) = busy ws" "busy (Returned # ws) = Suc (busy ws)"
  "busy (Running x # ws) = Suc (busy ws)" "busy [] = 0"
  by (simp_all add: running_tasks_def busy_def List.map_filter_def)

lemma running_busy: "size (running_tasks ws) \<le> busy ws" "busy ws \<le> length ws"
proof (induction ws)
  case (Cons w ws)
  { case 1 show ?case using Cons by (cases w) simp_all }
  { case 2 show ?case using Cons by (cases w) simp_all }
qed simp_all

lemma pool_inv_step:
  assumes "pool_step p e q" and "pool_inv p"
  shows "pool_inv q \<and> length (po_workers q) = length (po_workers p)"
  using assms
proof (induction rule: pool_step.induct)
  case (receive i p x)
  obtain a b where "po_workers p = a @ Receiving # b" "\<forall>v. (po_workers p)[i := v] = a @ v # b"
    using worker_split [OF receive(1,2)] by blast
  moreover obtain m where "po_sending p = add_mset x m" using receive(3) by (blast dest: multi_member_split)
  ultimately show ?case using receive by (simp add: pool_inv_def)
next
  case (return i p x)
  obtain a b where "po_workers p = a @ Running x # b" "\<forall>v. (po_workers p)[i := v] = a @ v # b"
    using worker_split [OF return(1,2)] by blast
  then show ?case using return by (simp add: pool_inv_def)
next
  case (done_called i p)
  obtain a b where "po_workers p = a @ Returned # b" "\<forall>v. (po_workers p)[i := v] = a @ v # b"
    using worker_split [OF done_called(1,2)] by blast
  then show ?case using done_called by (simp add: pool_inv_def)
qed (simp_all add: pool_inv_def submit_task_def)

lemma pool_inv_new: "pool_inv (new_pool n)"
proof -
  have "running_tasks (replicate k Receiving) = {#} \<and> busy (replicate k Receiving) = 0" for k
    by (induction k) simp_all
  then show ?thesis by (simp add: pool_inv_def new_pool_def)
qed

lemma pool_inv_run:
  assumes "pool_run p es q" and "pool_inv p"
  shows "pool_inv q \<and> length (po_workers q) = length (po_workers p)"
  using assms by (induction rule: pool_run.induct) (auto dest: pool_inv_step)

definition submissions :: "pool_event list \<Rightarrow> nat multiset" where
  "submissions es = mset (List.map_filter (\<lambda>e. case e of SubmitCalled x \<Rightarrow> Some x | _ \<Rightarrow> None) es)"

definition returns :: "pool_event list \<Rightarrow> nat multiset" where
  "returns es = mset (List.map_filter (\<lambda>e. case e of TaskReturned i x \<Rightarrow> Some x | _ \<Rightarrow> None) es)"

lemma history_run:
  assumes "pool_run p es q"
  shows "po_submitted q = po_submitted p + submissions es \<and> po_ran q = po_ran p + returns es"
  using assms
proof (induction rule: pool_run.induct)
  case (run_step p es q e r)
  from run_step(2) show ?case
    using run_step(3)
    by cases (auto simp: submissions_def returns_def List.map_filter_def submit_task_def)
qed (simp add: submissions_def returns_def List.map_filter_def)

text \<open>
  C29: WaitAll returns only when everything submitted has run. In every run of a new pool, of any size
  and with any number of goroutines submitting, the tasks that have returned are among those
  submitted, each as often as it was submitted at most; never more than the size of the pool run at
  once; and whenever a WaitAll returns, exactly the tasks submitted so far have returned.
\<close>

theorem wait_all_waits_for_all:
  assumes "pool_run (new_pool n) es p"
  shows "returns es \<subseteq># submissions es
    \<and> size (running_tasks (po_workers p)) \<le> nat n
    \<and> (pool_step p WaitReturned q \<longrightarrow> returns es = submissions es)"
proof -
  have inv: "pool_inv p" and len: "length (po_workers p) = nat n"
    using pool_inv_run [OF assms pool_inv_new] by (simp_all add: new_pool_def)
  have hist: "po_submitted p = submissions es" "po_ran p = returns es"
    using history_run [OF assms] by (simp_all add: new_pool_def)
  have "returns es = submissions es" if "pool_step p WaitReturned q"
  proof -
    have "po_count p = 0" using that by (rule wait_stepE)
    then have "po_sending p = {#}" "running_tasks (po_workers p) = {#}"
      using inv running_busy(1) [of "po_workers p"] by (auto simp: pool_inv_def)
    then show ?thesis using inv hist by (simp add: pool_inv_def)
  qed
  moreover have "returns es \<subseteq># submissions es" using inv hist by (simp add: pool_inv_def)
  moreover have "size (running_tasks (po_workers p)) \<le> nat n"
    using running_busy [of "po_workers p"] len by linarith
  ultimately show ?thesis by blast
qed

section \<open>Progress\<close>

text \<open>The steps the pool makes on its own, and how many of them are left.\<close>

definition own_event :: "pool_event \<Rightarrow> bool" where
  "own_event e \<longleftrightarrow> (case e of Received i x \<Rightarrow> True | TaskReturned i x \<Rightarrow> True | DoneCalled i \<Rightarrow> True | _ \<Rightarrow> False)"

fun worker_work :: "worker \<Rightarrow> nat" where
  "worker_work Receiving = 0"
| "worker_work (Running x) = 2"
| "worker_work Returned = 1"

definition work_left :: "pool \<Rightarrow> nat" where
  "work_left p = 3 * size (po_sending p) + sum_list (map worker_work (po_workers p))"

lemma own_step_work: "pool_step p e q \<Longrightarrow> own_event e \<Longrightarrow> work_left p = Suc (work_left q)"
proof (induction rule: pool_step.induct)
  case (receive i p x)
  obtain a b where "po_workers p = a @ Receiving # b" "\<forall>v. (po_workers p)[i := v] = a @ v # b"
    using worker_split [OF receive(1,2)] by blast
  moreover obtain m where "po_sending p = add_mset x m" using receive(3) by (blast dest: multi_member_split)
  ultimately show ?case by (simp add: work_left_def)
next
  case (return i p x)
  obtain a b where "po_workers p = a @ Running x # b" "\<forall>v. (po_workers p)[i := v] = a @ v # b"
    using worker_split [OF return(1,2)] by blast
  then show ?case by (simp add: work_left_def)
next
  case (done_called i p)
  obtain a b where "po_workers p = a @ Returned # b" "\<forall>v. (po_workers p)[i := v] = a @ v # b"
    using worker_split [OF done_called(1,2)] by blast
  then show ?case by (simp add: work_left_def)
qed (simp_all add: own_event_def)

lemma own_run_work: "pool_run p es q \<Longrightarrow> list_all own_event es \<Longrightarrow> work_left p = length es + work_left q"
  by (induction rule: pool_run.induct) (auto dest: own_step_work)

lemma stuck_done:
  assumes inv: "pool_inv p" and size: "po_workers p \<noteq> []" and stuck: "\<nexists>e q. own_event e \<and> pool_step p e q"
  shows "po_count p = 0"
proof -
  have all: "w = Receiving" if w: "w \<in> set (po_workers p)" for w
  proof -
    obtain i where i: "i < length (po_workers p)" "po_workers p ! i = w"
      using w unfolding in_set_conv_nth by blast
    show ?thesis
    proof (cases w)
      case (Running x)
      then have "pool_step p (TaskReturned i x) (p\<lparr>po_workers := (po_workers p)[i := Returned],
        po_ran := add_mset x (po_ran p)\<rparr>)" using i by (intro pool_step.return) simp_all
      moreover have "own_event (TaskReturned i x)" by (simp add: own_event_def)
      ultimately show ?thesis using stuck by blast
    next
      case Returned
      then have "pool_step p (DoneCalled i) (p\<lparr>po_workers := (po_workers p)[i := Receiving],
        po_count := po_count p - 1\<rparr>)" using i by (intro pool_step.done_called) simp_all
      moreover have "own_event (DoneCalled i)" by (simp add: own_event_def)
      ultimately show ?thesis using stuck by blast
    qed
  qed
  have "0 < length (po_workers p)" "po_workers p ! 0 = Receiving" using size all by (auto simp: hd_conv_nth)
  then have "\<forall>x. x \<notin># po_sending p"
    using stuck pool_step.receive [of 0 p] by (auto simp: own_event_def)
  then have "po_sending p = {#}" by (meson multiset_nonemptyE)
  moreover have "busy (po_workers p) = 0" using all by (auto simp: busy_def filter_empty_conv)
  ultimately show ?thesis using inv by (simp add: pool_inv_def)
qed

lemma workerless_runs_nothing:
  assumes "pool_run p es q" and "po_workers p = []"
  shows "po_workers q = [] \<and> po_ran q = po_ran p"
  using assms
proof (induction rule: pool_run.induct)
  case (run_step p es q e r)
  then have "po_workers q = []" by simp
  with run_step(2) have "po_workers r = [] \<and> po_ran r = po_ran q" by cases (simp_all add: submit_task_def)
  then show ?case using run_step by simp
qed simp

text \<open>
  C30: A pool with a worker always drains. As long as the tasks return and nothing more is submitted,
  the workers of a pool of positive size make at most three steps per task that is waiting, and a
  pool in which no worker can make a step has a wait group at zero, so WaitAll returns. A pool of
  size zero or less never runs anything: once a task was submitted, WaitAll never returns.
\<close>

theorem pool_drains:
  assumes "pool_run (new_pool n) es p"
  shows "(\<forall>fs q. pool_run p fs q \<and> list_all own_event fs \<longrightarrow> length fs \<le> work_left p
           \<and> (0 < n \<and> (\<nexists>e r. own_event e \<and> pool_step q e r) \<longrightarrow> po_count q = 0))
    \<and> (n \<le> 0 \<and> submissions es \<noteq> {#} \<longrightarrow> \<not> (\<exists>q. pool_step p WaitReturned q))"
proof (intro conjI allI impI)
  fix fs q assume fs: "pool_run p fs q \<and> list_all own_event fs"
  then show "length fs \<le> work_left p" using own_run_work by fastforce
  have p: "pool_inv p" "length (po_workers p) = nat n"
    using pool_inv_run [OF assms pool_inv_new] by (simp_all add: new_pool_def)
  assume "0 < n \<and> (\<nexists>e r. own_event e \<and> pool_step q e r)"
  then show "po_count q = 0"
    using pool_inv_run [OF conjunct1 [OF fs] p(1)] p(2) by (intro stuck_done) auto
next
  assume n: "n \<le> 0 \<and> submissions es \<noteq> {#}"
  have inv: "pool_inv p" and ws: "po_workers p = []"
    using pool_inv_run [OF assms pool_inv_new] n by (simp_all add: new_pool_def)
  have "submissions es = po_sending p"
    using inv ws history_run [OF assms] workerless_runs_nothing [OF assms] n
    by (simp add: pool_inv_def new_pool_def)
  then show "\<not> (\<exists>q. pool_step p WaitReturned q)"
    using inv n by (auto simp: pool_inv_def elim: wait_stepE)
qed

text \<open>A pool of one worker with one submitted task, run to its end.\<close>

definition example_events :: "pool_event list" where
  "example_events = [SubmitCalled 1, Received 0 1, TaskReturned 0 1, DoneCalled 0]"

definition example_pool :: "worker \<Rightarrow> nat multiset \<Rightarrow> nat \<Rightarrow> nat multiset \<Rightarrow> pool" where
  "example_pool w sending n fin =
     \<lparr>po_workers = [w], po_sending = sending, po_count = n, po_submitted = {#1#}, po_ran = fin\<rparr>"

lemma example_steps:
  "pool_step (new_pool 1) (SubmitCalled 1) (example_pool Receiving {#1#} 1 {#})"
  "pool_step (example_pool Receiving {#1#} 1 {#}) (Received 0 1) (example_pool (Running 1) {#} 1 {#})"
  "pool_step (example_pool (Running 1) {#} 1 {#}) (TaskReturned 0 1) (example_pool Returned {#} 1 {#1#})"
  "pool_step (example_pool Returned {#} 1 {#1#}) (DoneCalled 0) (example_pool Receiving {#} 0 {#1#})"
  using pool_step.submit [of "new_pool 1" 1]
    pool_step.receive [of 0 "example_pool Receiving {#1#} 1 {#}" 1]
    pool_step.return [of 0 "example_pool (Running 1) {#} 1 {#}" 1]
    pool_step.done_called [of 0 "example_pool Returned {#} 1 {#1#}"]
  by (simp_all add: example_pool_def submit_task_def new_pool_def)

lemma example_run: "pool_run (new_pool 1) example_events (example_pool Receiving {#} 0 {#1#})"
  using run_step [OF run_step [OF run_step [OF run_step [OF run_nil example_steps(1)] example_steps(2)]
    example_steps(3)] example_steps(4)]
  by (simp add: example_events_def)

text \<open>WaitAll returns at the end of that run, and its task has run.\<close>

theorem wait_all_waits_for_all_witness:
  "pool_step (example_pool Receiving {#} 0 {#1#}) WaitReturned (example_pool Receiving {#} 0 {#1#})
    \<and> returns example_events = submissions example_events"
proof -
  have "pool_step (example_pool Receiving {#} 0 {#1#}) WaitReturned (example_pool Receiving {#} 0 {#1#})"
    by (rule pool_step.wait_all) (simp add: example_pool_def)
  then show ?thesis using wait_all_waits_for_all [OF example_run] by blast
qed

text \<open>In a pool of size zero, WaitAll does not return once a task was submitted.\<close>

theorem pool_drains_witness:
  "\<not> (\<exists>q. pool_step (submit_task 1 (new_pool 0)) WaitReturned q)"
proof -
  have run: "pool_run (new_pool 0) [SubmitCalled 1] (submit_task 1 (new_pool 0))"
    using run_step [OF run_nil pool_step.submit [of "new_pool 0" 1]] by simp
  have "submissions [SubmitCalled 1] \<noteq> {#}" by (simp add: submissions_def List.map_filter_def)
  then show ?thesis using conjunct2 [OF pool_drains [OF run]] by simp
qed

end
