(* ===== verification/Crypto.thy ===== *)
theory Crypto
  imports Calls Base64
begin

text \<open>
  Authenticated encryption of small contents (\<open>crypto/crypto.go\<close>, \<open>crypto/utils.go\<close>,
  \<open>crypto/config.go\<close>). The primitives are arguments; what is built on them is the code's: the
  derived key, a nonce in front of the ciphertext, and base64 around both.
\<close>

section \<open>The primitives\<close>

text \<open>
  HKDF over SHA-256: secret, info and number of bytes; AES-GCM's \<open>Seal\<close> and \<open>Open\<close>: key, nonce and
  text; the n-th read of a number of random bytes; SHA-256.
\<close>

record primitives =
  pr_hkdf :: "string \<Rightarrow> string \<Rightarrow> nat \<Rightarrow> gerror + string"
  pr_seal :: "string \<Rightarrow> string \<Rightarrow> string \<Rightarrow> string"
  pr_open :: "string \<Rightarrow> string \<Rightarrow> string \<Rightarrow> gerror + string"
  pr_random :: "nat \<Rightarrow> nat \<Rightarrow> gerror + string"
  pr_sha256 :: "string \<Rightarrow> string"

text \<open>\<open>aes.NewCipher\<close> takes keys of three lengths; \<open>cipher.NewGCM\<close> takes every AES cipher.\<close>

definition aes_new_cipher :: "string \<Rightarrow> gerror + string" where
  "aes_new_cipher key =
     (if length key \<in> {16, 24, 32} then Inr key
      else Inl (ForeignErr ''aes.KeySizeError'' (''crypto/aes: invalid key size '' @ nat_str (length key)) None None))"

definition nonce_size :: nat where "nonce_size = 12"

section \<open>The manager\<close>

record crypto_config =
  cf_master_key :: string

definition crypto_defaults :: crypto_config where
  "crypto_defaults = \<lparr>cf_master_key = []\<rparr>"

definition crypto_new :: "crypto_config \<Rightarrow> (world, gerror + crypto_config) act" where
  "crypto_new cfg =
     (if cf_master_key cfg = [] then
        bind_act (new_error ''crypto.New'' KindSystemError ''crypto master key must not be empty'' [])
          (\<lambda>e. ret (Inl e))
      else ret (Inr cfg))"

definition derive_key :: "primitives \<Rightarrow> crypto_config \<Rightarrow> (world, gerror + string) act" where
  "derive_key pr c =
     propagate_left ''deriveKey'' ''failed to derive key with HKDF'' []
       (pr_hkdf pr (cf_master_key c) ''garlic-aes-256-gcm'' 32)"

definition then_result :: "(world, gerror + 'a) act \<Rightarrow> ('a \<Rightarrow> (world, gerror + 'b) act) \<Rightarrow> (world, gerror + 'b) act" where
  "then_result m f = bind_act m (\<lambda>r. case r of Inl e \<Rightarrow> ret (Inl e) | Inr x \<Rightarrow> f x)"

definition new_cipher :: "string \<Rightarrow> primitives \<Rightarrow> crypto_config \<Rightarrow> string \<Rightarrow> (world, gerror + string) act" where
  "new_cipher site pr c what =
     then_result (bind_act (derive_key pr c) (propagate_left (site @ ''#1'') (''failed to derive '' @ what @ '' key'') []))
       (\<lambda>key. propagate_left (site @ ''#2'') ''failed to create AES cipher'' [] (aes_new_cipher key))"

definition encrypt :: "primitives \<Rightarrow> crypto_config \<Rightarrow> nat \<Rightarrow> string \<Rightarrow> (world, gerror + string) act" where
  "encrypt pr c n content =
     then_result (new_cipher ''Encrypt'' pr c ''encryption'') (\<lambda>key.
     then_result (propagate_left ''Encrypt#4'' ''failed to generate nonce'' [] (pr_random pr n nonce_size)) (\<lambda>nonce.
     ret (Inr (base64_encode (nonce @ pr_seal pr key nonce content)))))"

text \<open>The error names the offset of the first bad byte, which is left out here.\<close>

definition base64_error :: gerror where
  "base64_error = ForeignErr ''base64.CorruptInputError'' ''illegal base64 data'' None None"

definition crypto_base64_decode :: "string \<Rightarrow> gerror + string" where
  "crypto_base64_decode s = (case base64_decode s of Some d \<Rightarrow> Inr d | None \<Rightarrow> Inl base64_error)"

definition decrypt :: "primitives \<Rightarrow> crypto_config \<Rightarrow> string \<Rightarrow> (world, gerror + string) act" where
  "decrypt pr c encoded =
     then_result (propagate_left ''Decrypt#1'' ''failed to decode base64 string'' [] (crypto_base64_decode encoded)) (\<lambda>data.
     then_result (new_cipher ''Decrypt'' pr c ''decryption'') (\<lambda>key.
     if length data < nonce_size then
       bind_act (new_error ''Decrypt#5'' KindSystemError ''ciphertext too short'' []) (\<lambda>e. ret (Inl e))
     else
       propagate_left ''Decrypt#6'' ''failed to decrypt ciphertext'' []
         (pr_open pr key (take nonce_size data) (drop nonce_size data))))"

section \<open>Hashes\<close>

definition hex_digit :: "nat \<Rightarrow> char" where
  "hex_digit n = ''0123456789abcdef'' ! n"

definition hex_encode :: "string \<Rightarrow> string" where
  "hex_encode s = concat (map (\<lambda>c. [hex_digit (byte c div 16), hex_digit (byte c mod 16)]) s)"

definition hash_sha256 :: "primitives \<Rightarrow> string \<Rightarrow> string" where
  "hash_sha256 pr input = hex_encode (pr_sha256 pr input)"

text \<open>The hash determines the digest: two inputs with the same hash have the same digest.\<close>

lemma hex_digit_inj: "m < 16 \<Longrightarrow> n < 16 \<Longrightarrow> hex_digit m = hex_digit n \<longleftrightarrow> m = n"
proof -
  have "distinct ''0123456789abcdef''" by simp
  then show "m < 16 \<Longrightarrow> n < 16 \<Longrightarrow> hex_digit m = hex_digit n \<longleftrightarrow> m = n"
    unfolding hex_digit_def by (subst nth_eq_iff_index_eq) simp_all
qed

lemma byte_halves: "byte c div 16 = byte d div 16 \<Longrightarrow> byte c mod 16 = byte d mod 16 \<Longrightarrow> c = d"
  by (metis char_of_byte div_mult_mod_eq)

lemma hex_encode_inj: "hex_encode s = hex_encode t \<Longrightarrow> s = t"
proof (induction s arbitrary: t)
  case Nil
  then show ?case by (cases t) (simp_all add: hex_encode_def)
next
  case (Cons c s)
  then obtain d u where t: "t = d # u" by (cases t) (simp_all add: hex_encode_def)
  have lt: "byte x div 16 < 16" for x using byte_bound [of x] by linarith
  from Cons.prems t have "hex_encode s = hex_encode u" "byte c div 16 = byte d div 16" "byte c mod 16 = byte d mod 16"
    by (simp_all add: hex_encode_def hex_digit_inj lt)
  then show ?case using Cons.IH t byte_halves by blast
qed

section \<open>Encrypting and decrypting\<close>

text \<open>
  What is documented of the primitives: HKDF delivers the bytes asked for, \<open>Open\<close> gives back what
  \<open>Seal\<close> sealed under the same key and nonce and refuses every other text, and a failure is not an
  error of this library.
\<close>

definition primitives_ok :: "primitives \<Rightarrow> crypto_config \<Rightarrow> bool" where
  "primitives_ok pr c \<longleftrightarrow>
     (\<forall>k. pr_hkdf pr (cf_master_key c) ''garlic-aes-256-gcm'' 32 = Inr k \<longrightarrow> length k = 32)
   \<and> (\<forall>e. pr_hkdf pr (cf_master_key c) ''garlic-aes-256-gcm'' 32 = Inl e \<longrightarrow> error_kind e = None)
   \<and> (\<forall>k n x p. pr_open pr k n x = Inr p \<longleftrightarrow> x = pr_seal pr k n p)
   \<and> (\<forall>k n x e. pr_open pr k n x = Inl e \<longrightarrow> error_kind e = None)
   \<and> (\<forall>n k b. pr_random pr n k = Inr b \<longrightarrow> length b = k)
   \<and> (\<forall>n k e. pr_random pr n k = Inl e \<longrightarrow> error_kind e = None)"

text \<open>A result that is an error of this library, or a value with a property.\<close>

definition fails :: "gerror + 'a \<Rightarrow> world \<Rightarrow> bool" where
  "fails r w \<longleftrightarrow> (\<exists>e k. r = Inl e \<and> live_error w k e)"

lemma fails_Inr [simp]: "\<not> fails (Inr x) w"
  by (simp add: fails_def)

lemma fails_Inl: "live_error w k e \<Longrightarrow> fails (Inl e) w"
  by (auto simp: fails_def)

definition result_is :: "gerror + 'a \<Rightarrow> gerror + 'a \<Rightarrow> world \<Rightarrow> bool" where
  "result_is x r w \<longleftrightarrow> (case x of Inr v \<Rightarrow> r = Inr v | Inl _ \<Rightarrow> fails r w)"

lemma result_is_simps [simp]: "result_is (Inr v) r w \<longleftrightarrow> r = Inr v" "result_is (Inl e) r w \<longleftrightarrow> fails r w"
  by (simp_all add: result_is_def)

lemma runs_then:
  assumes "runs w m P"
    and "\<And>x w'. wf_world w' \<Longrightarrow> world_le w w' \<Longrightarrow> P (Inr x) w' \<Longrightarrow> runs w' (f x) Q"
    and "\<And>e w'. P (Inl e) w' \<Longrightarrow> Q (Inl e) w'"
  shows "runs w (then_result m f) Q"
  unfolding then_result_def using assms(1)
  by (rule runs_bind) (auto split: sum.split intro!: runs_ret assms(2,3))

lemma runs_propagate_foreign:
  assumes "wf_world w" and "\<And>e. x = Inl e \<Longrightarrow> error_kind e = None"
  shows "runs w (propagate_left site msg [] x) (result_is x)"
proof -
  have good: "good_error w e" if "x = Inl e" for e
    using assms(2) [OF that] by (cases e) simp_all
  show ?thesis
    by (rule runs_weaken [OF runs_propagate_left [OF assms(1) _ good]])
      (auto simp: result_is_def intro: fails_Inl split: sum.splits)
qed

lemma runs_propagate_fails:
  assumes "wf_world w" and "result_is x r w"
  shows "runs w (propagate_left site msg [] r) (result_is x)"
proof -
  have good: "good_error w e" if "r = Inl e" for e
    using assms(2) that by (cases x) (auto simp: fails_def dest: live_good)
  show ?thesis
    using assms(2)
    by (intro runs_weaken [OF runs_propagate_left [OF assms(1) _ good]])
      (auto simp: result_is_def intro: fails_Inl split: sum.splits)
qed

lemma runs_new_cipher:
  assumes "wf_world w" and "primitives_ok pr c"
  shows "runs w (new_cipher site pr c what) (result_is (pr_hkdf pr (cf_master_key c) ''garlic-aes-256-gcm'' 32))"
proof -
  let ?k = "pr_hkdf pr (cf_master_key c) ''garlic-aes-256-gcm'' 32"
  have derive: "runs w (derive_key pr c) (result_is ?k)"
    unfolding derive_key_def using assms by (intro runs_propagate_foreign) (auto simp: primitives_ok_def)
  show ?thesis
    unfolding new_cipher_def
  proof (rule runs_then [OF runs_bind [OF derive runs_propagate_fails]])
    fix x w' assume w': "wf_world w'" and x: "result_is ?k (Inr x) w'"
    have k: "?k = Inr x" using x by (cases ?k) simp_all
    then have "aes_new_cipher x = Inr x" using assms(2) by (simp add: primitives_ok_def aes_new_cipher_def)
    then show "runs w' (propagate_left (site @ ''#2'') ''failed to create AES cipher'' [] (aes_new_cipher x))
        (result_is ?k)"
      using runs_propagate_foreign [OF w', of "Inr x"] k by simp
  qed
qed

text \<open>Which texts open: those sealed under the nonce in front of them.\<close>

lemma open_result:
  assumes ok: "primitives_ok pr c"
    and r: "result_is (pr_open pr key (take nonce_size d) (drop nonce_size d)) r w"
    and len: "nonce_size \<le> length d"
  shows "fails r w \<and> (\<nexists>nonce p. length nonce = nonce_size \<and> d = nonce @ pr_seal pr key nonce p)
    \<or> (\<exists>nonce p. r = Inr p \<and> length nonce = nonce_size \<and> d = nonce @ pr_seal pr key nonce p)"
proof (cases "pr_open pr key (take nonce_size d) (drop nonce_size d)")
  case (Inl e)
  have "\<nexists>nonce p. length nonce = nonce_size \<and> d = nonce @ pr_seal pr key nonce p"
  proof
    assume "\<exists>nonce p. length nonce = nonce_size \<and> d = nonce @ pr_seal pr key nonce p"
    then obtain nonce p where "length nonce = nonce_size" "d = nonce @ pr_seal pr key nonce p" by blast
    then have "pr_open pr key (take nonce_size d) (drop nonce_size d) = Inr p"
      using ok by (simp add: primitives_ok_def)
    then show False using Inl by simp
  qed
  then show ?thesis using r Inl by simp
next
  case (Inr p)
  then have "drop nonce_size d = pr_seal pr key (take nonce_size d) p"
    using ok by (simp add: primitives_ok_def)
  then have "d = take nonce_size d @ pr_seal pr key (take nonce_size d) p"
    using append_take_drop_id [of nonce_size d] by simp
  moreover have "length (take nonce_size d) = nonce_size" using len by simp
  ultimately have "r = Inr p \<and> length (take nonce_size d) = nonce_size
      \<and> d = take nonce_size d @ pr_seal pr key (take nonce_size d) p" using r Inr by simp
  then show ?thesis by blast
qed

lemma runs_decrypt:
  assumes wf: "wf_world w" and ok: "primitives_ok pr c"
    and key: "pr_hkdf pr (cf_master_key c) ''garlic-aes-256-gcm'' 32 = Inr key"
  shows "runs w (decrypt pr c text) (\<lambda>r w'. fails r w'
      \<and> (\<nexists>nonce p. length nonce = nonce_size \<and> base64_decode text = Some (nonce @ pr_seal pr key nonce p))
    \<or> (\<exists>nonce p. r = Inr p \<and> length nonce = nonce_size
        \<and> base64_decode text = Some (nonce @ pr_seal pr key nonce p)))"
    (is "runs w _ ?Q")
proof -
  have decode: "runs w (propagate_left site msg [] (crypto_base64_decode text))
      (result_is (crypto_base64_decode text))" for site msg
    by (rule runs_propagate_foreign [OF wf])
      (auto simp: crypto_base64_decode_def base64_error_def split: option.splits)
  show ?thesis
    unfolding decrypt_def
  proof (rule runs_then [OF decode])
    fix e w' assume "result_is (crypto_base64_decode text) (Inl e) w'"
    then have "base64_decode text = None" "fails (Inl e :: gerror + string) w'"
      by (auto simp: crypto_base64_decode_def fails_def split: option.splits)
    then show "?Q (Inl e) w'" by simp
  next
    fix d w1 assume w1: "wf_world w1" and "result_is (crypto_base64_decode text) (Inr d) w1"
    then have d: "base64_decode text = Some d"
      by (auto simp: crypto_base64_decode_def split: option.splits)
    show "runs w1 (then_result (new_cipher ''Decrypt'' pr c ''decryption'') (\<lambda>key.
        if length d < nonce_size then
          bind_act (new_error ''Decrypt#5'' KindSystemError ''ciphertext too short'' []) (\<lambda>e. ret (Inl e))
        else propagate_left ''Decrypt#6'' ''failed to decrypt ciphertext'' []
          (pr_open pr key (take nonce_size d) (drop nonce_size d)))) ?Q"
    proof (rule runs_then [OF runs_new_cipher [OF w1 ok, unfolded key]])
      fix k w2 assume w2: "wf_world w2" and "result_is (Inr key) (Inr k :: gerror + string) w2"
      then have k: "k = key" by simp
      show "runs w2 (if length d < nonce_size then
          bind_act (new_error ''Decrypt#5'' KindSystemError ''ciphertext too short'' []) (\<lambda>e. ret (Inl e))
        else propagate_left ''Decrypt#6'' ''failed to decrypt ciphertext'' []
          (pr_open pr k (take nonce_size d) (drop nonce_size d))) ?Q"
      proof (cases "length d < nonce_size")
        case True
        then have no: "\<nexists>nonce p. length nonce = nonce_size \<and> base64_decode text = Some (nonce @ pr_seal pr key nonce p)"
          using d by auto
        have "runs w2 (bind_act (new_error ''Decrypt#5'' KindSystemError ''ciphertext too short'' []) (\<lambda>e. ret (Inl e))) ?Q"
          by (rule runs_bind [OF runs_new_error [OF w2]]) (use no in \<open>auto intro!: runs_ret fails_Inl\<close>)
        then show ?thesis using True by simp
      next
        case False
        let ?o = "pr_open pr key (take nonce_size d) (drop nonce_size d)"
        have "runs w2 (propagate_left ''Decrypt#6'' ''failed to decrypt ciphertext'' [] ?o) (result_is ?o)"
          by (rule runs_propagate_foreign [OF w2]) (use ok in \<open>auto simp: primitives_ok_def\<close>)
        moreover have "?Q r w'" if "result_is ?o r w'" for r w'
          using open_result [OF ok that] False d by auto
        ultimately show ?thesis using False k by (auto elim!: runs_weaken)
      qed
    qed simp
  qed
qed

lemma runs_encrypt:
  assumes wf: "wf_world w" and ok: "primitives_ok pr c"
    and key: "pr_hkdf pr (cf_master_key c) ''garlic-aes-256-gcm'' 32 = Inr key"
  shows "runs w (encrypt pr c n content)
    (\<lambda>r w'. case pr_random pr n nonce_size of
        Inl _ \<Rightarrow> fails r w'
      | Inr nonce \<Rightarrow> r = Inr (base64_encode (nonce @ pr_seal pr key nonce content)))"
    (is "runs w _ ?Q")
  unfolding encrypt_def
proof (rule runs_then [OF runs_new_cipher [OF wf ok, unfolded key]])
  fix k w1 assume w1: "wf_world w1" and "result_is (Inr key) (Inr k :: gerror + string) w1"
  then have k: "k = key" by simp
  have "runs w1 (propagate_left ''Encrypt#4'' ''failed to generate nonce'' [] (pr_random pr n nonce_size))
      (result_is (pr_random pr n nonce_size))"
    by (rule runs_propagate_foreign [OF w1]) (use ok in \<open>auto simp: primitives_ok_def\<close>)
  then show "runs w1 (then_result (propagate_left ''Encrypt#4'' ''failed to generate nonce'' []
      (pr_random pr n nonce_size)) (\<lambda>nonce. ret (Inr (base64_encode (nonce @ pr_seal pr k nonce content))))) ?Q"
    by (rule runs_then) (auto intro!: runs_ret simp: k fails_def result_is_def split: sum.splits)
qed simp

text \<open>
  C6: Encryption round trip, and nothing else decrypts. With primitives as documented, Encrypt fails
  only when no nonce can be read; a text it returns decrypts, under the same master key and in any
  later state, to the content it was given. Whatever text it is given, Decrypt returns without a
  panic: the content when the text is the base64 of a nonce and of what sealing that content under
  the derived key and the nonce gives, and an error of the library for every other text.
\<close>

theorem encryption_roundtrip:
  assumes "wf_world w" and "primitives_ok pr c"
    and "pr_hkdf pr (cf_master_key c) ''garlic-aes-256-gcm'' 32 = Inr key"
  shows "runs w (encrypt pr c n content) (\<lambda>r w'.
      case pr_random pr n nonce_size of
        Inl _ \<Rightarrow> fails r w'
      | Inr _ \<Rightarrow> \<exists>t. r = Inr t \<and> runs w' (decrypt pr c t) (\<lambda>x _. x = Inr content))
    \<and> runs w (decrypt pr c text) (\<lambda>r w'. fails r w'
        \<and> (\<nexists>nonce p. length nonce = nonce_size \<and> base64_decode text = Some (nonce @ pr_seal pr key nonce p))
      \<or> (\<exists>nonce p. r = Inr p \<and> length nonce = nonce_size
          \<and> base64_decode text = Some (nonce @ pr_seal pr key nonce p)))"
proof (rule conjI [OF _ runs_decrypt [OF assms]])
  have same: "p = content" if "nonce @ pr_seal pr key nonce content = nonce' @ pr_seal pr key nonce' p"
      "length nonce = nonce_size" "length nonce' = nonce_size" for nonce nonce' p
  proof -
    have "pr_seal pr key nonce content = pr_seal pr key nonce p" using that by auto
    then have "pr_open pr key nonce (pr_seal pr key nonce content) = Inr p" using assms(2) by (simp add: primitives_ok_def)
    moreover have "pr_open pr key nonce (pr_seal pr key nonce content) = Inr content"
      using assms(2) by (simp add: primitives_ok_def)
    ultimately show ?thesis by simp
  qed
  obtain r w' where run: "encrypt pr c n content w = (Ret r, w')" and w': "wf_world w'" "world_le w w'"
    and r: "case pr_random pr n nonce_size of
        Inl _ \<Rightarrow> fails r w'
      | Inr nonce \<Rightarrow> r = Inr (base64_encode (nonce @ pr_seal pr key nonce content))"
    using runs_encrypt [OF assms, of n content] by (auto simp: runs_def)
  have "\<exists>t. r = Inr t \<and> runs w' (decrypt pr c t) (\<lambda>x _. x = Inr content)" if "pr_random pr n nonce_size = Inr nonce" for nonce
  proof -
    let ?t = "base64_encode (nonce @ pr_seal pr key nonce content)"
    have len: "length nonce = nonce_size" using that assms(2) by (simp add: primitives_ok_def)
    have "runs w' (decrypt pr c ?t) (\<lambda>x _. x = Inr content)"
      by (rule runs_weaken [OF runs_decrypt [OF w'(1) assms(2,3), of ?t]])
        (use len same in \<open>fastforce simp: base64_roundtrip\<close>)
    then show ?thesis using r that by simp
  qed
  then show "runs w (encrypt pr c n content) (\<lambda>r w'.
      case pr_random pr n nonce_size of
        Inl _ \<Rightarrow> fails r w'
      | Inr _ \<Rightarrow> \<exists>t. r = Inr t \<and> runs w' (decrypt pr c t) (\<lambda>x _. x = Inr content))"
    using run w' r by (auto simp: runs_def split: sum.splits)
qed

text \<open>A toy cipher that puts the key in front of the text.\<close>

definition toy_primitives :: primitives where
  "toy_primitives =
     \<lparr>pr_hkdf = (\<lambda>secret info n. Inr (replicate n (CHR ''k''))),
      pr_seal = (\<lambda>k n p. k @ p),
      pr_open = (\<lambda>k n x. if take (length k) x = k then Inr (drop (length k) x)
         else Inl (ForeignErr ''*errors.errorString'' ''cipher: message authentication failed'' None None)),
      pr_random = (\<lambda>n k. Inr (replicate k (CHR ''n''))), pr_sha256 = (\<lambda>s. s)\<rparr>"

lemma toy_primitives_ok: "primitives_ok toy_primitives c"
proof -
  have "take (length k) x = k \<and> drop (length k) x = p \<longleftrightarrow> x = k @ p" for k x p :: string
    by (metis append_eq_conv_conj)
  then show ?thesis by (auto simp: primitives_ok_def toy_primitives_def)
qed

theorem encryption_roundtrip_witness:
  "\<exists>t w'. encrypt toy_primitives \<lparr>cf_master_key = ''m''\<rparr> 0 ''secret'' (init_world empty_registry (\<lambda>_. [])) = (Ret (Inr t), w')
    \<and> fst (decrypt toy_primitives \<lparr>cf_master_key = ''m''\<rparr> t w') = Ret (Inr ''secret'')"
proof -
  have key: "pr_hkdf toy_primitives (cf_master_key \<lparr>cf_master_key = ''m''\<rparr>) ''garlic-aes-256-gcm'' 32
      = Inr (replicate 32 (CHR ''k''))" by (simp add: toy_primitives_def)
  have "pr_random toy_primitives 0 nonce_size = Inr (replicate nonce_size (CHR ''n''))"
    by (simp add: toy_primitives_def)
  then show ?thesis
    using conjunct1 [OF encryption_roundtrip [OF wf_init_world toy_primitives_ok key, of empty_registry "\<lambda>_. []" 0 "''secret''"]]
    by (fastforce simp: runs_def)
qed

end
