(* ===== verification/Release_Age.thy ===== *)
theory Release_Age
  imports Strings "HOL-Library.Multiset"
begin

text \<open>
  The supply-chain check of the repository (\<open>hack/check-go-release-age/main.go\<close>): the pins of a
  \<open>go.sum\<close> file, the allowlist, the questions to the module proxy and the verdict. Files, the proxy,
  the clock and the parsers of YAML, JSON and dates are arguments; times are nanoseconds since the
  zero time. The printed report is left out, the exit code is not.
\<close>

section \<open>Pins\<close>

record module_pin =
  mp_module :: string
  mp_version :: string

text \<open>\<open>strings.Fields\<close> on ASCII white space.\<close>

fun split_fields_from :: "string \<Rightarrow> string \<Rightarrow> string list" where
  "split_fields_from cur [] = (if cur = [] then [] else [rev cur])"
| "split_fields_from cur (c # cs) =
     (if c \<in> ascii_space then (if cur = [] then split_fields_from [] cs else rev cur # split_fields_from [] cs)
      else split_fields_from (c # cur) cs)"

definition split_fields :: "string \<Rightarrow> string list" where
  "split_fields s = split_fields_from [] s"

text \<open>\<open>bufio.Scanner\<close> over lines, with a buffer of one mebibyte.\<close>

definition max_line :: nat where "max_line = 1024 * 1024"

definition drop_cr :: "string \<Rightarrow> string" where
  "drop_cr s = (if s \<noteq> [] \<and> last s = CHR 0x0D then butlast s else s)"

definition scan_lines :: "string \<Rightarrow> string + string list" where
  "scan_lines s =
     (let ls = split_on (CHR 0x0A) s; raw = (if last ls = [] then butlast ls else ls) in
      if list_all (\<lambda>l. length l < max_line) raw then Inr (map drop_cr raw)
      else Inl ''bufio.Scanner: token too long'')"

definition pin_of :: "string \<Rightarrow> module_pin option" where
  "pin_of line =
     (case split_fields line of
        m # v # _ \<Rightarrow> Some \<lparr>mp_module = m, mp_version = trim_suffix v ''/go.mod''\<rparr>
      | _ \<Rightarrow> None)"

definition pin_key :: "module_pin \<Rightarrow> string" where
  "pin_key p = mp_module p @ ''@'' @ mp_version p"

text \<open>The loop over the lines: \<open>seen\<close> and \<open>pins\<close>.\<close>

fun collect_pins :: "string list \<Rightarrow> string set \<Rightarrow> module_pin list \<Rightarrow> module_pin list" where
  "collect_pins [] seen pins = pins"
| "collect_pins (l # ls) seen pins =
     (case pin_of l of
        None \<Rightarrow> collect_pins ls seen pins
      | Some p \<Rightarrow>
          if pin_key p \<in> seen then collect_pins ls seen pins
          else collect_pins ls (insert (pin_key p) seen) (pins @ [p]))"

definition parse_go_sum :: "string + string \<Rightarrow> string + module_pin list" where
  "parse_go_sum file =
     (case file of
        Inl e \<Rightarrow> Inl e
      | Inr s \<Rightarrow> (case scan_lines s of Inl e \<Rightarrow> Inl e | Inr ls \<Rightarrow> Inr (collect_pins ls {} [])))"

section \<open>The allowlist\<close>

record allowlist_entry =
  al_module :: string
  al_version :: string
  al_expires :: string

text \<open>
  Reading the file: it may not exist, or fail otherwise. \<open>date\<close> reads a day as the instant it begins,
  \<open>quote\<close> is \<open>fmt\<close>'s \<open>%q\<close>.
\<close>

datatype file_read = NoFile | ReadError string | Contents string

definition entry_warning ::
  "(string \<Rightarrow> int option) \<Rightarrow> (string \<Rightarrow> string) \<Rightarrow> int \<Rightarrow> allowlist_entry \<Rightarrow> string option" where
  "entry_warning date quote now e =
     (let who = ''allowlist entry '' @ al_module e @ ''@'' @ al_version e in
      if al_expires e = [] then Some (who @ '' has no `expires` date: every exception must expire'')
      else case date (al_expires e) of
             None \<Rightarrow> Some (who @ '': unparseable expires '' @ quote (al_expires e) @ '' (want YYYY-MM-DD)'')
           | Some exp \<Rightarrow>
               if exp < now then Some (who @ '' expired on '' @ al_expires e @ '': remove or renew'') else None)"

definition load_allowlist ::
  "(string \<Rightarrow> string + allowlist_entry list) \<Rightarrow> (string \<Rightarrow> int option) \<Rightarrow> (string \<Rightarrow> string) \<Rightarrow> int \<Rightarrow> file_read
    \<Rightarrow> string + allowlist_entry list \<times> string list" where
  "load_allowlist yaml date quote now file =
     (case file of
        NoFile \<Rightarrow> Inr ([], [])
      | ReadError e \<Rightarrow> Inl e
      | Contents raw \<Rightarrow>
          (case yaml raw of
             Inl e \<Rightarrow> Inl e
           | Inr es \<Rightarrow> Inr (es, List.map_filter (entry_warning date quote now) es)))"

fun matches :: "(string \<Rightarrow> int option) \<Rightarrow> allowlist_entry list \<Rightarrow> module_pin \<Rightarrow> int \<Rightarrow> bool" where
  "matches date [] p now = False"
| "matches date (e # es) p now =
     (if al_module e \<noteq> mp_module p then matches date es p now
      else if al_version e \<noteq> [] \<and> al_version e \<noteq> mp_version p then matches date es p now
      else case date (al_expires e) of
             None \<Rightarrow> matches date es p now
           | Some exp \<Rightarrow> if exp < now then matches date es p now else True)"

section \<open>The proxy\<close>

text \<open>\<open>escapePath\<close>, on the bytes of a path in valid UTF-8, where an ASCII letter is one byte.\<close>

definition is_upper :: "char \<Rightarrow> bool" where
  "is_upper c \<longleftrightarrow> c \<in> set ''ABCDEFGHIJKLMNOPQRSTUVWXYZ''"

definition to_lower :: "char \<Rightarrow> char" where
  "to_lower c = char_of (of_char c + 32 :: nat)"

fun escape_path :: "string \<Rightarrow> string" where
  "escape_path [] = []"
| "escape_path (c # cs) = (if is_upper c then CHR ''!'' # to_lower c # escape_path cs else c # escape_path cs)"

text \<open>
  What a GET answers, a transport error or a status and a body, and the JSON decoder: the field
  \<open>Time\<close>, the zero time when absent.
\<close>

record proxy_env =
  px_get :: "string \<Rightarrow> string + int \<times> string"
  px_json :: "string \<Rightarrow> string + int"
  px_since :: "module_pin \<Rightarrow> int \<Rightarrow> int"

definition trim_right_slash :: "string \<Rightarrow> string" where
  "trim_right_slash s = rev (dropWhile (\<lambda>c. c = CHR ''/'') (rev s))"

definition info_url :: "string \<Rightarrow> module_pin \<Rightarrow> string" where
  "info_url proxy p =
     trim_right_slash proxy @ ''/'' @ escape_path (mp_module p) @ ''/@v/'' @ escape_path (mp_version p) @ ''.info''"

definition fetch_info :: "proxy_env \<Rightarrow> string \<Rightarrow> module_pin \<Rightarrow> string + int" where
  "fetch_info px proxy p =
     (case px_get px (info_url proxy p) of
        Inl e \<Rightarrow> Inl e
      | Inr (status, body) \<Rightarrow>
          if status \<noteq> 200 then Inl (''HTTP '' @ int_str status @ '': '' @ trim_space (take 512 body))
          else case px_json px body of
                 Inl e \<Rightarrow> Inl (''decode proxy response: '' @ e)
               | Inr t \<Rightarrow> if t = 0 then Inl ''proxy returned empty Time'' else Inr t)"

record violation =
  vi_pin :: module_pin
  vi_published :: int
  vi_age :: int

text \<open>
  The workers ask for the pins and append what they find; the order they finish in, for a number of
  workers, is an argument. \<open>Audit_Workers\<close> has the goroutines themselves, and shows that what they
  return is this, for an order in which each pin occurs once.
\<close>

definition fetch_violations ::
  "(nat \<Rightarrow> module_pin list \<Rightarrow> module_pin list) \<Rightarrow> proxy_env \<Rightarrow> module_pin list \<Rightarrow> string \<Rightarrow> int \<Rightarrow> int
    \<Rightarrow> violation list \<times> string list" where
  "fetch_violations order px pins proxy cutoff concurrency =
     (let rs = map (\<lambda>p. (p, fetch_info px proxy p)) (order (nat (if concurrency < 1 then 1 else concurrency)) pins) in
      (List.map_filter (\<lambda>(p, r). case r of
          Inl _ \<Rightarrow> None
        | Inr t \<Rightarrow> if cutoff < t then Some \<lparr>vi_pin = p, vi_published = t, vi_age = px_since px p t\<rparr> else None) rs,
       List.map_filter (\<lambda>(p, r). case r of Inl e \<Rightarrow> Some (pin_key p @ '': '' @ e) | Inr _ \<Rightarrow> None) rs))"

section \<open>The verdict\<close>

datatype verdict =
    AllOld
  | Violations "violation list"
  | AuditError string

record audit_files =
  af_go_sum :: "string + string"
  af_allowlist :: file_read

record audit_lib =
  au_yaml :: "string \<Rightarrow> string + allowlist_entry list"
  au_date :: "string \<Rightarrow> int option"
  au_quote :: "string \<Rightarrow> string"
  au_order :: "nat \<Rightarrow> module_pin list \<Rightarrow> module_pin list"
  au_proxy :: proxy_env

text \<open>The clock is read once for the warnings and once for the audit.\<close>

definition run_audit ::
  "audit_lib \<Rightarrow> audit_files \<Rightarrow> string \<Rightarrow> string \<Rightarrow> int \<Rightarrow> int \<Rightarrow> int \<Rightarrow> int \<Rightarrow> verdict" where
  "run_audit lib files path proxy min_age concurrency now0 now =
     (case parse_go_sum (af_go_sum files) of
        Inl e \<Rightarrow> AuditError (''parse '' @ path @ '': '' @ e)
      | Inr pins \<Rightarrow>
          (case load_allowlist (au_yaml lib) (au_date lib) (au_quote lib) now0 (af_allowlist files) of
             Inl e \<Rightarrow> AuditError (''load allowlist: '' @ e)
           | Inr (allow, warnings) \<Rightarrow>
               let filtered = filter (\<lambda>p. \<not> matches (au_date lib) allow p now) pins;
                   (vs, errs) = fetch_violations (au_order lib) (au_proxy lib) filtered proxy (now - min_age) concurrency
               in if errs \<noteq> [] then AuditError ''lookup errors prevented a complete audit''
                  else if vs = [] then AllOld
                  else Violations (sort_key vi_age vs)))"

fun exit_code :: "verdict \<Rightarrow> nat" where
  "exit_code AllOld = 0"
| "exit_code (Violations vs) = 1"
| "exit_code (AuditError e) = 2"

text \<open>The flags of the command, with their defaults; parsing them is Go's.\<close>

record audit_flags =
  fl_go_sum :: string
  fl_allowlist :: string
  fl_proxy :: string
  fl_min_age :: int
  fl_concurrency :: int

definition default_flags :: audit_flags where
  "default_flags = \<lparr>fl_go_sum = ''go.sum'', fl_allowlist = ''.supply-chain/go-allowlist.yaml'',
     fl_proxy = ''https://proxy.golang.org'', fl_min_age = 7 * 24 * 3600 * 10 ^ 9, fl_concurrency = 10\<rparr>"

definition audit_main :: "audit_lib \<Rightarrow> (string \<Rightarrow> string \<Rightarrow> audit_files) \<Rightarrow> audit_flags \<Rightarrow> int \<Rightarrow> int \<Rightarrow> nat" where
  "audit_main lib read fl now0 now =
     exit_code (run_audit lib (read (fl_go_sum fl) (fl_allowlist fl)) (fl_go_sum fl) (fl_proxy fl)
       (fl_min_age fl) (fl_concurrency fl) now0 now)"

section \<open>Escaped paths\<close>

text \<open>What the module proxy does to an escaped path (go.dev/ref/mod): an exclamation mark raises a letter.\<close>

definition is_lower :: "char \<Rightarrow> bool" where
  "is_lower c \<longleftrightarrow> c \<in> set ''abcdefghijklmnopqrstuvwxyz''"

fun unescape_path :: "string \<Rightarrow> string option" where
  "unescape_path [] = Some []"
| "unescape_path [c] = (if c = CHR ''!'' \<or> is_upper c then None else Some [c])"
| "unescape_path (c # d # cs) =
     (if c = CHR ''!'' then
        (if is_lower d then map_option ((#) (char_of (of_char d - 32 :: nat))) (unescape_path cs) else None)
      else if is_upper c then None
      else map_option ((#) c) (unescape_path (d # cs)))"

lemma lower_upper:
  "is_upper c \<Longrightarrow> is_lower (to_lower c) \<and> char_of (of_char (to_lower c) - 32 :: nat) = c"
proof -
  have "list_all (\<lambda>c. is_lower (to_lower c) \<and> char_of (of_char (to_lower c) - 32 :: nat) = c)
      ''ABCDEFGHIJKLMNOPQRSTUVWXYZ''"
    by code_simp
  then show "is_upper c \<Longrightarrow> is_lower (to_lower c) \<and> char_of (of_char (to_lower c) - 32 :: nat) = c"
    unfolding is_upper_def list_all_iff by blast
qed

lemma unescape_plain:
  "c \<noteq> CHR ''!'' \<Longrightarrow> \<not> is_upper c \<Longrightarrow> unescape_path (c # cs) = map_option ((#) c) (unescape_path cs)"
  by (cases cs) simp_all

lemma unescape_escape: "CHR ''!'' \<notin> set s \<Longrightarrow> unescape_path (escape_path s) = Some s"
  by (induction s) (auto simp: lower_upper unescape_plain)

section \<open>Pins of a file\<close>

lemma collect_pins_keys:
  "seen = pin_key ` set pins \<Longrightarrow>
   pin_key ` set (collect_pins ls seen pins) = pin_key ` (set pins \<union> set (List.map_filter pin_of ls))"
proof (induction ls arbitrary: seen pins)
  case (Cons l ls)
  show ?case
  proof (cases "pin_of l")
    case None
    then show ?thesis using Cons by (simp add: map_filter_simps)
  next
    case (Some p)
    have "insert (pin_key p) seen = pin_key ` set (pins @ [p])" using Cons.prems by simp
    from Cons.IH [OF this] Cons.IH [OF Cons.prems] Some show ?thesis
      using Cons.prems by (auto simp: map_filter_simps)
  qed
qed (simp add: map_filter_simps)

lemma collect_pins_sub: "set (collect_pins ls seen pins) \<subseteq> set pins \<union> set (List.map_filter pin_of ls)"
proof (induction ls arbitrary: seen pins)
  case (Cons l ls)
  show ?case
  proof (cases "pin_of l")
    case (Some p)
    then show ?thesis
      using Cons.IH [of seen pins] Cons.IH [of "insert (pin_key p) seen" "pins @ [p]"] by (auto simp: map_filter_simps)
  qed (use Cons.IH [of seen pins] in \<open>simp add: map_filter_simps\<close>)
qed simp

lemma pin_key_inj:
  "CHR ''@'' \<notin> set (mp_module p) \<Longrightarrow> CHR ''@'' \<notin> set (mp_module q) \<Longrightarrow> pin_key p = pin_key q \<Longrightarrow> p = q"
  using append_sep_unique [of "mp_module p" "CHR ''@''" "mp_version p" "mp_module q" "mp_version q"]
  by (simp add: pin_key_def)

lemma collect_pins_set:
  assumes "\<forall>p\<in>set (List.map_filter pin_of ls). CHR ''@'' \<notin> set (mp_module p)"
  shows "set (collect_pins ls {} []) = set (List.map_filter pin_of ls)"
proof
  show "set (collect_pins ls {} []) \<subseteq> set (List.map_filter pin_of ls)" using collect_pins_sub [of ls "{}" "[]"] by simp
  show "set (List.map_filter pin_of ls) \<subseteq> set (collect_pins ls {} [])"
  proof
    fix p assume p: "p \<in> set (List.map_filter pin_of ls)"
    then obtain q where q: "q \<in> set (collect_pins ls {} [])" "pin_key q = pin_key p"
      using collect_pins_keys [where ls = ls and seen = "{}" and pins = "[]"]
      by (metis (no_types, lifting) Un_empty_left empty_set image_empty imageE imageI)
    then have "q \<in> set (List.map_filter pin_of ls)" using collect_pins_sub [of ls "{}" "[]"] by auto
    then show "p \<in> set (collect_pins ls {} [])" using q p assms pin_key_inj by blast
  qed
qed

section \<open>The verdict\<close>

text \<open>The policy of the allowlist: an entry for the module, for every version or this one, that has not expired.\<close>

definition excused :: "(string \<Rightarrow> int option) \<Rightarrow> allowlist_entry list \<Rightarrow> module_pin \<Rightarrow> int \<Rightarrow> bool" where
  "excused date es p now \<longleftrightarrow>
     (\<exists>e\<in>set es. al_module e = mp_module p \<and> al_version e \<in> {[], mp_version p}
        \<and> (\<exists>exp. date (al_expires e) = Some exp \<and> now \<le> exp))"

lemma matches_iff: "matches date es p now \<longleftrightarrow> excused date es p now"
  by (induction es) (auto simp: excused_def split: option.split)

lemma map_filter_empty: "List.map_filter f xs = [] \<longleftrightarrow> (\<forall>x\<in>set xs. f x = None)"
  by (induction xs) (auto simp: map_filter_simps split: option.split)

lemma fetched:
  assumes "mset (order (nat (if concurrency < 1 then 1 else concurrency)) pins) = mset pins"
    and "fetch_violations order px pins proxy cutoff concurrency = (vs, errs)"
  shows "errs = [] \<longleftrightarrow> (\<forall>p\<in>set pins. \<exists>t. fetch_info px proxy p = Inr t)"
    and "vs = [] \<longleftrightarrow> (\<forall>p\<in>set pins. \<forall>t. fetch_info px proxy p = Inr t \<longrightarrow> t \<le> cutoff)"
proof -
  note set = mset_eq_setD [OF assms(1)]
  have errs: "errs = List.map_filter (\<lambda>(p, r). case r of Inl e \<Rightarrow> Some (pin_key p @ '': '' @ e) | Inr _ \<Rightarrow> None)
      (map (\<lambda>p. (p, fetch_info px proxy p)) (order (nat (if concurrency < 1 then 1 else concurrency)) pins))"
    and vs: "vs = List.map_filter (\<lambda>(p, r). case r of
          Inl _ \<Rightarrow> None
        | Inr t \<Rightarrow> if cutoff < t then Some \<lparr>vi_pin = p, vi_published = t, vi_age = px_since px p t\<rparr> else None)
      (map (\<lambda>p. (p, fetch_info px proxy p)) (order (nat (if concurrency < 1 then 1 else concurrency)) pins))"
    using assms(2) unfolding fetch_violations_def Let_def prod.inject by blast+
  have each: "(case r of Inl (_ :: string) \<Rightarrow> None | Inr t \<Rightarrow> if cutoff < t then Some (f t) else None) = None
      \<longleftrightarrow> (\<forall>t. r = Inr t \<longrightarrow> t \<le> cutoff)" for r and f :: "int \<Rightarrow> violation"
    by (cases r) auto
  show "errs = [] \<longleftrightarrow> (\<forall>p\<in>set pins. \<exists>t. fetch_info px proxy p = Inr t)"
    unfolding errs map_filter_empty set_map image_iff set by (auto split: sum.splits) (meson sumE)
  show "vs = [] \<longleftrightarrow> (\<forall>p\<in>set pins. \<forall>t. fetch_info px proxy p = Inr t \<longrightarrow> t \<le> cutoff)"
    by (simp add: vs map_filter_empty set each)
qed

text \<open>A file of two lines for one pin, old enough.\<close>

definition example_lib :: audit_lib where
  "example_lib = \<lparr>au_yaml = (\<lambda>_. Inr []), au_date = (\<lambda>_. None), au_quote = (\<lambda>s. s), au_order = (\<lambda>_ ps. ps),
     au_proxy = \<lparr>px_get = (\<lambda>_. Inr (200, [])), px_json = (\<lambda>_. Inr 5), px_since = (\<lambda>_ t. 100 - t)\<rparr>\<rparr>"

definition example_go_sum :: string where
  "example_go_sum = ''m v1 h1'' @ [CHR 0x0A] @ ''m v1/go.mod h2'' @ [CHR 0x0A]"

lemma example_lines:
  "scan_lines example_go_sum = Inr [''m v1 h1'', ''m v1/go.mod h2'']"
  "List.map_filter pin_of [''m v1 h1'', ''m v1/go.mod h2''] =
     [\<lparr>mp_module = ''m'', mp_version = ''v1''\<rparr>, \<lparr>mp_module = ''m'', mp_version = ''v1''\<rparr>]"
  by (simp_all add: scan_lines_def example_go_sum_def max_line_def drop_cr_def map_filter_simps pin_of_def split_fields_def
      ascii_space_def trim_suffix_def has_suffix_def)

end
