(* ===== verification/Lint_Ast.thy ===== *)
theory Lint_Ast
  imports Strings
begin

text \<open>
  What the analyzers of \<open>internal/garliclint/\<close> work on: syntax trees, the walk of \<open>ast.Inspect\<close>, what
  the type checker says of a tree, and the helpers all analyzers share (\<open>helpers.go\<close>).
\<close>

section \<open>Syntax trees\<close>

text \<open>
  The nodes the analyzers tell apart, each with its position; any other node is \<open>OtherNode\<close> with its
  children. An identifier is known to the type checker by its position. Field lists are not nodes of
  their own, no analyzer looks at one.
\<close>

datatype node =
    Ident nat string
  | Selector nat node node
  | Call nat node "node list"
  | BasicLit nat string
  | Unary nat string node
  | FuncLit nat node node
  | FuncType nat "node list" "node list option"
  | Field nat "node list" node
  | AssignStmt nat "node list" "node list"
  | ValueSpec nat "node list" "node option" "node list"
  | RangeStmt nat "node option" "node option" node node
  | ReturnStmt nat "node list"
  | IfStmt nat "node option" node node "node option"
  | BlockStmt nat "node list"
  | FuncDecl nat "node list option" node node "node option"
  | OtherNode nat "node list"

definition of_opt :: "'a option \<Rightarrow> 'a list" where
  "of_opt x = (case x of None \<Rightarrow> [] | Some y \<Rightarrow> [y])"

definition of_opts :: "'a list option \<Rightarrow> 'a list" where
  "of_opts x = (case x of None \<Rightarrow> [] | Some ys \<Rightarrow> ys)"

text \<open>The children of a node in the order \<open>ast.Walk\<close> visits them.\<close>

fun children :: "node \<Rightarrow> node list" where
  "children (Ident p n) = []"
| "children (Selector p x s) = [x, s]"
| "children (Call p f args) = f # args"
| "children (BasicLit p v) = []"
| "children (Unary p op x) = [x]"
| "children (FuncLit p t b) = [t, b]"
| "children (FuncType p ps rs) = ps @ of_opts rs"
| "children (Field p ns t) = ns @ [t]"
| "children (AssignStmt p ls rs) = ls @ rs"
| "children (ValueSpec p ns t vs) = ns @ of_opt t @ vs"
| "children (RangeStmt p k v x b) = of_opt k @ of_opt v @ [x, b]"
| "children (ReturnStmt p rs) = rs"
| "children (IfStmt p i c b e) = of_opt i @ [c, b] @ of_opt e"
| "children (BlockStmt p ss) = ss"
| "children (FuncDecl p r n t b) = of_opts r @ [n, t] @ of_opt b"
| "children (OtherNode p cs) = cs"

fun pos_of :: "node \<Rightarrow> nat" where
  "pos_of (Ident p n) = p"
| "pos_of (Selector p x s) = p"
| "pos_of (Call p f args) = p"
| "pos_of (BasicLit p v) = p"
| "pos_of (Unary p op x) = p"
| "pos_of (FuncLit p t b) = p"
| "pos_of (FuncType p ps rs) = p"
| "pos_of (Field p ns t) = p"
| "pos_of (AssignStmt p ls rs) = p"
| "pos_of (ValueSpec p ns t vs) = p"
| "pos_of (RangeStmt p k v x b) = p"
| "pos_of (ReturnStmt p rs) = p"
| "pos_of (IfStmt p i c b e) = p"
| "pos_of (BlockStmt p ss) = p"
| "pos_of (FuncDecl p r n t b) = p"
| "pos_of (OtherNode p cs) = p"

lemma size_child: "c \<in> set (children n) \<Longrightarrow> size c < size n"
proof (cases n)
qed (auto simp: of_opt_def of_opts_def less_Suc_eq_le trans_le_add1 trans_le_add2
    dest!: size_list_estimation' [where f = size, OF _ order_refl] split: option.splits)

text \<open>
  \<open>ast.Inspect\<close>: the visitor says of a node what it reports and whether to descend. What it does at
  the end of a node's children, when it is called with nil, is nothing in every analyzer.
\<close>

function inspect :: "(node \<Rightarrow> 'r list \<times> bool) \<Rightarrow> node \<Rightarrow> 'r list" where
  "inspect visit n =
     (case visit n of
        (rs, descend) \<Rightarrow> if descend then rs @ concat (map (inspect visit) (children n)) else rs)"
  by pat_completeness auto
termination by (relation "measure (\<lambda>(visit, n). size n)") (auto simp: size_child)

declare inspect.simps [simp del]

section \<open>Types and objects\<close>

text \<open>
  The types the analyzers tell apart: a named type has the path of its package, if any, and a name; a
  signature has parameters, results, a receiver and whether it is variadic.
\<close>

datatype go_type =
    NamedType "string option" string
  | PointerType go_type
  | AliasType go_type
  | TupleType "go_type list"
  | Signature "go_type list" "go_type list" "go_type option" bool
  | OtherType string

fun unalias :: "go_type \<Rightarrow> go_type" where
  "unalias (AliasType t) = unalias t"
| "unalias t = t"

text \<open>An object is a function when it has a signature.\<close>

record object =
  ob_id :: nat
  ob_pkg :: "string option"
  ob_name :: string
  ob_type :: "go_type option"

text \<open>
  What the type checker knows: the object an identifier uses or defines, the type of an expression,
  and which types implement the interface \<open>error\<close>.
\<close>

record type_info =
  ti_uses :: "nat \<Rightarrow> object option"
  ti_defs :: "nat \<Rightarrow> object option"
  ti_type :: "node \<Rightarrow> go_type option"
  ti_implements_error :: "go_type \<Rightarrow> bool"

section \<open>Packages, files and reports\<close>

text \<open>
  A package of the type checker: its identity, its path, the packages it imports, and the underlying
  types of the objects in its scope. Go has no import cycles, so a package is a tree, in which one
  identity may occur many times. An interface is the list of its methods.
\<close>

datatype underlying = Interface "object list" | OtherUnderlying

datatype package = Package nat string "package list" "string \<Rightarrow> underlying option"

text \<open>
  The questions the code asks \<open>go/types\<close> about types: are two identical, does one implement an
  interface, what are the methods of one, which of them has a name seen from a package, and what is
  its text with full package paths.
\<close>

record type_rules =
  ty_identical :: "go_type \<Rightarrow> go_type \<Rightarrow> bool"
  ty_implements :: "go_type \<Rightarrow> object list \<Rightarrow> bool"
  ty_methods :: "go_type \<Rightarrow> object list"
  ty_lookup :: "go_type \<Rightarrow> string option \<Rightarrow> string \<Rightarrow> object option"
  ty_string :: "go_type \<Rightarrow> string"

definition garlicErrorsPath :: string where
  "garlicErrorsPath = ''github.com/luanguimaraesla/garlic/errors''"

text \<open>An import has a position and its quoted path.\<close>

record go_file =
  gf_name :: string
  gf_imports :: "(nat \<times> string) list"
  gf_decls :: "node list"

text \<open>What an analyzer gets: a package, its files, and how to import the export data of another.\<close>

record pass =
  ps_path :: string
  ps_files :: "go_file list"
  ps_info :: type_info
  ps_types :: type_rules
  ps_package :: package
  ps_import :: "string \<Rightarrow> package option"

type_synonym report = "nat \<times> string"

definition rule_msg :: "string \<Rightarrow> string \<Rightarrow> string" where
  "rule_msg rule message = ''['' @ rule @ ''] '' @ message"

definition report :: "nat \<Rightarrow> string \<Rightarrow> string \<Rightarrow> report" where
  "report pos rule message = (pos, rule_msg rule message)"

definition inspect_file :: "(node \<Rightarrow> 'r list \<times> bool) \<Rightarrow> go_file \<Rightarrow> 'r list" where
  "inspect_file visit f = concat (map (inspect visit) (gf_decls f))"

definition is_garlic_package :: "pass \<Rightarrow> string \<Rightarrow> bool" where
  "is_garlic_package ps name \<longleftrightarrow> ps_path ps = ''github.com/luanguimaraesla/garlic/'' @ name"

definition quotes :: "char set" where
  "quotes = {CHR 0x22}"

definition imports_garlic_errors :: "go_file \<Rightarrow> bool" where
  "imports_garlic_errors f \<longleftrightarrow> list_ex (\<lambda>(p, path). trim_set quotes path = garlicErrorsPath) (gf_imports f)"

definition package_imports_garlic_errors :: "pass \<Rightarrow> bool" where
  "package_imports_garlic_errors ps \<longleftrightarrow> list_ex imports_garlic_errors (ps_files ps)"

definition is_lint_test_file :: "go_file \<Rightarrow> bool" where
  "is_lint_test_file f = has_suffix (gf_name f) ''_test.go''"

section \<open>Names and constructors\<close>

fun is_nil :: "node \<Rightarrow> bool" where
  "is_nil (Ident p n) = (n = ''nil'')"
| "is_nil _ = False"

definition qualified_name :: "object option \<Rightarrow> string" where
  "qualified_name ob =
     (case ob of
        None \<Rightarrow> []
      | Some x \<Rightarrow> (case ob_pkg x of None \<Rightarrow> [] | Some path \<Rightarrow> path @ ''.'' @ ob_name x))"

fun object_name :: "type_info \<Rightarrow> node \<Rightarrow> string" where
  "object_name info (Ident p n) = qualified_name (ti_uses info p)"
| "object_name info (Selector p x (Ident q n)) = qualified_name (ti_uses info q)"
| "object_name info _ = []"

definition as_func :: "object option \<Rightarrow> object option" where
  "as_func ob = (case ob of Some x \<Rightarrow> if ob_type x = None then None else Some x | None \<Rightarrow> None)"

fun call_object :: "type_info \<Rightarrow> node \<Rightarrow> object option" where
  "call_object info (Ident p n) = as_func (ti_uses info p)"
| "call_object info (Selector p x (Ident q n)) = as_func (ti_uses info q)"
| "call_object info _ = None"

fun receiver_of :: "go_type option \<Rightarrow> go_type option" where
  "receiver_of (Some (Signature ps rs recv v)) = recv"
| "receiver_of _ = None"

definition receiver_type_name :: "object \<Rightarrow> string" where
  "receiver_type_name fn =
     (case receiver_of (ob_type fn) of
        None \<Rightarrow> []
      | Some t \<Rightarrow>
          (case (case t of PointerType u \<Rightarrow> u | _ \<Rightarrow> t) of
             NamedType (Some path) name \<Rightarrow> if path \<noteq> garlicErrorsPath then [] else name
           | _ \<Rightarrow> []))"

definition receiver_package_path :: "object \<Rightarrow> string" where
  "receiver_package_path fn =
     (case receiver_of (ob_type fn) of
        None \<Rightarrow> []
      | Some t \<Rightarrow>
          (case (case unalias t of PointerType u \<Rightarrow> unalias u | u \<Rightarrow> u) of
             NamedType (Some path) name \<Rightarrow> path
           | _ \<Rightarrow> []))"

text \<open>Of a call, by the expression it calls.\<close>

definition is_garlic_constructor :: "type_info \<Rightarrow> node \<Rightarrow> bool" where
  "is_garlic_constructor info callee =
     (case call_object info callee of
        None \<Rightarrow> False
      | Some fn \<Rightarrow>
          if ob_pkg fn \<noteq> Some garlicErrorsPath then False
          else if receiver_type_name fn = [] then
            ob_name fn \<in> {''Propagate'', ''PropagateAs'', ''New'', ''Raw'', ''From'', ''Override'', ''Mirror'', ''MirrorOverride''}
          else if receiver_type_name fn = ''ErrorT'' then ob_name fn = ''With''
          else if receiver_type_name fn = ''TemplateT'' then ob_name fn = ''New'' \<or> ob_name fn = ''Propagate''
          else False)"

section \<open>Error results\<close>

definition is_error_type :: "type_info \<Rightarrow> go_type option \<Rightarrow> bool" where
  "is_error_type info t = (case t of None \<Rightarrow> False | Some u \<Rightarrow> ti_implements_error info u)"

fun field_type :: "node \<Rightarrow> node" where
  "field_type (Field p ns t) = t"
| "field_type n = n"

fun field_names :: "node \<Rightarrow> node list" where
  "field_names (Field p ns t) = ns"
| "field_names n = []"

definition returns_error :: "type_info \<Rightarrow> node list option \<Rightarrow> bool" where
  "returns_error info results =
     (case results of
        None \<Rightarrow> False
      | Some fs \<Rightarrow> list_ex (\<lambda>f. is_error_type info (ti_type info (field_type f))) fs)"

definition flattened_field_types :: "type_info \<Rightarrow> node list \<Rightarrow> go_type option list" where
  "flattened_field_types info fs =
     concat (map (\<lambda>f. replicate (if field_names f = [] then 1 else length (field_names f))
       (ti_type info (field_type f))) fs)"

definition is_named_type :: "go_type option \<Rightarrow> string \<Rightarrow> string \<Rightarrow> bool" where
  "is_named_type t path name =
     (case map_option unalias t of Some (NamedType (Some p) n) \<Rightarrow> p = path \<and> n = name | _ \<Rightarrow> False)"

definition ident_object :: "type_info \<Rightarrow> node \<Rightarrow> object option" where
  "ident_object info e =
     (case e of
        Ident p n \<Rightarrow> (case ti_defs info p of Some ob \<Rightarrow> Some ob | None \<Rightarrow> ti_uses info p)
      | _ \<Rightarrow> None)"

text \<open>What \<open>assignedValues\<close> collects of a node: a value, or that the object is opaque.\<close>

datatype assigned = AssignedValue node | Opaque

definition assigned_here :: "type_info \<Rightarrow> object \<Rightarrow> node \<Rightarrow> assigned list" where
  "assigned_here info ob n =
     (case n of
        AssignStmt p ls rs \<Rightarrow>
          if length ls = length rs then
            map (AssignedValue \<circ> snd) (filter (\<lambda>(l, r). ident_object info l = Some ob) (zip ls rs))
          else map (\<lambda>_. Opaque) (filter (\<lambda>l. ident_object info l = Some ob) ls)
      | ValueSpec p ns t vs \<Rightarrow>
          if length vs = length ns then
            map (AssignedValue \<circ> snd) (filter (\<lambda>(x, v). (case x of Ident q m \<Rightarrow> ti_defs info q | _ \<Rightarrow> None) = Some ob) (zip ns vs))
          else if vs \<noteq> [] then
            map (\<lambda>_. Opaque) (filter (\<lambda>x. (case x of Ident q m \<Rightarrow> ti_defs info q | _ \<Rightarrow> None) = Some ob) ns)
          else []
      | Unary p op x \<Rightarrow> if op = ''&'' \<and> ident_object info x = Some ob then [Opaque] else []
      | RangeStmt p k v x b \<Rightarrow>
          if Option.bind k (ident_object info) = Some ob \<or> Option.bind v (ident_object info) = Some ob then [Opaque] else []
      | _ \<Rightarrow> [])"

definition assigned_values :: "type_info \<Rightarrow> node \<Rightarrow> object \<Rightarrow> assigned list" where
  "assigned_values info root ob = inspect (\<lambda>n. (assigned_here info ob n, True)) root"

definition never_assigned :: "type_info \<Rightarrow> node \<Rightarrow> object \<Rightarrow> bool" where
  "never_assigned info root ob \<longleftrightarrow> assigned_values info root ob = []"

definition constructor_call :: "type_info \<Rightarrow> node \<Rightarrow> bool" where
  "constructor_call info e = (case e of Call p f args \<Rightarrow> is_garlic_constructor info f | _ \<Rightarrow> False)"

definition is_propagated_var :: "type_info \<Rightarrow> node \<Rightarrow> object \<Rightarrow> bool" where
  "is_propagated_var info root ob \<longleftrightarrow>
     (let vs = assigned_values info root ob in
      Opaque \<notin> set vs \<and> vs \<noteq> []
      \<and> list_all (\<lambda>v. case v of AssignedValue e \<Rightarrow> constructor_call info e | Opaque \<Rightarrow> False) vs)"

definition explicit_error_returns :: "type_info \<Rightarrow> node list \<Rightarrow> go_type option list \<Rightarrow> node list" where
  "explicit_error_returns info results types = map fst (filter (\<lambda>(e, t). is_error_type info t) (zip results types))"

definition tuple_error_return :: "type_info \<Rightarrow> node \<Rightarrow> go_type option list \<Rightarrow> node list" where
  "tuple_error_return info e types =
     (case ti_type info e of
        Some (TupleType ts) \<Rightarrow>
          if length ts = length types
             \<and> list_ex (\<lambda>(t, u). is_error_type info t \<and> is_error_type info (Some u)) (zip types ts)
          then [e] else []
      | _ \<Rightarrow> [])"

definition named_error_results :: "type_info \<Rightarrow> node list \<Rightarrow> node \<Rightarrow> node list" where
  "named_error_results info results body =
     concat (map (\<lambda>f.
       if \<not> is_error_type info (ti_type info (field_type f)) then []
       else filter (\<lambda>x. \<not> (case (case x of Ident q m \<Rightarrow> ti_defs info q | _ \<Rightarrow> None) of
              Some ob \<Rightarrow> never_assigned info body ob | None \<Rightarrow> False)) (field_names f)) results)"

definition error_return_expressions :: "type_info \<Rightarrow> node list \<Rightarrow> node list option \<Rightarrow> node \<Rightarrow> node list" where
  "error_return_expressions info returned results body =
     (case results of
        None \<Rightarrow> []
      | Some fs \<Rightarrow>
          if returned = [] then named_error_results info fs body
          else
            let types = flattened_field_types info fs in
            if length returned = length types then explicit_error_returns info returned types
            else if length returned = 1 then tuple_error_return info (hd returned) types
            else [])"

end
