(* ===== verification/Lint_Types.thy ===== *)
theory Lint_Types
  imports Lint_Ast
begin

text \<open>
  Methods an interface of the standard library asks for (\<open>isForeignInterfaceMethod\<close> of
  \<open>internal/garliclint/helpers.go\<close>): finding the package of the interface among the imports, and
  comparing the method with those of the interface.
\<close>

section \<open>Finding a package\<close>

text \<open>
  The depth-first search of \<open>importedPackage\<close>, with the packages seen: a package is marked when it is
  not the one sought, before its imports are searched.
\<close>

fun find_package :: "string \<Rightarrow> package \<Rightarrow> nat set \<Rightarrow> package option \<times> nat set"
  and find_imports :: "string \<Rightarrow> package list \<Rightarrow> nat set \<Rightarrow> package option \<times> nat set" where
  "find_package path (Package i p imports scope) seen =
     (if i \<in> seen then (None, seen)
      else if p = path then (Some (Package i p imports scope), seen)
      else find_imports path imports (insert i seen))"
| "find_imports path [] seen = (None, seen)"
| "find_imports path (q # qs) seen =
     (case find_package path q seen of
        (Some found, seen') \<Rightarrow> (Some found, seen')
      | (None, seen') \<Rightarrow> find_imports path qs seen')"

definition imported_package :: "package \<Rightarrow> string \<Rightarrow> package option" where
  "imported_package root path = fst (find_package path root {})"

fun package_id :: "package \<Rightarrow> nat" where
  "package_id (Package i p imports scope) = i"

fun package_path :: "package \<Rightarrow> string" where
  "package_path (Package i p imports scope) = p"

fun package_imports :: "package \<Rightarrow> package list" where
  "package_imports (Package i p imports scope) = imports"

fun package_lookup :: "package \<Rightarrow> string \<Rightarrow> underlying option" where
  "package_lookup (Package i p imports scope) = scope"

section \<open>Comparing methods\<close>

definition named_interface :: "package \<Rightarrow> string \<Rightarrow> object list option" where
  "named_interface pkg name = (case package_lookup pkg name of Some (Interface ms) \<Rightarrow> Some ms | _ \<Rightarrow> None)"

fun receiver_base_type :: "go_type \<Rightarrow> go_type" where
  "receiver_base_type (PointerType t) = t"
| "receiver_base_type t = t"

definition receiver_types :: "go_type \<Rightarrow> go_type list" where
  "receiver_types r = [r, receiver_base_type r, PointerType (receiver_base_type r)]"

text \<open>The types whose method sets are searched for the method.\<close>

definition method_sets :: "type_rules \<Rightarrow> go_type \<Rightarrow> go_type list" where
  "method_sets ty r =
     (let base = receiver_base_type r in
      [r] @ (if ty_identical ty base r then [] else [base]) @ [PointerType base])"

definition method_declared_on_receiver :: "type_rules \<Rightarrow> go_type \<Rightarrow> object \<Rightarrow> bool" where
  "method_declared_on_receiver ty r m \<longleftrightarrow>
     list_ex (\<lambda>t. ty_lookup ty t (ob_pkg m) (ob_name m) = Some m) (method_sets ty r)"

definition implements_interface :: "type_rules \<Rightarrow> go_type \<Rightarrow> object list \<Rightarrow> bool" where
  "implements_interface ty r iface \<longleftrightarrow> list_ex (\<lambda>t. ty_implements ty t iface) (receiver_types r)"

definition same_tuple_types :: "type_rules \<Rightarrow> go_type list \<Rightarrow> go_type list \<Rightarrow> bool" where
  "same_tuple_types ty ts us \<longleftrightarrow> list_all2 (ty_identical ty) ts us"

definition same_canonical_tuple_types :: "type_rules \<Rightarrow> go_type list \<Rightarrow> go_type list \<Rightarrow> bool" where
  "same_canonical_tuple_types ty ts us \<longleftrightarrow> list_all2 (\<lambda>t u. ty_string ty t = ty_string ty u) ts us"

definition same_method_signature :: "type_rules \<Rightarrow> object \<Rightarrow> object \<Rightarrow> bool" where
  "same_method_signature ty actual expected \<longleftrightarrow>
     (case (ob_type actual, ob_type expected) of
        (Some (Signature ps rs r v), Some (Signature ps' rs' r' v')) \<Rightarrow>
          v = v' \<and> same_tuple_types ty ps ps' \<and> same_tuple_types ty rs rs'
      | _ \<Rightarrow> False)"

definition same_canonical_method_signature :: "type_rules \<Rightarrow> object \<Rightarrow> object \<Rightarrow> bool" where
  "same_canonical_method_signature ty actual expected \<longleftrightarrow>
     (case (ob_type actual, ob_type expected) of
        (Some (Signature ps rs r v), Some (Signature ps' rs' r' v')) \<Rightarrow>
          v = v' \<and> same_canonical_tuple_types ty ps ps' \<and> same_canonical_tuple_types ty rs rs'
      | _ \<Rightarrow> False)"

definition method_set_has_canonical_method :: "type_rules \<Rightarrow> object list \<Rightarrow> object \<Rightarrow> bool" where
  "method_set_has_canonical_method ty ms expected \<longleftrightarrow>
     list_ex (\<lambda>m. ob_type m \<noteq> None \<and> ob_name m = ob_name expected \<and> same_canonical_method_signature ty m expected) ms"

definition implements_canonical_interface :: "type_rules \<Rightarrow> go_type \<Rightarrow> object list \<Rightarrow> bool" where
  "implements_canonical_interface ty r iface \<longleftrightarrow>
     list_ex (\<lambda>t. list_all (method_set_has_canonical_method ty (ty_methods ty t)) iface) (receiver_types r)"

definition is_foreign_interface_method_match :: "type_rules \<Rightarrow> go_type \<Rightarrow> object \<Rightarrow> object list \<Rightarrow> bool \<Rightarrow> bool" where
  "is_foreign_interface_method_match ty r m iface canonical \<longleftrightarrow>
     (let implements = (if canonical then implements_canonical_interface ty else implements_interface ty);
          same_signature = (if canonical then same_canonical_method_signature ty else same_method_signature ty) in
      implements r iface \<and> list_ex (\<lambda>i. ob_name i = ob_name m \<and> same_signature m i) iface)"

section \<open>Foreign methods\<close>

definition foreign_interfaces :: "(string \<times> string) list" where
  "foreign_interfaces =
     [(''io'', ''Reader''), (''io'', ''Writer''), (''io'', ''Closer''), (''io'', ''ReadWriter''),
      (''io'', ''ReadCloser''), (''io'', ''WriteCloser''), (''io'', ''ReadWriteCloser''),
      (''io'', ''ReaderAt''), (''io'', ''WriterAt''), (''io'', ''Seeker''), (''io'', ''StringWriter''),
      (''net/http'', ''RoundTripper''), (''net/http'', ''Handler''), (''database/sql'', ''Scanner''),
      (''database/sql/driver'', ''Valuer'')]"

text \<open>
  One interface of the list: in the package the analyzed one imports, or else in the export data of
  the default importer, whose types are not those of the analyzed package and are compared by text.
\<close>

definition asked_by :: "pass \<Rightarrow> go_type \<Rightarrow> object \<Rightarrow> string \<times> string \<Rightarrow> bool" where
  "asked_by ps r m target =
     (case target of
        (path, name) \<Rightarrow>
          (case imported_package (ps_package ps) path of
             Some pkg \<Rightarrow>
               (case named_interface pkg name of
                  Some iface \<Rightarrow> is_foreign_interface_method_match (ps_types ps) r m iface False
                | None \<Rightarrow> False)
           | None \<Rightarrow>
               (case ps_import ps path of
                  None \<Rightarrow> False
                | Some pkg \<Rightarrow>
                    (case named_interface pkg name of
                       Some iface \<Rightarrow> is_foreign_interface_method_match (ps_types ps) r m iface True
                     | None \<Rightarrow> False))))"

definition is_foreign_interface_method :: "pass \<Rightarrow> node \<Rightarrow> bool" where
  "is_foreign_interface_method ps d =
     (case d of
        FuncDecl p (Some (recv # rest)) (Ident q n) t b \<Rightarrow>
          (case (as_func (ti_defs (ps_info ps) q), ti_type (ps_info ps) (field_type recv)) of
             (Some m, Some r) \<Rightarrow>
               method_declared_on_receiver (ps_types ps) r m
               \<and> list_ex (asked_by ps r m) foreign_interfaces
           | _ \<Rightarrow> False)
      | _ \<Rightarrow> False)"

section \<open>The search finds what is there\<close>

text \<open>The packages a package reaches, itself among them.\<close>

inductive imports_closure :: "package \<Rightarrow> package \<Rightarrow> bool" where
  itself: "imports_closure p p"
| through: "q \<in> set (package_imports p) \<Longrightarrow> imports_closure q r \<Longrightarrow> imports_closure p r"

lemma imports_closure_package:
  "imports_closure (Package i p im scope) r \<longleftrightarrow>
     r = Package i p im scope \<or> (\<exists>q\<in>set im. imports_closure q r)"
  by (subst imports_closure.simps) auto

lemma imports_closure_step:
  "imports_closure p q \<Longrightarrow> r \<in> set (package_imports q) \<Longrightarrow> imports_closure p r"
  by (induction rule: imports_closure.induct) (blast intro: imports_closure.intros)+

lemma found_reachable:
  "find_package path p seen = (Some r, seen') \<Longrightarrow> imports_closure p r \<and> package_path r = path"
  "find_imports path qs seen = (Some r, seen') \<Longrightarrow> \<exists>q\<in>set qs. imports_closure q r \<and> package_path r = path"
proof (induction path p seen and path qs seen arbitrary: seen' and seen' rule: find_package_find_imports.induct)
  case (1 path i p im scope seen)
  then show ?case by (auto simp: imports_closure_package split: if_splits)
next
  case (3 path q qs seen)
  then show ?case by (auto split: prod.splits option.splits)
qed simp

text \<open>
  A search that finds nothing has seen everything: what it marked is closed under imports, apart from
  what was marked when it began, and none of it has the path.
\<close>

definition searched :: "(package \<Rightarrow> bool) \<Rightarrow> string \<Rightarrow> nat set \<Rightarrow> nat set \<Rightarrow> bool" where
  "searched known path seen seen' \<longleftrightarrow> seen \<subseteq> seen'
   \<and> (\<forall>p. known p \<longrightarrow> package_id p \<in> seen' - seen \<longrightarrow>
        package_path p \<noteq> path \<and> package_id ` set (package_imports p) \<subseteq> seen')"

lemma searched_trans: "searched k path a b \<Longrightarrow> searched k path b c \<Longrightarrow> searched k path a c"
  unfolding searched_def by blast

lemma search_exhausts:
  assumes one: "\<And>p q. known p \<Longrightarrow> known q \<Longrightarrow> package_id p = package_id q \<Longrightarrow> p = q"
    and closed: "\<And>p q. known p \<Longrightarrow> q \<in> set (package_imports p) \<Longrightarrow> known q"
  shows "known p \<Longrightarrow> find_package path p seen = (None, seen') \<Longrightarrow>
      searched known path seen seen' \<and> package_id p \<in> seen'"
    and "list_all known qs \<Longrightarrow> find_imports path qs seen = (None, seen') \<Longrightarrow>
      searched known path seen seen' \<and> package_id ` set qs \<subseteq> seen'"
proof (induction path p seen and path qs seen arbitrary: seen' and seen' rule: find_package_find_imports.induct)
  case (1 path i p im scope seen)
  show ?case
  proof (cases "i \<in> seen")
    case True
    then show ?thesis using 1 by (simp add: searched_def)
  next
    case False
    then have step: "p \<noteq> path" "find_imports path im (insert i seen) = (None, seen')"
      using 1 by (auto split: if_splits)
    moreover have "list_all known im" using closed [OF "1.prems"(1)] by (simp add: list_all_iff)
    ultimately have sub: "searched known path (insert i seen) seen'" "package_id ` set im \<subseteq> seen'"
      using "1.IH" False by blast+
    have "q = Package i p im scope" if "known q" "package_id q = i" for q
      using one [OF that(1) "1.prems"(1)] that by simp
    then show ?thesis using sub step(1) unfolding searched_def by fastforce
  qed
next
  case (3 path q qs seen)
  obtain mid where mid: "find_package path q seen = (None, mid)" "find_imports path qs mid = (None, seen')"
    using "3.prems" by (auto split: prod.splits option.splits)
  then have first: "searched known path seen mid" "package_id q \<in> mid"
    using "3.IH"(1) "3.prems" by simp_all
  have rest: "searched known path mid seen'" "package_id ` set qs \<subseteq> seen'"
    using "3.IH"(2) [OF mid(1) [symmetric] refl] "3.prems" mid(2) by simp_all
  have "searched known path seen seen'" using first(1) rest(1) by (rule searched_trans)
  moreover have "package_id q \<in> seen'" using first(2) rest(1) unfolding searched_def by blast
  ultimately show ?case using rest(2) by simp
qed (simp add: searched_def)

lemma closure_searched:
  assumes "imports_closure p r" and "\<And>p q. known p \<Longrightarrow> q \<in> set (package_imports p) \<Longrightarrow> known q"
    and "known p" and "searched known path {} seen" and "package_id p \<in> seen"
  shows "package_id r \<in> seen"
  using assms
proof (induction rule: imports_closure.induct)
  case (through q p r)
  have "package_id q \<in> seen" using through.hyps(1) through.prems(2-4) unfolding searched_def by blast
  moreover have "known q" using through.hyps(1) through.prems(1,2) by blast
  ultimately show ?case using through.IH through.prems(1,3) by blast
qed simp

text \<open>
  The search for a package finds exactly what the imports reach. When no two different packages
  among those the analyzed one reaches have the same identity, \<open>importedPackage\<close> returns a package
  exactly when one of the sought path is reached, through any number of imports, and what it returns
  is one. Marking packages as seen loses none, although a package may be reached on many ways.
\<close>

theorem imported_package_finds:
  assumes one: "\<forall>p q. imports_closure root p \<longrightarrow> imports_closure root q \<longrightarrow> package_id p = package_id q \<longrightarrow> p = q"
  shows "(\<forall>p. imported_package root path = Some p \<longrightarrow> imports_closure root p \<and> package_path p = path)
    \<and> (imported_package root path = None \<longleftrightarrow> (\<forall>p. imports_closure root p \<longrightarrow> package_path p \<noteq> path))"
proof -
  let ?known = "imports_closure root"
  obtain r seen where f: "find_package path root {} = (r, seen)" by fastforce
  have found: "?known p \<and> package_path p = path" if "imported_package root path = Some p" for p
    using that f found_reachable(1) unfolding imported_package_def by simp
  have none: "package_path p \<noteq> path" if r: "imported_package root path = None" and p: "?known p" for p
  proof -
    have "find_package path root {} = (None, seen)" using r f by (simp add: imported_package_def)
    then have s: "searched ?known path {} seen \<and> package_id root \<in> seen"
      using one imports_closure.itself imports_closure_step by (intro search_exhausts(1)) blast+
    then have "package_id p \<in> seen" using closure_searched [OF p] imports_closure.itself imports_closure_step by blast
    then show ?thesis using s p by (simp add: searched_def)
  qed
  show ?thesis using found none by (metis not_None_eq)
qed

text \<open>A package that imports \<open>io\<close> through two others.\<close>

definition io_package :: package where
  "io_package = Package 3 ''io'' [] (\<lambda>_. None)"

definition importer_of_io :: "nat \<Rightarrow> string \<Rightarrow> package" where
  "importer_of_io i path = Package i path [io_package] (\<lambda>_. None)"

definition diamond :: package where
  "diamond = Package 0 ''a'' [importer_of_io 1 ''b'', importer_of_io 2 ''c''] (\<lambda>_. None)"

lemma diamond_closure:
  "imports_closure diamond p \<longleftrightarrow> p \<in> {diamond, importer_of_io 1 ''b'', importer_of_io 2 ''c'', io_package}"
proof -
  have "imports_closure io_package p \<longleftrightarrow> p = io_package" for p
    unfolding io_package_def imports_closure_package by simp
  then have "imports_closure (importer_of_io i path) p \<longleftrightarrow> p = importer_of_io i path \<or> p = io_package" for i path p
    unfolding importer_of_io_def imports_closure_package by simp
  then show ?thesis unfolding diamond_def imports_closure_package by auto
qed

lemma diamond_ids:
  "package_id diamond = 0" "package_id (importer_of_io i path) = i" "package_id io_package = 3"
  "package_path diamond = ''a''" "package_path (importer_of_io i path) = path" "package_path io_package = ''io''"
  by (simp_all add: diamond_def importer_of_io_def io_package_def)

theorem imported_package_finds_witness:
  "imported_package diamond ''io'' = Some io_package \<and> imports_closure diamond io_package
   \<and> imported_package diamond ''net/http'' = None"
proof (intro conjI)
  note facts = imported_package_finds [of diamond]
  have one: "\<forall>p q. imports_closure diamond p \<longrightarrow> imports_closure diamond q \<longrightarrow> package_id p = package_id q \<longrightarrow> p = q"
    unfolding diamond_closure by (auto simp: diamond_ids)
  show io: "imported_package diamond ''io'' = Some io_package"
    by (simp add: imported_package_def diamond_def importer_of_io_def io_package_def)
  then show "imports_closure diamond io_package" using facts [OF one, of "''io''"] by blast
  show "imported_package diamond ''net/http'' = None"
    using facts [OF one, of "''net/http''"] unfolding diamond_closure by (auto simp: diamond_ids)
qed

end
