(* ===== verification/Lint_Rules.thy ===== *)
theory Lint_Rules
  imports Lint_Types
begin

text \<open>
  The analyzers of \<open>internal/garliclint/\<close> over syntax trees: error propagation, standard library
  errors, error contexts as parameters, \<open>zap.Error\<close>, loggers, transactions, validator errors and
  error responses in handlers. Each is a function from a package to its reports, in the order of the
  walk.
\<close>

section \<open>Propagation\<close>

definition is_propagated_ident :: "type_info \<Rightarrow> node \<Rightarrow> nat \<Rightarrow> bool" where
  "is_propagated_ident info body p =
     (case (case ti_uses info p of Some ob \<Rightarrow> Some ob | None \<Rightarrow> ti_defs info p) of
        None \<Rightarrow> False
      | Some ob \<Rightarrow> is_propagated_var info body ob)"

fun last_error_result :: "type_info \<Rightarrow> go_type option \<Rightarrow> bool" where
  "last_error_result info (Some (Signature ps rs recv v)) = (rs \<noteq> [] \<and> is_error_type info (Some (last rs)))"
| "last_error_result info _ = False"

definition is_classification_call :: "type_info \<Rightarrow> node \<Rightarrow> bool" where
  "is_classification_call info e =
     (case e of
        Call p f args \<Rightarrow>
          \<not> (is_garlic_constructor info f \<or> object_name info f = ''fmt.Errorf'')
          \<and> last_error_result info (ti_type info f)
          \<and> list_ex (\<lambda>a. is_error_type info (ti_type info a)) args
      | _ \<Rightarrow> False)"

definition G002 :: string where
  "G002 = ''classification helper returned bare: wrap with errors.Propagate so the current function joins the reverse trace''"

definition G001 :: string where
  "G001 = ''error returned without errors.Propagate: bare return breaks the reverse trace''"

text \<open>The expressions a return may hold, and the report of any other.\<close>

definition propagated :: "type_info \<Rightarrow> node \<Rightarrow> node \<Rightarrow> bool" where
  "propagated info body e \<longleftrightarrow>
     is_nil e \<or> constructor_call info e \<or> (case e of Ident p n \<Rightarrow> is_propagated_ident info body p | _ \<Rightarrow> False)"

definition bare_report :: "type_info \<Rightarrow> node \<Rightarrow> report" where
  "bare_report info e =
     (if is_classification_call info e then report (pos_of e) ''G0.02'' G002 else report (pos_of e) ''G0.01'' G001)"

definition check_return :: "type_info \<Rightarrow> node list option \<Rightarrow> node \<Rightarrow> node list \<Rightarrow> report list" where
  "check_return info results body returned =
     map (bare_report info)
       (filter (\<lambda>e. \<not> propagated info body e) (error_return_expressions info returned results body))"

definition visit_return :: "type_info \<Rightarrow> node option \<Rightarrow> node list option \<Rightarrow> node \<Rightarrow> node \<Rightarrow> report list \<times> bool" where
  "visit_return info decl results body n =
     (case n of
        FuncDecl p r m t b \<Rightarrow> ([], Some n \<noteq> decl)
      | FuncLit p t b \<Rightarrow> ([], False)
      | ReturnStmt p returned \<Rightarrow> (check_return info results body returned, True)
      | _ \<Rightarrow> ([], True))"

text \<open>\<open>checkLogThenReturn\<close>: the last error a statement logs, and the returns after it.\<close>

definition logs_error :: "type_info \<Rightarrow> node \<Rightarrow> object list" where
  "logs_error info a =
     (case a of
        Call p f [Ident q n] \<Rightarrow>
          if object_name info f = garlicErrorsPath @ ''.Zap'' \<or> object_name info f = ''go.uber.org/zap.Error''
          then of_opt (ti_uses info q) else []
      | _ \<Rightarrow> [])"

definition logged_in :: "type_info \<Rightarrow> node \<Rightarrow> object list" where
  "logged_in info stmt =
     inspect (\<lambda>n. (case n of Call p f args \<Rightarrow> concat (map (logs_error info) args) | _ \<Rightarrow> [], True)) stmt"

definition G007 :: string where
  "G007 = ''error logged then returned unpropagated: propagate first so the log includes the full reverse trace''"

definition returns_logged :: "type_info \<Rightarrow> node \<Rightarrow> object \<Rightarrow> node \<Rightarrow> report list" where
  "returns_logged info body ob stmt =
     (case stmt of
        ReturnStmt p returned \<Rightarrow>
          concat (map (\<lambda>e. case e of
              Ident q n \<Rightarrow>
                if ti_uses info q \<noteq> Some ob \<or> is_propagated_var info body ob then []
                else [report q ''G0.07'' G007]
            | _ \<Rightarrow> []) returned)
      | _ \<Rightarrow> [])"

fun log_then_return :: "type_info \<Rightarrow> node \<Rightarrow> object option \<Rightarrow> node list \<Rightarrow> report list" where
  "log_then_return info body logged [] = []"
| "log_then_return info body logged (s # ss) =
     (let now = (if logged_in info s = [] then logged else Some (last (logged_in info s))) in
      (case now of None \<Rightarrow> [] | Some ob \<Rightarrow> returns_logged info body ob s) @ log_then_return info body now ss)"

fun stmts_of :: "node \<Rightarrow> node list" where
  "stmts_of (BlockStmt p ss) = ss"
| "stmts_of _ = []"

definition check_log_then_return :: "type_info \<Rightarrow> node \<Rightarrow> report list" where
  "check_log_then_return info body =
     concat (map (\<lambda>s. case s of IfStmt p i c b e \<Rightarrow> log_then_return info body None (stmts_of b) | _ \<Rightarrow> [])
       (stmts_of body))"

fun results_of :: "node \<Rightarrow> node list option" where
  "results_of (FuncType p ps rs) = rs"
| "results_of _ = None"

fun params_of :: "node \<Rightarrow> node list" where
  "params_of (FuncType p ps rs) = ps"
| "params_of _ = []"

definition check_propagation_function :: "pass \<Rightarrow> node \<Rightarrow> node option \<Rightarrow> node option \<Rightarrow> report list" where
  "check_propagation_function ps signature body decl =
     (case body of
        None \<Rightarrow> []
      | Some b \<Rightarrow>
          if \<not> returns_error (ps_info ps) (results_of signature)
             \<or> (case decl of Some d \<Rightarrow> is_foreign_interface_method ps d | None \<Rightarrow> False) then []
          else inspect (visit_return (ps_info ps) decl (results_of signature) b) b
               @ check_log_then_return (ps_info ps) b)"

definition G004 :: string where
  "G004 = ''fmt.Errorf wraps an error: use errors.Propagate to preserve the reverse trace''"

definition check_fmt_errorf :: "type_info \<Rightarrow> nat \<Rightarrow> node \<Rightarrow> node list \<Rightarrow> report list" where
  "check_fmt_errorf info pos f args =
     (if object_name info f \<noteq> ''fmt.Errorf'' \<or> length args < 2 then []
      else case hd args of
             BasicLit p v \<Rightarrow>
               if contains v ''%'' \<and> list_ex (\<lambda>a. is_error_type info (ti_type info a)) (tl args)
               then [report pos ''G0.04'' G004] else []
           | _ \<Rightarrow> [])"

definition G006 :: string where
  "G006 = ''errors.New used to wrap an existing error: use errors.Propagate to preserve the cause chain''"

definition check_new_wrap :: "type_info \<Rightarrow> nat \<Rightarrow> node \<Rightarrow> node list \<Rightarrow> report list" where
  "check_new_wrap info pos f args =
     (if object_name info f \<noteq> garlicErrorsPath @ ''.New'' \<and> object_name info f \<noteq> garlicErrorsPath @ ''.Raw'' then []
      else if list_ex (\<lambda>a. is_error_type info (ti_type info a)) args then [report pos ''G0.06'' G006]
      else [])"

definition visit_propagation :: "pass \<Rightarrow> node \<Rightarrow> report list \<times> bool" where
  "visit_propagation ps n =
     (case n of
        FuncDecl p r m t b \<Rightarrow> (check_propagation_function ps t b (Some n), True)
      | FuncLit p t b \<Rightarrow> (check_propagation_function ps t (Some b) None, True)
      | Call p f args \<Rightarrow> (check_fmt_errorf (ps_info ps) p f args @ check_new_wrap (ps_info ps) p f args, True)
      | _ \<Rightarrow> ([], True))"

definition run_propagation :: "pass \<Rightarrow> report list" where
  "run_propagation ps =
     (if is_garlic_package ps ''errors'' \<or> \<not> package_imports_garlic_errors ps then []
      else concat (map (inspect_file (visit_propagation ps)) (ps_files ps)))"

section \<open>Imports, parameters and loggers\<close>

definition run_stdlib_errors :: "pass \<Rightarrow> report list" where
  "run_stdlib_errors ps =
     (if is_garlic_package ps ''errors'' then []
      else concat (map (\<lambda>f.
        if \<not> imports_garlic_errors f then []
        else map (\<lambda>(p, path). report p ''G0.05''
               ''stdlib errors imported in Garlic code: use github.com/luanguimaraesla/garlic/errors instead'')
             (filter (\<lambda>(p, path). trim_set quotes path = ''errors'') (gf_imports f))) (ps_files ps)))"

definition context_parameter :: "type_info \<Rightarrow> node \<Rightarrow> bool" where
  "context_parameter info f =
     (case ti_type info (field_type f) of
        Some (PointerType (NamedType (Some path) name)) \<Rightarrow> path = garlicErrorsPath \<and> name = ''ContextT''
      | _ \<Rightarrow> False)"

definition run_ectx_param :: "pass \<Rightarrow> report list" where
  "run_ectx_param ps =
     (if is_garlic_package ps ''errors'' then []
      else concat (map (inspect_file (\<lambda>n.
        (map (\<lambda>f. report (pos_of f) ''G1.08''
              ''*errors.ContextT passed as a parameter: build errors.Context inline in the function'')
           (case n of FuncType p params rs \<Rightarrow> filter (context_parameter (ps_info ps)) params | _ \<Rightarrow> []), True)))
        (ps_files ps)))"

text \<open>The analyzers that look at single calls, by what they report of one.\<close>

definition visit_calls :: "(nat \<Rightarrow> node \<Rightarrow> node list \<Rightarrow> report list) \<Rightarrow> node \<Rightarrow> report list \<times> bool" where
  "visit_calls check n = (case n of Call p f args \<Rightarrow> (check p f args, True) | _ \<Rightarrow> ([], True))"

definition check_zap_error :: "type_info \<Rightarrow> nat \<Rightarrow> node \<Rightarrow> node list \<Rightarrow> report list" where
  "check_zap_error info pos f args =
     (if object_name info f \<noteq> ''go.uber.org/zap.Error'' \<or> length args \<noteq> 1 then []
      else if is_error_type info (ti_type info (hd args)) then
        [report pos ''G2.02'' ''zap.Error(err) used in Garlic code: use errors.Zap(err) to preserve reverse trace and context'']
      else [])"

definition run_zap_error :: "pass \<Rightarrow> report list" where
  "run_zap_error ps =
     (if is_garlic_package ps ''errors'' then []
      else concat (map (\<lambda>f.
        if \<not> imports_garlic_errors f then [] else inspect_file (visit_calls (check_zap_error (ps_info ps))) f)
        (ps_files ps)))"

definition check_manual_logger :: "type_info \<Rightarrow> nat \<Rightarrow> node \<Rightarrow> node list \<Rightarrow> report list" where
  "check_manual_logger info pos f args =
     (if object_name info f \<in> {''go.uber.org/zap.New'', ''go.uber.org/zap.NewProduction'',
          ''go.uber.org/zap.NewDevelopment'', ''go.uber.org/zap.NewExample'', ''go.uber.org/zap.NewNop''}
      then [report pos ''G2.03'' ''logger created manually: use Garlic logging helpers''] else [])"

definition run_manual_logger :: "pass \<Rightarrow> report list" where
  "run_manual_logger ps =
     (if is_garlic_package ps ''logging'' then []
      else concat (map (\<lambda>f.
        if is_lint_test_file f then [] else inspect_file (visit_calls (check_manual_logger (ps_info ps))) f)
        (ps_files ps)))"

section \<open>Transactions\<close>

definition transaction_package_roots :: "string list" where
  "transaction_package_roots =
     [''database/sql'', ''github.com/jmoiron/sqlx'', ''github.com/jackc/pgx'', ''github.com/luanguimaraesla/garlic/database'']"

definition is_transaction_package :: "string \<Rightarrow> bool" where
  "is_transaction_package path \<longleftrightarrow>
     list_ex (\<lambda>root. path = root \<or> has_prefix path (root @ ''/'')) transaction_package_roots"

definition imports_database :: "go_file \<Rightarrow> bool" where
  "imports_database f \<longleftrightarrow>
     list_ex (\<lambda>(p, path). path = [CHR 0x22] @ ''github.com/luanguimaraesla/garlic/database'' @ [CHR 0x22]) (gf_imports f)"

definition check_manual_tx :: "type_info \<Rightarrow> nat \<Rightarrow> node \<Rightarrow> node list \<Rightarrow> report list" where
  "check_manual_tx info pos f args =
     (case call_object info f of
        None \<Rightarrow> []
      | Some fn \<Rightarrow>
          if ob_name fn \<in> {''BeginTx'', ''BeginTxx'', ''Begin'', ''Commit'', ''Rollback''}
             \<and> is_transaction_package (receiver_package_path fn)
          then [report pos ''G3.01'' ''manual transaction call: use storer.Transaction(ctx, fn)''] else [])"

definition run_manual_tx :: "pass \<Rightarrow> report list" where
  "run_manual_tx ps =
     (if is_garlic_package ps ''database'' then []
      else concat (map (\<lambda>f.
        if \<not> imports_database f then [] else inspect_file (visit_calls (check_manual_tx (ps_info ps))) f)
        (ps_files ps)))"

section \<open>Validator errors\<close>

definition is_validator_package :: "string \<Rightarrow> bool" where
  "is_validator_package path \<longleftrightarrow>
     path = ''github.com/luanguimaraesla/garlic/validator'' \<or> path = ''github.com/go-playground/validator''
     \<or> has_prefix path ''github.com/go-playground/validator/''"

definition is_validator_call :: "type_info \<Rightarrow> node \<Rightarrow> bool" where
  "is_validator_call info e =
     (case e of
        Call p f args \<Rightarrow>
          (case call_object info f of
             None \<Rightarrow> False
           | Some fn \<Rightarrow>
               ob_name fn \<in> {''Struct'', ''StructCtx'', ''Var'', ''VarWithValidation''}
               \<and> is_validator_package (receiver_package_path fn))
      | _ \<Rightarrow> False)"

definition validator_error :: "type_info \<Rightarrow> node option \<Rightarrow> object option" where
  "validator_error info init =
     (case init of
        Some (AssignStmt p ls [r]) \<Rightarrow>
          if ls = [] \<or> \<not> is_validator_call info r then None
          else (case last ls of
                  Ident q n \<Rightarrow> (case ti_defs info q of Some ob \<Rightarrow> Some ob | None \<Rightarrow> ti_uses info q)
                | _ \<Rightarrow> None)
      | _ \<Rightarrow> None)"

definition returns_object :: "type_info \<Rightarrow> object \<Rightarrow> node \<Rightarrow> report list \<times> bool" where
  "returns_object info ob n =
     (case n of
        ReturnStmt p returned \<Rightarrow>
          (concat (map (\<lambda>e. case e of
              Ident q m \<Rightarrow>
                if ti_uses info q = Some ob
                then [report q ''G5.01'' ''raw validator error returned: wrap with validator.ParseValidationErrors(err)'']
                else []
            | _ \<Rightarrow> []) returned), True)
      | _ \<Rightarrow> ([], True))"

definition visit_raw_validator :: "type_info \<Rightarrow> node \<Rightarrow> report list \<times> bool" where
  "visit_raw_validator info n =
     (case n of
        IfStmt p init c b e \<Rightarrow>
          (case validator_error info init of None \<Rightarrow> [] | Some ob \<Rightarrow> inspect (returns_object info ob) b, True)
      | _ \<Rightarrow> ([], True))"

definition run_raw_validator :: "pass \<Rightarrow> report list" where
  "run_raw_validator ps =
     (if is_garlic_package ps ''validator'' then []
      else concat (map (inspect_file (visit_raw_validator (ps_info ps))) (ps_files ps)))"

section \<open>Error responses in handlers\<close>

definition is_handler :: "type_info \<Rightarrow> node \<Rightarrow> bool" where
  "is_handler info t \<longleftrightarrow>
     returns_error info (results_of t)
     \<and> (case flattened_field_types info (params_of t) of
          [a, b] \<Rightarrow>
            is_named_type a ''net/http'' ''ResponseWriter''
            \<and> (case map_option unalias b of
                 Some (PointerType r) \<Rightarrow> is_named_type (Some r) ''net/http'' ''Request''
               | _ \<Rightarrow> False)
        | _ \<Rightarrow> False)"

definition is_write_error_call :: "type_info \<Rightarrow> node \<Rightarrow> bool" where
  "is_write_error_call info f \<longleftrightarrow> object_name info f = ''github.com/luanguimaraesla/garlic/rest.WriteError''"

definition check_handler_call :: "type_info \<Rightarrow> nat \<Rightarrow> node \<Rightarrow> report list" where
  "check_handler_call info pos f =
     (if object_name info f = ''net/http.Error'' then
        [report pos ''G6.01'' ''error response written manually via http.Error: return the error and let the route wrapper write it'']
      else [])
     @ (if is_write_error_call info f then
          [report pos ''G6.06'' ''rest.WriteError called inside a handler: return the error only''] else [])"

definition visit_handler_body :: "type_info \<Rightarrow> node \<Rightarrow> report list \<times> bool" where
  "visit_handler_body info n =
     (case n of
        FuncLit p t b \<Rightarrow> ([], \<not> is_handler info t)
      | Call p f args \<Rightarrow> (check_handler_call info p f, True)
      | _ \<Rightarrow> ([], True))"

definition check_handler_body :: "type_info \<Rightarrow> node \<Rightarrow> report list" where
  "check_handler_body info body = concat (map (inspect (visit_handler_body info)) (stmts_of body))"

definition visit_write_error :: "type_info \<Rightarrow> node \<Rightarrow> report list \<times> bool" where
  "visit_write_error info n =
     (case n of
        FuncDecl p r m t (Some b) \<Rightarrow> (if is_handler info t then check_handler_body info b else [], True)
      | FuncLit p t b \<Rightarrow> (if is_handler info t then check_handler_body info b else [], True)
      | _ \<Rightarrow> ([], True))"

definition run_manual_write_error :: "pass \<Rightarrow> report list" where
  "run_manual_write_error ps =
     (if is_garlic_package ps ''rest'' then []
      else concat (map (inspect_file (visit_write_error (ps_info ps))) (ps_files ps)))"

end
