(* ===== verification/Lint_Props.thy ===== *)
theory Lint_Props
  imports Lint_Rules "HOL-Library.Multiset"
begin

text \<open>
  What the analyzers report, in terms of the tree alone: the nodes a walk visits, which returns are a
  function's own, and a single-pass definition of the calls a handler makes.
\<close>

section \<open>Visited nodes\<close>

inductive visits :: "(node \<Rightarrow> bool) \<Rightarrow> node \<Rightarrow> node \<Rightarrow> bool" for descend where
  here: "visits descend n n"
| below: "descend n \<Longrightarrow> c \<in> set (children n) \<Longrightarrow> visits descend c m \<Longrightarrow> visits descend n m"

lemma inspect_visits: "set (inspect visit n) = (\<Union>m\<in>{m. visits (\<lambda>m. snd (visit m)) n m}. set (fst (visit m)))"
proof (induction n rule: measure_induct_rule [where f = size])
  case (less n)
  obtain rs d where v: "visit n = (rs, d)" by fastforce
  have IH: "set (inspect visit c) = (\<Union>m\<in>{m. visits (\<lambda>m. snd (visit m)) c m}. set (fst (visit m)))"
    if "c \<in> set (children n)" for c
    using less size_child [OF that] by blast
  have reach: "visits (\<lambda>m. snd (visit m)) n m \<longleftrightarrow>
      m = n \<or> d \<and> (\<exists>c\<in>set (children n). visits (\<lambda>m. snd (visit m)) c m)" for m
    using v by (subst visits.simps) auto
  show ?case
  proof (cases d)
    case True
    then have "set (inspect visit n) = set rs \<union> (\<Union>c\<in>set (children n). set (inspect visit c))"
      by (subst inspect.simps) (simp add: v)
    moreover have "{m. visits (\<lambda>m. snd (visit m)) n m}
        = insert n (\<Union>c\<in>set (children n). {m. visits (\<lambda>m. snd (visit m)) c m})"
      using True reach by blast
    ultimately show ?thesis using IH by (simp add: v UN_UN_flatten)
  next
    case False
    then show ?thesis using v unfolding reach by (subst inspect.simps) simp
  qed
qed

text \<open>Every node of a tree, and the nodes of a body outside the function literals in it.\<close>

definition within :: "node \<Rightarrow> node \<Rightarrow> bool" where
  "within = visits (\<lambda>_. True)"

fun is_literal :: "node \<Rightarrow> bool" where
  "is_literal (FuncLit p t b) = True"
| "is_literal _ = False"

definition own_node :: "node \<Rightarrow> node \<Rightarrow> bool" where
  "own_node = visits (\<lambda>n. \<not> is_literal n)"

lemma visits_size: "visits descend n m \<Longrightarrow> size m \<le> size n"
  by (induction rule: visits.induct) (auto dest: size_child)

lemma visits_cong:
  assumes "visits p n m" and "\<And>k. size k \<le> size n \<Longrightarrow> p k \<Longrightarrow> q k"
  shows "visits q n m"
  using assms
proof (induction rule: visits.induct)
  case (below n c m)
  have "visits q c m" using below size_child [OF below(2)] by (meson le_trans less_imp_le)
  then show ?case using below by (blast intro: visits.below)
qed (rule visits.here)

section \<open>Returns without propagation\<close>

text \<open>The functions of a package: the signature, the body and, for a declaration, the node.\<close>

fun function_parts :: "node \<Rightarrow> (node \<times> node \<times> node option) option" where
  "function_parts (FuncDecl p r m t (Some b)) = Some (t, b, Some (FuncDecl p r m t (Some b)))"
| "function_parts (FuncLit p t b) = Some (t, b, None)"
| "function_parts _ = None"

definition function_of :: "pass \<Rightarrow> node \<Rightarrow> node \<Rightarrow> node option \<Rightarrow> bool" where
  "function_of ps t b decl \<longleftrightarrow>
     (\<exists>f\<in>set (ps_files ps). \<exists>d\<in>set (gf_decls f). \<exists>n. within d n \<and> function_parts n = Some (t, b, decl))"

lemma returns_of_body:
  assumes "\<And>d. decl = Some d \<Longrightarrow> size b < size d"
  shows "set (inspect (visit_return info decl results b) b) =
    {bare_report info e |e p returned. own_node b (ReturnStmt p returned)
      \<and> e \<in> set (error_return_expressions info returned results b) \<and> \<not> propagated info b e}"
proof -
  have d: "snd (visit_return info decl results b n) \<longleftrightarrow> \<not> is_literal n" if "size n \<le> size b" for n
    using that assms by (cases n) (auto simp: visit_return_def)
  have "visits (\<lambda>m. snd (visit_return info decl results b m)) b n \<longleftrightarrow> own_node b n" for n
    unfolding own_node_def using d by (blast intro: visits_cong)
  moreover have "r \<in> set (fst (visit_return info decl results b n)) \<longleftrightarrow>
      (\<exists>p returned. n = ReturnStmt p returned \<and> r \<in> set (check_return info results b returned))" for r n
    by (cases n) (simp_all add: visit_return_def)
  ultimately have "r \<in> set (inspect (visit_return info decl results b) b) \<longleftrightarrow>
      (\<exists>p returned. own_node b (ReturnStmt p returned) \<and> r \<in> set (check_return info results b returned))" for r
    unfolding inspect_visits by auto
  then show ?thesis
    unfolding check_return_def set_map set_filter image_iff set_eq_iff mem_Collect_eq by blast
qed

definition bare_message :: "string \<Rightarrow> bool" where
  "bare_message m \<longleftrightarrow> m = rule_msg ''G0.01'' G001 \<or> m = rule_msg ''G0.02'' G002"

lemma other_messages:
  "\<not> bare_message (rule_msg ''G0.04'' x)" "\<not> bare_message (rule_msg ''G0.06'' x)"
  "\<not> bare_message (rule_msg ''G0.07'' x)"
  by (simp_all add: bare_message_def rule_msg_def)

lemma bare_report_message: "bare_message (snd (bare_report info e))" "fst (bare_report info e) = pos_of e"
  by (simp_all add: bare_report_def report_def bare_message_def)

lemma returns_logged_message:
  "r \<in> set (returns_logged info body ob stmt) \<Longrightarrow> snd r = rule_msg ''G0.07'' G007"
  by (auto simp: returns_logged_def report_def split: node.splits if_splits)

lemma log_then_return_message:
  "r \<in> set (log_then_return info body logged ss) \<Longrightarrow> snd r = rule_msg ''G0.07'' G007"
  by (induction ss arbitrary: logged)
    (auto simp: Let_def dest: returns_logged_message split: option.splits if_splits)

lemma check_log_message:
  "r \<in> set (check_log_then_return info body) \<Longrightarrow> \<not> bare_message (snd r)"
  by (auto simp: check_log_then_return_def other_messages dest!: log_then_return_message split: node.splits)

lemma call_messages:
  "r \<in> set (check_fmt_errorf info p f args) \<Longrightarrow> \<not> bare_message (snd r)"
  "r \<in> set (check_new_wrap info p f args) \<Longrightarrow> \<not> bare_message (snd r)"
  by (auto simp: check_fmt_errorf_def check_new_wrap_def report_def other_messages split: if_splits node.splits)

text \<open>A return of the function itself that holds an error it did not propagate.\<close>

definition bare_return :: "pass \<Rightarrow> node \<Rightarrow> node \<Rightarrow> node option \<Rightarrow> node \<Rightarrow> bool" where
  "bare_return ps t b decl e \<longleftrightarrow>
     returns_error (ps_info ps) (results_of t) \<and> (\<forall>d. decl = Some d \<longrightarrow> \<not> is_foreign_interface_method ps d)
   \<and> (\<exists>p returned. own_node b (ReturnStmt p returned)
        \<and> e \<in> set (error_return_expressions (ps_info ps) returned (results_of t) b)
        \<and> \<not> propagated (ps_info ps) b e)"

lemma function_reports:
  assumes "\<And>d. decl = Some d \<Longrightarrow> size b < size d"
  shows "r \<in> set (check_propagation_function ps t (Some b) decl) \<and> bare_message (snd r)
    \<longleftrightarrow> (\<exists>e. bare_return ps t b decl e \<and> r = bare_report (ps_info ps) e)"
proof -
  have "r \<in> set (inspect (visit_return (ps_info ps) decl (results_of t) b) b) \<longleftrightarrow>
      (\<exists>e p returned. r = bare_report (ps_info ps) e \<and> own_node b (ReturnStmt p returned)
        \<and> e \<in> set (error_return_expressions (ps_info ps) returned (results_of t) b)
        \<and> \<not> propagated (ps_info ps) b e)"
    using returns_of_body [OF assms, where info = "ps_info ps" and results = "results_of t"] by auto
  then show ?thesis
    using check_log_message [of r "ps_info ps" b] bare_report_message(1) [of "ps_info ps"]
    unfolding check_propagation_function_def bare_return_def
    by (cases decl) auto
qed

lemma node_reports:
  "r \<in> set (fst (visit_propagation ps n)) \<and> bare_message (snd r) \<longleftrightarrow>
     (\<exists>t b decl e. function_parts n = Some (t, b, decl) \<and> bare_return ps t b decl e \<and> r = bare_report (ps_info ps) e)"
proof (cases n)
  case (FuncDecl p rc m t b)
  show ?thesis
  proof (cases b)
    case None
    then show ?thesis by (simp add: FuncDecl visit_propagation_def check_propagation_function_def)
  next
    case (Some body)
    have "size body < size n" by (simp add: FuncDecl Some)
    then show ?thesis
      using function_reports [of "Some n" body r ps t] by (simp add: FuncDecl Some visit_propagation_def)
  qed
next
  case (FuncLit p t b)
  then show ?thesis using function_reports [of None b r ps t] by (simp add: visit_propagation_def)
next
  case (Call p f args)
  then show ?thesis using call_messages [of r "ps_info ps" p f args] by (auto simp: visit_propagation_def)
qed (simp_all add: visit_propagation_def)

text \<open>
  C15: The propagation analyzer reports the bare returns, all of them and nothing else. In a package
  that imports the errors package and is not it, a position is reported under G0.01 or G0.02 exactly
  when it is that of an error result of a return, explicit or through a named result, of a function
  or function literal that returns an error and is not a method of a foreign interface; the return
  is the function's own, not one of a literal inside it; and the result is neither nil, nor a call of
  a constructor of the errors package, nor a variable to which the body assigns only such calls.
\<close>

theorem propagation_reports_bare_returns:
  assumes "\<not> is_garlic_package ps ''errors''" and "package_imports_garlic_errors ps"
  shows "(\<exists>m. bare_message m \<and> (pos, m) \<in> set (run_propagation ps)) \<longleftrightarrow>
    (\<exists>t b decl e. function_of ps t b decl \<and> bare_return ps t b decl e \<and> pos_of e = pos)"
proof -
  have always: "snd (visit_propagation ps n)" for n by (cases n) (simp_all add: visit_propagation_def)
  have "set (run_propagation ps) =
      (\<Union>f\<in>set (ps_files ps). \<Union>d\<in>set (gf_decls f). \<Union>n\<in>{n. within d n}. set (fst (visit_propagation ps n)))"
    using assms by (simp add: run_propagation_def inspect_file_def inspect_visits always within_def)
  then have "(\<exists>m. bare_message m \<and> (pos, m) \<in> set (run_propagation ps)) \<longleftrightarrow>
      (\<exists>f\<in>set (ps_files ps). \<exists>d\<in>set (gf_decls f). \<exists>n. within d n \<and>
        (\<exists>r. r \<in> set (fst (visit_propagation ps n)) \<and> bare_message (snd r) \<and> fst r = pos))"
    by fastforce
  also have "\<dots> \<longleftrightarrow> (\<exists>f\<in>set (ps_files ps). \<exists>d\<in>set (gf_decls f). \<exists>n. within d n \<and>
      (\<exists>t b decl e. function_parts n = Some (t, b, decl) \<and> bare_return ps t b decl e \<and> pos_of e = pos))"
    using node_reports bare_report_message(2) by metis
  also have "\<dots> \<longleftrightarrow> (\<exists>t b decl e. function_of ps t b decl \<and> bare_return ps t b decl e \<and> pos_of e = pos)"
    unfolding function_of_def by blast
  finally show ?thesis .
qed

text \<open>A package with \<open>func f() error { return err }\<close>, where \<open>err\<close> is a variable of the package.\<close>

definition no_rules :: type_rules where
  "no_rules = \<lparr>ty_identical = (=), ty_implements = (\<lambda>_ _. False), ty_methods = (\<lambda>_. []), ty_lookup = (\<lambda>_ _ _. None), ty_string = (\<lambda>_. [])\<rparr>"

definition error_info :: type_info where
  "error_info = \<lparr>ti_uses = (\<lambda>p. Some \<lparr>ob_id = p, ob_pkg = Some ''p'', ob_name = ''err'', ob_type = None\<rparr>), ti_defs = (\<lambda>_. None),
     ti_type = (\<lambda>_. Some (NamedType None ''error'')), ti_implements_error = (\<lambda>_. True)\<rparr>"

definition bare_decl :: node where
  "bare_decl = FuncDecl 1 None (Ident 6 ''f'') (FuncType 1 [] (Some [Field 10 [] (Ident 10 ''error'')]))
     (Some (BlockStmt 16 [ReturnStmt 18 [Ident 25 ''err'']]))"

definition bare_package :: pass where
  "bare_package = \<lparr>ps_path = ''p'', ps_files = [\<lparr>gf_name = ''p.go'',
     gf_imports = [(0, [CHR 0x22] @ garlicErrorsPath @ [CHR 0x22])], gf_decls = [bare_decl]\<rparr>],
     ps_info = error_info, ps_types = no_rules, ps_package = Package 0 [] [] (\<lambda>_. None), ps_import = (\<lambda>_. None)\<rparr>"

theorem propagation_reports_bare_returns_witness:
  "\<exists>m. bare_message m \<and> (25, m) \<in> set (run_propagation bare_package)"
proof -
  let ?b = "BlockStmt 16 [ReturnStmt 18 [Ident 25 ''err'']]"
  let ?t = "FuncType 1 [] (Some [Field 10 [] (Ident 10 ''error'')])"
  have own: "own_node ?b (ReturnStmt 18 [Ident 25 ''err''])"
    unfolding own_node_def by (rule visits.below [OF _ _ visits.here]) simp_all
  have "assigned_values error_info ?b ob = []" for ob
    by (simp add: assigned_values_def inspect.simps assigned_here_def)
  then have "\<not> propagated error_info ?b (Ident 25 ''err'')"
    by (simp add: propagated_def constructor_call_def is_propagated_ident_def error_info_def is_propagated_var_def)
  moreover have "Ident 25 ''err'' \<in> set (error_return_expressions error_info [Ident 25 ''err''] (results_of ?t) ?b)"
    by (simp add: error_return_expressions_def flattened_field_types_def explicit_error_returns_def error_info_def
        is_error_type_def)
  moreover have "returns_error error_info (results_of ?t)"
    by (simp add: returns_error_def error_info_def is_error_type_def)
  ultimately have bare: "bare_return bare_package ?t ?b (Some bare_decl) (Ident 25 ''err'')"
    using own unfolding bare_return_def
    by (auto simp: bare_package_def is_foreign_interface_method_def bare_decl_def)
  have "within bare_decl bare_decl" unfolding within_def by (rule visits.here)
  moreover have "function_parts bare_decl = Some (?t, ?b, Some bare_decl)" by (simp add: bare_decl_def)
  ultimately have "function_of bare_package ?t ?b (Some bare_decl)"
    unfolding function_of_def bare_package_def by auto
  then have "\<exists>t b decl e. function_of bare_package t b decl \<and> bare_return bare_package t b decl e \<and> pos_of e = 25"
    using bare by fastforce
  moreover have "\<not> is_garlic_package bare_package ''errors''" "package_imports_garlic_errors bare_package"
    by (simp_all add: is_garlic_package_def package_imports_garlic_errors_def imports_garlic_errors_def bare_package_def
        garlicErrorsPath_def trim_set_def quotes_def)
  ultimately show ?thesis using propagation_reports_bare_returns by blast
qed

section \<open>Error responses in handlers, in one pass\<close>

text \<open>
  The calls of a tree that write an error response, inside a handler: one walk that knows whether it
  is in the body of a handler. The signature of a nested handler belongs to no handler.
\<close>

definition context_of :: "type_info \<Rightarrow> bool \<Rightarrow> node \<Rightarrow> (bool \<times> node) list" where
  "context_of info inside n =
     (case n of
        FuncLit p t b \<Rightarrow>
          if is_handler info t then [(False, t), (True, b)] else [(inside, t), (inside, b)]
      | FuncDecl p r m t (Some b) \<Rightarrow>
          map (Pair False) (of_opts r @ [m, t]) @ [(is_handler info t, b)]
      | _ \<Rightarrow> map (Pair inside) (children n))"

definition handler_call :: "type_info \<Rightarrow> bool \<Rightarrow> node \<Rightarrow> report list" where
  "handler_call info inside n =
     (case n of Call p f args \<Rightarrow> if inside then check_handler_call info p f else [] | _ \<Rightarrow> [])"

lemma context_children: "(i, c) \<in> set (context_of info inside n) \<Longrightarrow> c \<in> set (children n)"
  by (cases n) (auto simp: context_of_def of_opt_def split: if_splits option.splits)

function handler_calls :: "type_info \<Rightarrow> bool \<Rightarrow> node \<Rightarrow> report list" where
  "handler_calls info inside n =
     handler_call info inside n @ concat (map (\<lambda>(i, c). handler_calls info i c) (context_of info inside n))"
  by pat_completeness auto
termination
  by (relation "measure (\<lambda>(info, inside, n). size n)") (auto intro: size_child context_children)

declare handler_calls.simps [simp del]

text \<open>
  What the parser produces: declarations of functions are at the top of a file, and the body of a
  function is a block.
\<close>

fun is_block :: "node \<Rightarrow> bool" where
  "is_block (BlockStmt p ss) = True"
| "is_block _ = False"

fun malformed :: "node \<Rightarrow> bool" where
  "malformed (FuncDecl p r m t b) = True"
| "malformed (FuncLit p t b) = (\<not> is_block b)"
| "malformed _ = False"

definition well_formed :: "node \<Rightarrow> bool" where
  "well_formed n \<longleftrightarrow> True \<notin> set (inspect (\<lambda>m. ([malformed m], True)) n)"

definition well_formed_decl :: "node \<Rightarrow> bool" where
  "well_formed_decl d \<longleftrightarrow>
     (case d of
        FuncDecl p r m t (Some b) \<Rightarrow> is_block b \<and> list_all well_formed (children d)
      | FuncDecl p r m t None \<Rightarrow> list_all well_formed (children d)
      | _ \<Rightarrow> well_formed d)"

lemma well_formed_children: "well_formed n \<longleftrightarrow> \<not> malformed n \<and> list_all well_formed (children n)"
  unfolding well_formed_def by (subst inspect.simps) (auto simp: list_all_iff)

lemma handler_body: "is_block b \<Longrightarrow> check_handler_body info b = inspect (visit_handler_body info) b"
  by (cases b) (simp_all add: check_handler_body_def inspect.simps [of _ "BlockStmt p ss" for p ss] visit_handler_body_def)

lemma visit_functions:
  "visit_write_error info (FuncLit p t b) = (if is_handler info t then check_handler_body info b else [], True)"
  "visit_write_error info (FuncDecl p r m t None) = ([], True)"
  "visit_write_error info (FuncDecl p r m t (Some b)) = (if is_handler info t then check_handler_body info b else [], True)"
  "visit_handler_body info (FuncLit p t b) = ([], \<not> is_handler info t)"
  by (simp_all add: visit_write_error_def visit_handler_body_def)

lemma mset_concat_map: "mset (concat (map f xs)) = (\<Sum>x\<leftarrow>xs. mset (f x))"
  by (induction xs) simp_all

lemma sum_list_congruence: "(\<And>x. x \<in> set xs \<Longrightarrow> f x = g x) \<Longrightarrow> sum_list (map f xs) = sum_list (map g xs)"
  by (metis map_eq_conv)

lemma mset_inspect:
  "mset (inspect visit n) = mset (fst (visit n)) + (if snd (visit n) then \<Sum>c\<leftarrow>children n. mset (inspect visit c) else {#})"
  by (subst inspect.simps) (simp add: mset_concat_map split: prod.split)

lemma mset_handler_calls:
  "mset (handler_calls info i n)
   = mset (handler_call info i n) + (\<Sum>(j, c)\<leftarrow>context_of info i n. mset (handler_calls info j c))"
  by (subst handler_calls.simps) (simp add: mset_concat_map case_prod_unfold)

lemma handler_calls_split:
  assumes "well_formed n"
  shows "mset (handler_calls info i n) = mset (inspect (visit_write_error info) n)
    + (if i then mset (inspect (visit_handler_body info) n) else {#})"
  using assms
proof (induction n arbitrary: i rule: measure_induct_rule [where f = size])
  case (less n)
  have sub: "mset (handler_calls info j c) = mset (inspect (visit_write_error info) c)
      + (if j then mset (inspect (visit_handler_body info) c) else {#})" if "c \<in> set (children n)" for j c
    using less size_child [OF that] that well_formed_children [of n] by (simp add: list_all_iff)
  have wf: "\<not> malformed n" using less.prems well_formed_children by blast
  show ?case
  proof (cases "is_literal n")
    case True
    then obtain p t b where n: "n = FuncLit p t b" by (cases n) simp_all
    then have "is_block b" using wf by simp
    then show ?thesis using sub [of t] sub [of b]
      by (simp add: n mset_handler_calls [of info i] mset_inspect [of _ "FuncLit p t b"] context_of_def
          handler_call_def visit_functions handler_body)
  next
    case False
    have ctx: "context_of info i n = map (Pair i) (children n)"
      using False wf by (cases n) (simp_all add: context_of_def)
    have w: "visit_write_error info n = ([], True)"
      using False wf by (cases n) (simp_all add: visit_write_error_def)
    have h: "fst (visit_handler_body info n) = handler_call info True n" "snd (visit_handler_body info n)"
      "handler_call info False n = []"
      using False by (cases n; simp add: visit_handler_body_def handler_call_def)+
    have "mset (handler_calls info i n) = mset (handler_call info i n)
        + (\<Sum>c\<leftarrow>children n. mset (inspect (visit_write_error info) c)
             + (if i then mset (inspect (visit_handler_body info) c) else {#}))"
      by (simp add: mset_handler_calls [of info i n] ctx o_def sub cong: map_cong)
    then show ?thesis
      by (simp add: mset_inspect [of _ n] w h sum_list_addf)
  qed
qed

lemma declaration_split:
  assumes "well_formed_decl d"
  shows "mset (handler_calls info False d) = mset (inspect (visit_write_error info) d)"
proof (cases "well_formed d")
  case True
  then show ?thesis by (simp add: handler_calls_split)
next
  case False
  obtain p r m t b where d: "d = FuncDecl p r m t b"
    using assms False by (cases d) (simp_all add: well_formed_decl_def)
  have wf: "list_all well_formed (children d)" "\<And>x. b = Some x \<Longrightarrow> is_block x"
    using assms by (simp_all add: d well_formed_decl_def split: option.splits)
  then have sub: "mset (handler_calls info j c) = mset (inspect (visit_write_error info) c)
      + (if j then mset (inspect (visit_handler_body info) c) else {#})" if "c \<in> set (children d)" for j c
    using that handler_calls_split by (simp add: list_all_iff)
  show ?thesis
  proof (cases b)
    case None
    then show ?thesis using sub
      by (simp add: d mset_handler_calls [of info False "FuncDecl p r m t None"] mset_inspect [of _ "FuncDecl p r m t None"]
          context_of_def handler_call_def visit_functions o_def of_opt_def cong: map_cong)
  next
    case (Some x)
    then show ?thesis using sub wf
      by (simp add: d mset_handler_calls [of info False "FuncDecl p r m t (Some x)"]
          mset_inspect [of _ "FuncDecl p r m t (Some x)"] handler_body
          context_of_def handler_call_def visit_functions o_def of_opt_def ac_simps cong: map_cong)
  qed
qed

text \<open>
  C27: The write-error analyzer, which starts a second walk at every handler it meets, reports what one
  walk that knows whether it is inside a handler reports, with the same multiplicity: a call of
  \<open>http.Error\<close> or \<open>rest.WriteError\<close> in the body of a handler is reported once, however deep handlers are
  nested in each other.
\<close>

theorem write_error_single_pass:
  assumes "\<not> is_garlic_package ps ''rest''"
    and "\<forall>f\<in>set (ps_files ps). list_all well_formed_decl (gf_decls f)"
  shows "mset (run_manual_write_error ps)
    = (\<Sum>f\<leftarrow>ps_files ps. \<Sum>d\<leftarrow>gf_decls f. mset (handler_calls (ps_info ps) False d))"
proof -
  have "mset (inspect_file (visit_write_error (ps_info ps)) f)
      = (\<Sum>d\<leftarrow>gf_decls f. mset (handler_calls (ps_info ps) False d))" if "f \<in> set (ps_files ps)" for f
    using assms that unfolding inspect_file_def mset_concat_map list_all_iff
    by (intro sum_list_congruence) (simp add: declaration_split)
  then show ?thesis
    using assms unfolding run_manual_write_error_def by (simp add: mset_concat_map cong: map_cong)
qed

text \<open>A package with a handler that calls \<open>http.Error\<close>, alone and in a handler it returns.\<close>

definition handler_info :: type_info where
  "handler_info = \<lparr>ti_uses = (\<lambda>p. if p = 40 \<or> p = 60 then
       Some \<lparr>ob_id = 0, ob_pkg = Some ''net/http'', ob_name = ''Error'', ob_type = Some (Signature [] [] None False)\<rparr> else None),
     ti_defs = (\<lambda>_. None),
     ti_type = (\<lambda>n. Some (case n of
        Ident p x \<Rightarrow> if x = ''w'' then NamedType (Some ''net/http'') ''ResponseWriter''
          else if x = ''r'' then PointerType (NamedType (Some ''net/http'') ''Request'') else NamedType None ''error''
      | _ \<Rightarrow> OtherType [])),
     ti_implements_error = (\<lambda>t. t = NamedType None ''error'')\<rparr>"

definition handler_type :: node where
  "handler_type = FuncType 1 [Field 2 [] (Ident 2 ''w''), Field 3 [] (Ident 3 ''r'')] (Some [Field 4 [] (Ident 4 ''error'')])"

definition handler_package :: pass where
  "handler_package = \<lparr>ps_path = ''p'', ps_files = [\<lparr>gf_name = ''p.go'', gf_imports = [],
     gf_decls = [FuncDecl 1 None (Ident 1 ''f'') handler_type (Some (BlockStmt 30
       [Call 39 (Ident 40 ''Error'') [],
        ReturnStmt 50 [FuncLit 51 handler_type (BlockStmt 52 [Call 59 (Ident 60 ''Error'') []])]]))]\<rparr>],
     ps_info = handler_info, ps_types = no_rules, ps_package = Package 0 [] [] (\<lambda>_. None), ps_import = (\<lambda>_. None)\<rparr>"

theorem write_error_single_pass_witness:
  "size (mset (run_manual_write_error handler_package)) = 2 \<and> mset (run_manual_write_error handler_package)
    = (\<Sum>f\<leftarrow>ps_files handler_package. \<Sum>d\<leftarrow>gf_decls f. mset (handler_calls (ps_info handler_package) False d))"
proof
  have "\<not> is_garlic_package handler_package ''rest''"
    by (simp add: is_garlic_package_def handler_package_def)
  moreover have "\<forall>f\<in>set (ps_files handler_package). list_all well_formed_decl (gf_decls f)"
    by (simp add: handler_package_def well_formed_decl_def handler_type_def well_formed_children of_opt_def of_opts_def)
  ultimately show "mset (run_manual_write_error handler_package)
    = (\<Sum>f\<leftarrow>ps_files handler_package. \<Sum>d\<leftarrow>gf_decls f. mset (handler_calls (ps_info handler_package) False d))"
    by (rule write_error_single_pass)
  have "is_handler handler_info handler_type"
    by (simp add: is_handler_def handler_type_def handler_info_def returns_error_def is_error_type_def
        flattened_field_types_def is_named_type_def)
  moreover have "object_name handler_info (Ident 40 ''Error'') = ''net/http.Error''"
    "object_name handler_info (Ident 60 ''Error'') = ''net/http.Error''"
    by (simp_all add: handler_info_def qualified_name_def)
  ultimately show "size (mset (run_manual_write_error handler_package)) = 2"
    by (simp add: run_manual_write_error_def is_garlic_package_def inspect_file_def handler_package_def
        inspect.simps visit_write_error_def check_handler_body_def visit_handler_body_def check_handler_call_def
        is_write_error_call_def of_opt_def of_opts_def handler_type_def)
qed

end
