(* ===== verification/Unit_Tags.thy ===== *)
theory Unit_Tags
  imports Strings
begin

text \<open>
  The analyzer that requires unit build tags in test files
  (\<open>internal/garliclint/unittesttag.go\<close>): which files it reports, and how far its sampling of
  platform tags agrees with trying every platform.
\<close>

section \<open>Build constraints\<close>

text \<open>The expressions of \<open>go/build/constraint\<close>, and their evaluation.\<close>

datatype build_expr =
    TagExpr string
  | NotExpr build_expr
  | AndExpr build_expr build_expr
  | OrExpr build_expr build_expr

fun eval_expr :: "build_expr \<Rightarrow> (string \<Rightarrow> bool) \<Rightarrow> bool" where
  "eval_expr (TagExpr t) ok = ok t"
| "eval_expr (NotExpr e) ok = (\<not> eval_expr e ok)"
| "eval_expr (AndExpr e f) ok = (eval_expr e ok \<and> eval_expr f ok)"
| "eval_expr (OrExpr e f) ok = (eval_expr e ok \<or> eval_expr f ok)"

definition knownGOOS :: "string list" where
  "knownGOOS = [''aix'', ''android'', ''darwin'', ''dragonfly'', ''freebsd'', ''illumos'', ''ios'', ''js'',
     ''linux'', ''netbsd'', ''openbsd'', ''plan9'', ''solaris'', ''wasip1'', ''windows'']"

definition knownGOARCH :: "string list" where
  "knownGOARCH = [''386'', ''amd64'', ''arm'', ''arm64'', ''loong64'', ''mips'', ''mips64'', ''mips64le'',
     ''mipsle'', ''ppc64'', ''ppc64le'', ''riscv64'', ''s390x'', ''wasm'']"

definition knownImplicitTag :: "string list" where
  "knownImplicitTag = [''unix'', ''cgo'']"

text \<open>The regular expression of a release tag.\<close>

definition go_release_tag :: "string \<Rightarrow> bool" where
  "go_release_tag t \<longleftrightarrow>
     has_prefix t ''go1.'' \<and> drop 4 t \<noteq> [] \<and> list_all (\<lambda>c. c \<in> set ''0123456789'') (drop 4 t)"

definition known_platform_tag :: "string \<Rightarrow> bool" where
  "known_platform_tag t \<longleftrightarrow>
     t \<in> set knownGOOS \<or> t \<in> set knownGOARCH \<or> t \<in> set knownImplicitTag \<or> go_release_tag t"

section \<open>The analyzer\<close>

text \<open>
  A file: its name, its comment groups in order, each with the position it ends at, and the position
  of its package clause. Parsing a comment as a \<open>//go:build\<close> line is an argument: nothing when it is
  no such line or malformed.
\<close>

record lint_file =
  lf_name :: string
  lf_comments :: "(nat \<times> string list) list"
  lf_package :: nat

definition unit_expr :: "build_expr \<Rightarrow> bool" where
  "unit_expr e \<longleftrightarrow>
     (eval_expr e (\<lambda>t. t = ''unit'' \<or> known_platform_tag t) \<or> eval_expr e (\<lambda>t. t = ''unit''))
   \<and> \<not> (eval_expr e known_platform_tag \<or> eval_expr e (\<lambda>t. False))"

fun unit_comment :: "(string \<Rightarrow> build_expr option) \<Rightarrow> string list \<Rightarrow> bool" where
  "unit_comment parse [] = False"
| "unit_comment parse (c # cs) =
     (case parse c of
        None \<Rightarrow> unit_comment parse cs
      | Some e \<Rightarrow> if unit_expr e then True else unit_comment parse cs)"

fun unit_groups :: "(string \<Rightarrow> build_expr option) \<Rightarrow> nat \<Rightarrow> (nat \<times> string list) list \<Rightarrow> bool" where
  "unit_groups parse package [] = False"
| "unit_groups parse package ((end_pos, cs) # gs) =
     (if package < end_pos then False
      else if unit_comment parse cs then True else unit_groups parse package gs)"

definition has_unit_build_tag :: "(string \<Rightarrow> build_expr option) \<Rightarrow> lint_file \<Rightarrow> bool" where
  "has_unit_build_tag parse f = unit_groups parse (lf_package f) (lf_comments f)"

definition is_test_file :: "lint_file \<Rightarrow> bool" where
  "is_test_file f = has_suffix (lf_name f) ''_test.go''"

text \<open>A report is the file, a position and a message.\<close>

definition run_unit_test_tag :: "(string \<Rightarrow> build_expr option) \<Rightarrow> lint_file list \<Rightarrow> (string \<times> nat \<times> string) list" where
  "run_unit_test_tag parse files =
     map (\<lambda>f. (lf_name f, lf_package f, ''[G8.01] test file missing //go:build unit''))
       (filter (\<lambda>f. \<not> (\<not> is_test_file f \<or> has_unit_build_tag parse f)) files)"

section \<open>Trying every platform\<close>

text \<open>
  What the samples stand for: the file is built under the tag unit on some platform, and on no
  platform without it. A platform satisfies some of the known tags; any other tag stays false.
\<close>

definition on_platform :: "(string \<Rightarrow> bool) \<Rightarrow> string \<Rightarrow> bool" where
  "on_platform pl t \<longleftrightarrow> known_platform_tag t \<and> pl t"

definition unit_only :: "build_expr \<Rightarrow> bool" where
  "unit_only e \<longleftrightarrow>
     (\<exists>pl. eval_expr e (\<lambda>t. t = ''unit'' \<or> on_platform pl t)) \<and> \<not> (\<exists>pl. eval_expr e (on_platform pl))"

text \<open>Every known platform tag of the expression is under an even number of negations, or an odd one.\<close>

fun one_sided :: "bool \<Rightarrow> build_expr \<Rightarrow> bool" where
  "one_sided pos (TagExpr t) = (known_platform_tag t \<longrightarrow> pos)"
| "one_sided pos (NotExpr e) = one_sided (\<not> pos) e"
| "one_sided pos (AndExpr e f) = (one_sided pos e \<and> one_sided pos f)"
| "one_sided pos (OrExpr e f) = (one_sided pos e \<and> one_sided pos f)"

lemma one_sided_mono:
  assumes "one_sided pos e" and "\<And>t. \<not> known_platform_tag t \<Longrightarrow> a t = b t"
    and "\<And>t. known_platform_tag t \<Longrightarrow> (if pos then a t \<longrightarrow> b t else b t \<longrightarrow> a t)"
    and "eval_expr e a"
  shows "eval_expr e b"
  using assms
proof (induction e arbitrary: pos a b)
  case (TagExpr t)
  then show ?case by (cases "known_platform_tag t") auto
next
  case (NotExpr e)
  have "eval_expr e b \<Longrightarrow> eval_expr e a"
    using NotExpr.prems by (intro NotExpr.IH [of "\<not> pos" b a]) (auto split: if_splits)
  then show ?case using NotExpr.prems(4) by auto
next
  case (AndExpr e f)
  have "eval_expr e b" by (rule AndExpr.IH(1) [of pos a]) (use AndExpr.prems in auto)
  moreover have "eval_expr f b" by (rule AndExpr.IH(2) [of pos a]) (use AndExpr.prems in auto)
  ultimately show ?case by simp
next
  case (OrExpr e f)
  have "eval_expr e a \<Longrightarrow> eval_expr e b" by (rule OrExpr.IH(1) [of pos a]) (use OrExpr.prems in auto)
  moreover have "eval_expr f a \<Longrightarrow> eval_expr f b" by (rule OrExpr.IH(2) [of pos a]) (use OrExpr.prems in auto)
  ultimately show ?case using OrExpr.prems(4) by auto
qed

text \<open>For a one-sided expression one of the two samples is the best platform.\<close>

lemma best_platform:
  assumes "one_sided pos e" and "eval_expr e (\<lambda>t. u t \<or> on_platform pl t)"
    and "\<And>t. known_platform_tag t \<Longrightarrow> \<not> u t"
  shows "eval_expr e (\<lambda>t. u t \<or> known_platform_tag t) \<or> eval_expr e u"
proof (cases pos)
  case True
  have "eval_expr e (\<lambda>t. u t \<or> known_platform_tag t)"
    by (rule one_sided_mono [OF assms(1) _ _ assms(2)]) (auto simp: True on_platform_def)
  then show ?thesis by simp
next
  case False
  have "eval_expr e u"
    by (rule one_sided_mono [OF assms(1) _ _ assms(2)]) (use assms(3) in \<open>auto simp: False on_platform_def\<close>)
  then show ?thesis by simp
qed

lemma unit_not_platform: "\<not> known_platform_tag ''unit''"
  by (simp add: known_platform_tag_def knownGOOS_def knownGOARCH_def knownImplicitTag_def go_release_tag_def)

lemma unit_expr_exact:
  assumes "one_sided pos e"
  shows "unit_expr e \<longleftrightarrow> unit_only e"
proof -
  have all: "on_platform (\<lambda>_. True) = known_platform_tag" and none: "on_platform (\<lambda>_. False) = (\<lambda>_. False)"
    by (simp_all add: on_platform_def fun_eq_iff)
  have yes: "(\<exists>pl. eval_expr e (\<lambda>t. t = ''unit'' \<or> on_platform pl t))
      \<longleftrightarrow> eval_expr e (\<lambda>t. t = ''unit'' \<or> known_platform_tag t) \<or> eval_expr e (\<lambda>t. t = ''unit'')"
  proof
    assume "\<exists>pl. eval_expr e (\<lambda>t. t = ''unit'' \<or> on_platform pl t)"
    then show "eval_expr e (\<lambda>t. t = ''unit'' \<or> known_platform_tag t) \<or> eval_expr e (\<lambda>t. t = ''unit'')"
      using best_platform [OF assms, of "\<lambda>t. t = ''unit''"] unit_not_platform by blast
  next
    assume "eval_expr e (\<lambda>t. t = ''unit'' \<or> known_platform_tag t) \<or> eval_expr e (\<lambda>t. t = ''unit'')"
    moreover have "(\<lambda>t. t = ''unit'' \<or> on_platform (\<lambda>_. False) t) = (\<lambda>t. t = ''unit'')"
      "(\<lambda>t. t = ''unit'' \<or> on_platform (\<lambda>_. True) t) = (\<lambda>t. t = ''unit'' \<or> known_platform_tag t)"
      by (simp_all add: on_platform_def fun_eq_iff)
    ultimately have "eval_expr e (\<lambda>t. t = ''unit'' \<or> on_platform (\<lambda>_. True) t)
        \<or> eval_expr e (\<lambda>t. t = ''unit'' \<or> on_platform (\<lambda>_. False) t)"
      by (simp only:)
    then show "\<exists>pl. eval_expr e (\<lambda>t. t = ''unit'' \<or> on_platform pl t)" by blast
  qed
  have no: "(\<exists>pl. eval_expr e (on_platform pl)) \<longleftrightarrow> eval_expr e known_platform_tag \<or> eval_expr e (\<lambda>_. False)"
  proof
    assume "\<exists>pl. eval_expr e (on_platform pl)"
    then show "eval_expr e known_platform_tag \<or> eval_expr e (\<lambda>_. False)"
      using best_platform [OF assms, of "\<lambda>_. False"] by auto
  next
    assume "eval_expr e known_platform_tag \<or> eval_expr e (\<lambda>_. False)"
    then have "eval_expr e (on_platform (\<lambda>_. True)) \<or> eval_expr e (on_platform (\<lambda>_. False))"
      by (simp only: all none)
    then show "\<exists>pl. eval_expr e (on_platform pl)" by blast
  qed
  show ?thesis unfolding unit_expr_def unit_only_def yes no by blast
qed

lemma unit_comment_iff: "unit_comment parse cs \<longleftrightarrow> (\<exists>c\<in>set cs. \<exists>e. parse c = Some e \<and> unit_expr e)"
  by (induction cs) (auto split: option.split)

lemma unit_groups_iff:
  "unit_groups parse package gs \<longleftrightarrow>
     (\<exists>g\<in>set (takeWhile (\<lambda>g. fst g \<le> package) gs). unit_comment parse (snd g))"
proof (induction gs)
  case (Cons g gs)
  then show ?case by (cases g) (auto simp: not_less Bex_def)
qed simp

text \<open>
  C31: Two samples of the platforms are as good as all of them. When in each build constraint of the
  files the platform tags occur only positively or only under a negation, a file is reported exactly
  when it is a test file and no comment group that ends before its package clause holds a go:build
  line that some platform builds with the tag unit and no platform builds without it.
\<close>

theorem unit_tag_sampling_exact:
  assumes "\<forall>f\<in>set files. \<forall>g\<in>set (lf_comments f). \<forall>c\<in>set (snd g). \<forall>e. parse c = Some e \<longrightarrow> (\<exists>pos. one_sided pos e)"
  shows "map fst (run_unit_test_tag parse files) = map lf_name (filter (\<lambda>f.
      has_suffix (lf_name f) ''_test.go''
      \<and> (\<forall>g\<in>set (takeWhile (\<lambda>g. fst g \<le> lf_package f) (lf_comments f)). \<forall>c\<in>set (snd g). \<forall>e.
           parse c = Some e \<longrightarrow> \<not> unit_only e)) files)"
proof -
  have "has_unit_build_tag parse f \<longleftrightarrow>
      (\<exists>g\<in>set (takeWhile (\<lambda>g. fst g \<le> lf_package f) (lf_comments f)). \<exists>c\<in>set (snd g). \<exists>e.
         parse c = Some e \<and> unit_only e)" if "f \<in> set files" for f
  proof -
    have "unit_expr e \<longleftrightarrow> unit_only e"
      if "g \<in> set (lf_comments f)" "c \<in> set (snd g)" "parse c = Some e" for g c e
      using assms \<open>f \<in> set files\<close> that unit_expr_exact by blast
    moreover have "g \<in> set (lf_comments f)" if "g \<in> set (takeWhile P (lf_comments f))" for g P
      using set_takeWhileD [OF that] by blast
    ultimately show ?thesis
      unfolding has_unit_build_tag_def unit_groups_iff unit_comment_iff by blast
  qed
  then have "filter (\<lambda>f. \<not> (\<not> is_test_file f \<or> has_unit_build_tag parse f)) files =
      filter (\<lambda>f. has_suffix (lf_name f) ''_test.go''
        \<and> (\<forall>g\<in>set (takeWhile (\<lambda>g. fst g \<le> lf_package f) (lf_comments f)). \<forall>c\<in>set (snd g). \<forall>e.
             parse c = Some e \<longrightarrow> \<not> unit_only e)) files"
    by (intro filter_cong) (auto simp: is_test_file_def)
  then show ?thesis by (simp add: run_unit_test_tag_def comp_def)
qed

text \<open>A file tagged unit, and one tagged linux, which is built without the tag.\<close>

definition example_files :: "lint_file list" where
  "example_files = [\<lparr>lf_name = ''a_test.go'', lf_comments = [(9, [''unit''])], lf_package = 20\<rparr>,
     \<lparr>lf_name = ''b_test.go'', lf_comments = [(9, [''linux''])], lf_package = 20\<rparr>]"

theorem unit_tag_sampling_exact_witness:
  "map fst (run_unit_test_tag (\<lambda>c. Some (TagExpr c)) example_files) = [''b_test.go'']"
proof -
  have "unit_only (TagExpr ''unit'')" "\<not> unit_only (TagExpr ''linux'')"
    using unit_not_platform by (auto simp: unit_only_def on_platform_def)
  moreover have "\<exists>pos. one_sided pos (TagExpr t)" for t by (rule exI [of _ True]) simp
  ultimately show ?thesis
    using unit_tag_sampling_exact [of example_files "\<lambda>c. Some (TagExpr c)"]
    by (simp add: example_files_def has_suffix_def)
qed

text \<open>Where the tags occur on both sides, neither sample may be a platform that builds the file.\<close>

lemma both_sides_misjudged:
  fixes e :: build_expr
  defines "e \<equiv> AndExpr (TagExpr ''unit'') (AndExpr (TagExpr ''linux'') (NotExpr (TagExpr ''windows'')))"
  shows "\<not> unit_expr e" and "unit_only e"
proof -
  have "known_platform_tag ''linux''" "known_platform_tag ''windows''"
    by (simp_all add: known_platform_tag_def knownGOOS_def)
  then show "\<not> unit_expr e" and "unit_only e"
    using unit_not_platform by (auto simp: e_def unit_expr_def unit_only_def on_platform_def intro: exI [of _ "\<lambda>t. t = ''linux''"])
qed

end
