(* ===== verification/Lint_Main.thy ===== *)
theory Lint_Main
  imports Lint_Rules Unit_Tags
begin

text \<open>
  The analyzers as the command ships them (\<open>internal/garliclint/analyzers.go\<close>) and the command itself
  (\<open>cmd/garliclint\<close>). The driver that loads packages and runs analyzers on them is a third party's.
\<close>

section \<open>The analyzers\<close>

text \<open>
  An analyzer has a name and runs on a package; the one of unit tags looks at the files with their
  comments, which the others do not.
\<close>

datatype analyzer =
    TreeAnalyzer string "pass \<Rightarrow> report list"
  | FileAnalyzer string "(string \<Rightarrow> build_expr option) \<Rightarrow> lint_file list \<Rightarrow> (string \<times> nat \<times> string) list"

fun analyzer_name :: "analyzer \<Rightarrow> string" where
  "analyzer_name (TreeAnalyzer n run) = n"
| "analyzer_name (FileAnalyzer n run) = n"

definition PropagationAnalyzer :: analyzer where
  "PropagationAnalyzer = TreeAnalyzer ''garlicpropagation'' run_propagation"

definition StdlibErrorsAnalyzer :: analyzer where
  "StdlibErrorsAnalyzer = TreeAnalyzer ''garlicstdliberr'' run_stdlib_errors"

definition EctxParamAnalyzer :: analyzer where
  "EctxParamAnalyzer = TreeAnalyzer ''garlicectxparam'' run_ectx_param"

definition ZapErrorAnalyzer :: analyzer where
  "ZapErrorAnalyzer = TreeAnalyzer ''garliczaperror'' run_zap_error"

definition ManualLoggerAnalyzer :: analyzer where
  "ManualLoggerAnalyzer = TreeAnalyzer ''garlicmanuallogger'' run_manual_logger"

definition ManualTxAnalyzer :: analyzer where
  "ManualTxAnalyzer = TreeAnalyzer ''garlicmanualtx'' run_manual_tx"

definition RawValidatorAnalyzer :: analyzer where
  "RawValidatorAnalyzer = TreeAnalyzer ''garlicrawvalidator'' run_raw_validator"

definition ManualWriteErrorAnalyzer :: analyzer where
  "ManualWriteErrorAnalyzer = TreeAnalyzer ''garlicmanualwriteerror'' run_manual_write_error"

definition UnitTestTagAnalyzer :: analyzer where
  "UnitTestTagAnalyzer = FileAnalyzer ''garlicunittesttag'' run_unit_test_tag"

definition default_analyzers :: "analyzer list" where
  "default_analyzers = [PropagationAnalyzer]"

definition all_analyzers :: "analyzer list" where
  "all_analyzers =
     [PropagationAnalyzer, StdlibErrorsAnalyzer, EctxParamAnalyzer, ZapErrorAnalyzer, ManualLoggerAnalyzer,
      ManualTxAnalyzer, RawValidatorAnalyzer, ManualWriteErrorAnalyzer, UnitTestTagAnalyzer]"

lemmas analyzer_defs = PropagationAnalyzer_def StdlibErrorsAnalyzer_def EctxParamAnalyzer_def ZapErrorAnalyzer_def
  ManualLoggerAnalyzer_def ManualTxAnalyzer_def RawValidatorAnalyzer_def ManualWriteErrorAnalyzer_def
  UnitTestTagAnalyzer_def

text \<open>The driver refuses two analyzers of one name.\<close>

lemma analyzer_names_distinct: "distinct (map analyzer_name all_analyzers)"
  by (simp add: all_analyzers_def analyzer_defs)

lemma default_analyzers_subset: "set default_analyzers \<subseteq> set all_analyzers"
  by (simp add: default_analyzers_def all_analyzers_def)

section \<open>The command\<close>

text \<open>The build information of a binary: the version of its main module, and its settings.\<close>

record build_info =
  bi_main_version :: string
  bi_settings :: "(string \<times> string) list"

definition is_local_checkout :: "build_info \<Rightarrow> bool" where
  "is_local_checkout b \<longleftrightarrow> list_ex (\<lambda>(k, v). k = ''vcs.revision'') (bi_settings b)"

definition effective_version :: "string \<Rightarrow> build_info option \<Rightarrow> string" where
  "effective_version linker b =
     (case b of
        None \<Rightarrow> linker
      | Some i \<Rightarrow>
          if linker \<noteq> ''dev'' \<or> is_local_checkout i \<or> bi_main_version i = [] \<or> bi_main_version i = ''(devel)''
          then linker else bi_main_version i)"

definition current_version :: "string \<Rightarrow> build_info option \<Rightarrow> string" where
  "current_version version info = (case info of None \<Rightarrow> version | Some i \<Rightarrow> effective_version version (Some i))"

text \<open>
  The version of the link wins; that of the module counts only in a binary installed from a release,
  which has no revision of its own checkout.
\<close>

lemma effective_version_cases:
  "effective_version ''dev'' (Some \<lparr>bi_main_version = ''v1.2.0'', bi_settings = []\<rparr>) = ''v1.2.0''"
  "effective_version ''v9'' b = ''v9''"
  "effective_version l (Some \<lparr>bi_main_version = v, bi_settings = (''vcs.revision'', r) # xs\<rparr>) = l"
  by (auto simp: effective_version_def is_local_checkout_def split: option.splits)

datatype lint_run = PrintedVersion string | RanAnalyzers "analyzer list"

definition garliclint_main :: "string \<Rightarrow> build_info option \<Rightarrow> string list \<Rightarrow> lint_run" where
  "garliclint_main version info args =
     (if list_ex (\<lambda>arg. arg = ''-version'' \<or> arg = ''--version'' \<or> arg = ''-V'') args
      then PrintedVersion (''garliclint version '' @ current_version version info @ [CHR 0x0A])
      else RanAnalyzers default_analyzers)"

end
