(* ===== verification/Process.thy ===== *)
theory Process
  imports Rest
begin

text \<open>
  What a process sets up once: the global logger (\<open>logging/logging.go\<close>, \<open>logging/config.go\<close>,
  \<open>logging/keyvals/\<close>), the exporter of metrics (\<open>observability/\<close>) and its version (\<open>global/\<close>);
  and the debug output of \<open>debug/\<close>. Zap, OpenTelemetry, files and the environment are arguments.
\<close>

section \<open>Logging configuration\<close>

record log_config =
  lc_level :: string
  lc_encoding :: string
  lc_output_paths :: "string list"
  lc_initial_fields :: "(string \<times> gval) list"

definition log_defaults :: log_config where
  "log_defaults =
     \<lparr>lc_level = ''error'', lc_encoding = ''json'', lc_output_paths = [''stdout''], lc_initial_fields = []\<rparr>"

text \<open>The keys and encoders zap is given; an empty key leaves its part out.\<close>

record encoder_config =
  ec_message_key :: string
  ec_level_key :: string
  ec_encoders :: "string list"

record zap_config =
  zc_level :: string
  zc_development :: bool
  zc_disable_caller :: bool
  zc_disable_stacktrace :: bool
  zc_sampling :: bool
  zc_encoding :: string
  zc_encoder :: encoder_config
  zc_output_paths :: "string list"
  zc_error_output_paths :: "string list"
  zc_initial_fields :: "(string \<times> gval) list"

text \<open>Zap: parsing a level, and building a logger from a configuration.\<close>

record zap =
  zp_level :: "string \<Rightarrow> gerror + string"
  zp_build :: "zap_config \<Rightarrow> gerror + logger"

definition parse_log_config :: "zap \<Rightarrow> log_config \<Rightarrow> ('s, zap_config) act" where
  "parse_log_config z c =
     (case zp_level z (lc_level c) of
        Inl e \<Rightarrow> panic (error_text e)
      | Inr lvl \<Rightarrow>
          (let zc = \<lparr>zc_level = lvl, zc_development = True, zc_disable_caller = False, zc_disable_stacktrace = False,
               zc_sampling = False, zc_encoding = lc_encoding c,
               zc_encoder = \<lparr>ec_message_key = ''msg'', ec_level_key = ''level'',
                 ec_encoders = [''CapitalLevelEncoder'', ''ISO8601TimeEncoder'', ''StringDurationEncoder'']\<rparr>,
               zc_output_paths = (if lc_output_paths c = [] then [''stdout''] else lc_output_paths c),
               zc_error_output_paths = [''stderr''], zc_initial_fields = lc_initial_fields c\<rparr> in
           ret (if lc_encoding c = ''console''
                then zc\<lparr>zc_encoder := \<lparr>ec_message_key = ''msg'', ec_level_key = [], ec_encoders = []\<rparr>\<rparr> else zc)))"

section \<open>The state of a process\<close>

text \<open>How often a provider exports, when a configuration says so.\<close>

datatype reader_option = WithInterval int

datatype process_event =
    Logged log_level string "log_field list"
  | Built nat "reader_option list"
  | Flushed nat
  | ShutDown nat

text \<open>
  The logger and the meter provider are package variables; \<open>pc_otel\<close> is the provider OpenTelemetry
  records on, and \<open>pc_built\<close> counts the providers built.
\<close>

record process =
  pc_world :: world
  pc_logger :: "logger option"
  pc_provider :: "nat option"
  pc_otel :: "nat option"
  pc_built :: nat
  pc_events :: "process_event list"

definition on_process_world :: "(world, 'a) act \<Rightarrow> (process, 'a) act" where
  "on_process_world m s = (case m (pc_world s) of (r, w) \<Rightarrow> (r, s\<lparr>pc_world := w\<rparr>))"

definition event :: "process_event \<Rightarrow> (process, unit) act" where
  "event e s = ret () (s\<lparr>pc_events := pc_events s @ [e]\<rparr>)"

definition set_logger :: "logger \<Rightarrow> (process, unit) act" where
  "set_logger l s = ret () (s\<lparr>pc_logger := Some l\<rparr>)"

section \<open>The global logger\<close>

definition build_logger :: "zap \<Rightarrow> log_config \<Rightarrow> (process, logger) act" where
  "build_logger z c =
     bind_act (parse_log_config z c) (\<lambda>zc.
     case zp_build z zc of Inl e \<Rightarrow> panic (error_text e) | Inr l \<Rightarrow> ret l)"

definition log_at :: "log_level \<Rightarrow> logger \<Rightarrow> string \<Rightarrow> log_field list \<Rightarrow> (process, unit) act" where
  "log_at lvl l msg gs = (case l of Logger n fs \<Rightarrow> event (Logged lvl msg (fs @ gs)))"

text \<open>\<open>Fatal\<close> logs and ends the process.\<close>

definition log_fatal :: "logger \<Rightarrow> string \<Rightarrow> log_field list \<Rightarrow> (process, 'a) act" where
  "log_fatal l msg gs = bind_act (log_at LFatal l msg gs) (\<lambda>_. panic (fatal_exit msg))"

definition log_init :: "zap \<Rightarrow> log_config \<Rightarrow> (process, unit) act" where
  "log_init z c s =
     (case pc_logger s of
        Some l \<Rightarrow> log_fatal l ''Failed to configure a new Global: this is already set'' [] s
      | None \<Rightarrow> bind_act (build_logger z c) set_logger s)"

definition log_global :: "zap \<Rightarrow> (process, logger) act" where
  "log_global z s =
     (case pc_logger s of
        Some l \<Rightarrow> ret l s
      | None \<Rightarrow> bind_act (build_logger z log_defaults) (\<lambda>l. bind_act (set_logger l) (\<lambda>_. ret l)) s)"

text \<open>
  A keyvals logger wraps a garlic logger. Zap makes fields of key-value pairs, which is an argument.
\<close>

definition keyvals_new_logger :: "zap \<Rightarrow> logger option \<Rightarrow> (process, logger) act" where
  "keyvals_new_logger z l = (case l of None \<Rightarrow> log_global z | Some x \<Rightarrow> ret x)"

definition keyvals_debug :: "('kv list \<Rightarrow> log_field list) \<Rightarrow> logger \<Rightarrow> string \<Rightarrow> 'kv list \<Rightarrow> (process, unit) act" where
  "keyvals_debug sweeten l msg kv = log_at LDebug l msg (sweeten kv)"

definition keyvals_info :: "('kv list \<Rightarrow> log_field list) \<Rightarrow> logger \<Rightarrow> string \<Rightarrow> 'kv list \<Rightarrow> (process, unit) act" where
  "keyvals_info sweeten l msg kv = log_at LInfo l msg (sweeten kv)"

definition keyvals_warn :: "('kv list \<Rightarrow> log_field list) \<Rightarrow> logger \<Rightarrow> string \<Rightarrow> 'kv list \<Rightarrow> (process, unit) act" where
  "keyvals_warn sweeten l msg kv = log_at LWarn l msg (sweeten kv)"

definition keyvals_error :: "('kv list \<Rightarrow> log_field list) \<Rightarrow> logger \<Rightarrow> string \<Rightarrow> 'kv list \<Rightarrow> (process, unit) act" where
  "keyvals_error sweeten l msg kv = log_at LErr l msg (sweeten kv)"

definition keyvals_with :: "('kv list \<Rightarrow> log_field list) \<Rightarrow> logger \<Rightarrow> 'kv list \<Rightarrow> logger" where
  "keyvals_with sweeten l kv = log_with l (sweeten kv)"

lemma keyvals_with_runs:
  "keyvals_error sweeten (keyvals_with sweeten (Logger n fs) kv) msg kv' = event (Logged LErr msg (fs @ sweeten kv @ sweeten kv'))"
  by (simp add: keyvals_error_def keyvals_with_def log_at_def)

section \<open>Exporting metrics\<close>

record observability_config =
  oc_service_name :: string
  oc_endpoint :: string
  oc_insecure :: bool
  oc_interval :: int

definition observability_defaults :: observability_config where
  "observability_defaults = \<lparr>oc_service_name = ''garlic'', oc_endpoint = [], oc_insecure = False, oc_interval = 0\<rparr>"

datatype exporter_option = WithEndpoint string | WithInsecure

definition exporter_options :: "observability_config \<Rightarrow> exporter_option list" where
  "exporter_options c =
     (if oc_endpoint c \<noteq> [] then [WithEndpoint (oc_endpoint c)] else [])
     @ (if oc_insecure c then [WithInsecure] else [])"

definition reader_options :: "observability_config \<Rightarrow> reader_option list" where
  "reader_options c = (if oc_interval c > 0 then [WithInterval (oc_interval c)] else [])"

text \<open>
  OpenTelemetry: making an exporter, merging the attributes of a resource into the default one,
  and what flushing and shutting down the n-th provider answer.
\<close>

record telemetry =
  tl_exporter :: "exporter_option list \<Rightarrow> gerror option"
  tl_merge :: "(string \<times> string) list \<Rightarrow> gerror option"
  tl_flush :: "nat \<Rightarrow> gerror option"
  tl_shutdown :: "nat \<Rightarrow> gerror option"

definition resource_attributes :: "string \<Rightarrow> observability_config \<Rightarrow> (string \<times> string) list" where
  "resource_attributes version c =
     (''service.version'', version) # (if oc_service_name c \<noteq> [] then [(''service.name'', oc_service_name c)] else [])"

definition build_resource :: "zap \<Rightarrow> telemetry \<Rightarrow> string \<Rightarrow> observability_config \<Rightarrow> (process, unit) act" where
  "build_resource z t version c =
     (case tl_merge t (resource_attributes version c) of
        None \<Rightarrow> ret ()
      | Some e \<Rightarrow>
          bind_act (log_global z) (\<lambda>l.
          bind_act (on_process_world (propagate ''buildResource'' (Some e) ''failed to merge telemetry resource'' [])) (\<lambda>g.
          log_at LWarn l ''Telemetry resource has conflicting schema URLs'' [LogError (zap_error g)])))"

definition new_provider :: "observability_config \<Rightarrow> (process, unit) act" where
  "new_provider c s = ret () (s\<lparr>pc_provider := Some (pc_built s), pc_otel := Some (pc_built s),
     pc_built := Suc (pc_built s), pc_events := pc_events s @ [Built (pc_built s) (reader_options c)]\<rparr>)"

definition observability_init :: "zap \<Rightarrow> telemetry \<Rightarrow> string \<Rightarrow> observability_config option \<Rightarrow> (process, unit) act" where
  "observability_init z t version config s =
     (if pc_provider s \<noteq> None then
        bind_act (log_global z) (\<lambda>l. log_fatal l ''Failed to initialize observability: this is already set'' []) s
      else
        (let c = (case config of None \<Rightarrow> observability_defaults | Some c \<Rightarrow> c) in
         (case tl_exporter t (exporter_options c) of
            Some e \<Rightarrow>
              bind_act (log_global z) (\<lambda>l.
                log_fatal l ''Failed to create OTLP metrics exporter'' [LogError (zap_error (Some e))]) s
          | None \<Rightarrow> bind_act (build_resource z t version c) (\<lambda>_. new_provider c) s)))"

definition clear_provider :: "(process, unit) act" where
  "clear_provider s = ret () (s\<lparr>pc_provider := None\<rparr>)"

definition observability_shutdown :: "telemetry \<Rightarrow> (process, gerror option) act" where
  "observability_shutdown t s =
     (case pc_provider s of
        None \<Rightarrow> ret None s
      | Some p \<Rightarrow>
          bind_act clear_provider (\<lambda>_.
          bind_act (event (Flushed p)) (\<lambda>_.
          case tl_flush t p of
            Some e \<Rightarrow> on_process_world (propagate ''Shutdown#1'' (Some e) ''failed to flush metrics'' [])
          | None \<Rightarrow>
              bind_act (event (ShutDown p)) (\<lambda>_.
              case tl_shutdown t p of
                Some e \<Rightarrow> on_process_world (propagate ''Shutdown#2'' (Some e) ''failed to shut down meter provider'' [])
              | None \<Rightarrow> ret None))) s)"

definition global_version :: "string option \<Rightarrow> string" where
  "global_version env = (case env of Some v \<Rightarrow> v | None \<Rightarrow> ''undefined'')"

section \<open>Debug output\<close>

text \<open>
  What \<open>debug/debug.go\<close> prints and writes. Encoding, creating a file and writing to it may fail, which
  they answer as arguments; a file that was created is there, empty, when the write fails.
\<close>

datatype debug_event = Printed string | Created string | Wrote string string

record debug_files =
  df_create :: "string \<Rightarrow> gerror option"
  df_write :: "string \<Rightarrow> string \<Rightarrow> gerror option"

definition debug_emit :: "debug_event \<Rightarrow> (debug_event list, unit) act" where
  "debug_emit e es = ret () (es @ [e])"

definition prettyfy :: "('v \<Rightarrow> gerror + string) \<Rightarrow> 'v \<Rightarrow> (debug_event list, string) act" where
  "prettyfy indented i = (case indented i of Inl e \<Rightarrow> panic (error_text e) | Inr pp \<Rightarrow> ret pp)"

definition pretty_print :: "('v \<Rightarrow> gerror + string) \<Rightarrow> 'v \<Rightarrow> (debug_event list, unit) act" where
  "pretty_print indented i = bind_act (prettyfy indented i) (\<lambda>pp. debug_emit (Printed (pp @ [CHR 0x0A])))"

definition write_to_file :: "debug_files \<Rightarrow> string \<Rightarrow> string \<Rightarrow> (debug_event list, gerror option) act" where
  "write_to_file df path content =
     (case df_create df path of
        Some e \<Rightarrow> ret (Some e)
      | None \<Rightarrow>
          bind_act (debug_emit (Created path)) (\<lambda>_.
          case df_write df path content of
            Some e \<Rightarrow> ret (Some e)
          | None \<Rightarrow> bind_act (debug_emit (Wrote path content)) (\<lambda>_. ret None)))"

definition dump_to_file :: "debug_files \<Rightarrow> string \<Rightarrow> string \<Rightarrow> (debug_event list, unit) act" where
  "dump_to_file df path content =
     (case df_create df path of
        Some e \<Rightarrow> panic (error_text e)
      | None \<Rightarrow>
          bind_act (debug_emit (Created path)) (\<lambda>_.
          case df_write df path content of
            Some e \<Rightarrow> panic (error_text e)
          | None \<Rightarrow> debug_emit (Wrote path content)))"

definition pretty_print_to_file :: "('v \<Rightarrow> gerror + string) \<Rightarrow> debug_files \<Rightarrow> 'v \<Rightarrow> string \<Rightarrow> (debug_event list, unit) act" where
  "pretty_print_to_file indented df i path = bind_act (prettyfy indented i) (dump_to_file df path)"

definition print_to_file :: "('v \<Rightarrow> gerror + string) \<Rightarrow> debug_files \<Rightarrow> 'v \<Rightarrow> string \<Rightarrow> (debug_event list, unit) act" where
  "print_to_file compact df i path =
     (case compact i of Inl e \<Rightarrow> panic (error_text e) | Inr content \<Rightarrow> dump_to_file df path content)"

text \<open>The two ways to write a file differ only in what they make of a failure.\<close>

lemma dump_is_write:
  "dump_to_file df path content es =
     (case write_to_file df path content es of
        (Ret (Some e), es') \<Rightarrow> (Panic (error_text e), es')
      | (Ret None, es') \<Rightarrow> (Ret (), es')
      | (Panic p, es') \<Rightarrow> (Panic p, es'))"
  by (simp add: dump_to_file_def write_to_file_def bind_act_def ret_def panic_def debug_emit_def split: option.split)

section \<open>The life of the meter provider\<close>

datatype telemetry_call = CallInit "observability_config option" | CallShutdown

text \<open>One call after another, until one ends the process; what Shutdown returned is ignored.\<close>

fun telemetry_calls :: "zap \<Rightarrow> telemetry \<Rightarrow> string \<Rightarrow> telemetry_call list \<Rightarrow> (process, unit) act" where
  "telemetry_calls z t version [] = ret ()"
| "telemetry_calls z t version (CallInit c # cs) =
     bind_act (observability_init z t version c) (\<lambda>_. telemetry_calls z t version cs)"
| "telemetry_calls z t version (CallShutdown # cs) =
     bind_act (observability_shutdown t) (\<lambda>_. telemetry_calls z t version cs)"

fun flushed_of :: "process_event list \<Rightarrow> nat list" where
  "flushed_of [] = []"
| "flushed_of (Flushed p # es) = p # flushed_of es"
| "flushed_of (e # es) = flushed_of es"

fun shut_of :: "process_event list \<Rightarrow> nat list" where
  "shut_of [] = []"
| "shut_of (ShutDown p # es) = p # shut_of es"
| "shut_of (e # es) = shut_of es"

lemma flushed_append [simp]: "flushed_of (xs @ ys) = flushed_of xs @ flushed_of ys"
  by (induction xs rule: flushed_of.induct) simp_all

lemma shut_append [simp]: "shut_of (xs @ ys) = shut_of xs @ shut_of ys"
  by (induction xs rule: shut_of.induct) simp_all

definition provider_inv :: "telemetry \<Rightarrow> process \<Rightarrow> bool" where
  "provider_inv t s \<longleftrightarrow>
     flushed_of (pc_events s) @ (case pc_provider s of None \<Rightarrow> [] | Some p \<Rightarrow> [p]) = [0..<pc_built s]
   \<and> shut_of (pc_events s) = filter (\<lambda>p. tl_flush t p = None) (flushed_of (pc_events s))
   \<and> (\<forall>p. pc_provider s = Some p \<longrightarrow> pc_otel s = Some p)"

text \<open>Actions that leave the providers alone.\<close>

definition same_providers :: "(process, 'a) act \<Rightarrow> bool" where
  "same_providers m \<longleftrightarrow> (\<forall>s. pc_provider (snd (m s)) = pc_provider s \<and> pc_otel (snd (m s)) = pc_otel s
     \<and> pc_built (snd (m s)) = pc_built s \<and> flushed_of (pc_events (snd (m s))) = flushed_of (pc_events s)
     \<and> shut_of (pc_events (snd (m s))) = shut_of (pc_events s))"

lemma same_bind:
  assumes "same_providers m" and "\<And>x. same_providers (f x)"
  shows "same_providers (bind_act m f)"
  unfolding same_providers_def
proof
  fix s
  obtain r v where m: "m s = (r, v)" by fastforce
  have 1: "pc_provider v = pc_provider s \<and> pc_otel v = pc_otel s \<and> pc_built v = pc_built s
     \<and> flushed_of (pc_events v) = flushed_of (pc_events s) \<and> shut_of (pc_events v) = shut_of (pc_events s)"
    using assms(1) m unfolding same_providers_def by (metis snd_conv)
  show "pc_provider (snd (bind_act m f s)) = pc_provider s \<and> pc_otel (snd (bind_act m f s)) = pc_otel s
     \<and> pc_built (snd (bind_act m f s)) = pc_built s
     \<and> flushed_of (pc_events (snd (bind_act m f s))) = flushed_of (pc_events s)
     \<and> shut_of (pc_events (snd (bind_act m f s))) = shut_of (pc_events s)"
    using 1 assms(2) unfolding same_providers_def by (cases r) (simp_all add: bind_act_def m)
qed

lemma same_basic [simp, intro]:
  "same_providers (ret x)" "same_providers (panic p)" "same_providers (set_logger l)"
  "same_providers (event (Logged lvl msg gs))" "same_providers (on_process_world m)"
  by (simp_all add: same_providers_def ret_def panic_def set_logger_def event_def on_process_world_def split: prod.split)

lemma same_logging: "same_providers (log_global z)" "same_providers (log_fatal l msg gs)"
  "same_providers (log_at lvl l msg gs)"
proof -
  have "same_providers (build_logger z c)" for c
    unfolding build_logger_def parse_log_config_def Let_def
    by (auto intro!: same_bind split: sum.split)
  then have "same_providers (bind_act (build_logger z log_defaults) (\<lambda>l. bind_act (set_logger l) (\<lambda>_. ret l)))"
    by (intro same_bind) auto
  then show "same_providers (log_global z)"
    unfolding same_providers_def log_global_def by (auto simp: ret_def split: option.split)
  show at: "same_providers (log_at lvl l msg gs)" for lvl unfolding log_at_def by (cases l) auto
  show "same_providers (log_fatal l msg gs)" unfolding log_fatal_def by (intro same_bind at) auto
qed

lemma same_inv: "same_providers m \<Longrightarrow> provider_inv t s \<Longrightarrow> provider_inv t (snd (m s))"
  by (simp add: same_providers_def provider_inv_def)

lemma inv_bind:
  assumes "\<And>s. provider_inv t s \<Longrightarrow> provider_inv t (snd (m s))"
    and "\<And>x s. provider_inv t s \<Longrightarrow> provider_inv t (snd (f x s))" and "provider_inv t s"
  shows "provider_inv t (snd (bind_act m f s))"
proof -
  obtain r v where m: "m s = (r, v)" by fastforce
  then have "provider_inv t v" using assms(1) [OF assms(3)] by simp
  then show ?thesis using assms(2) by (cases r) (simp_all add: bind_act_def m)
qed

lemma new_provider_inv: "pc_provider s = None \<Longrightarrow> provider_inv t s \<Longrightarrow> provider_inv t (snd (new_provider c s))"
  by (simp add: provider_inv_def new_provider_def ret_def)

lemma init_inv: "provider_inv t s \<Longrightarrow> provider_inv t (snd (observability_init z t version c s))"
proof -
  assume inv: "provider_inv t s"
  have dies: "provider_inv t (snd (bind_act (log_global z) (\<lambda>l. log_fatal l msg gs :: (process, unit) act) s))" for msg gs
    by (rule same_inv [OF same_bind [OF same_logging(1) same_logging(2)] inv])
  have resource: "same_providers (build_resource z t version c)" for c
    unfolding build_resource_def by (auto intro!: same_bind same_logging split: option.split)
  have "provider_inv t (snd (bind_act (build_resource z t version c) (\<lambda>_. new_provider c) s))"
    if "pc_provider s = None" for c
  proof -
    obtain r v where m: "build_resource z t version c s = (r, v)" by fastforce
    then have "provider_inv t v" "pc_provider v = None"
      using same_inv [OF resource inv, of c] resource [of c] that unfolding same_providers_def by (metis snd_conv)+
    then show ?thesis using new_provider_inv by (cases r) (simp_all add: bind_act_def m)
  qed
  then show ?thesis using dies by (cases "pc_provider s") (auto simp: observability_init_def Let_def split: option.split)
qed

lemma shutdown_inv: "provider_inv t s \<Longrightarrow> provider_inv t (snd (observability_shutdown t s))"
proof -
  assume inv: "provider_inv t s"
  show ?thesis
  proof (cases "pc_provider s")
    case None
    then show ?thesis using inv by (simp add: observability_shutdown_def ret_def)
  next
    case (Some p)
    let ?f = "s\<lparr>pc_provider := None, pc_events := pc_events s @ [Flushed p]\<rparr>"
    let ?d = "?f\<lparr>pc_events := pc_events s @ [Flushed p, ShutDown p]\<rparr>"
    have built: "[0..<pc_built s] = flushed_of (pc_events s) @ [p]"
      and shut: "shut_of (pc_events s) = filter (\<lambda>p. tl_flush t p = None) (flushed_of (pc_events s))"
      using inv by (simp_all add: provider_inv_def Some)
    have f: "provider_inv t ?f" if "tl_flush t p \<noteq> None" using that by (simp add: provider_inv_def shut built)
    have d: "provider_inv t ?d" if "tl_flush t p = None" using that by (simp add: provider_inv_def shut built)
    have world: "provider_inv t (snd (on_process_world m v)) = provider_inv t v" for m :: "(world, gerror option) act" and v
      by (simp add: provider_inv_def on_process_world_def split: prod.split)
    have "observability_shutdown t s =
        (case tl_flush t p of
           Some e \<Rightarrow> on_process_world (propagate ''Shutdown#1'' (Some e) ''failed to flush metrics'' []) ?f
         | None \<Rightarrow>
             (case tl_shutdown t p of
                Some e \<Rightarrow> on_process_world (propagate ''Shutdown#2'' (Some e) ''failed to shut down meter provider'' []) ?d
              | None \<Rightarrow> ret None ?d))"
      by (simp add: observability_shutdown_def Some clear_provider_def event_def bind_act_def ret_def split: option.split)
    then show ?thesis
      using f d by (auto simp: world ret_def split: option.split)
  qed
qed

definition start_process :: "world \<Rightarrow> process" where
  "start_process w = \<lparr>pc_world = w, pc_logger = None, pc_provider = None, pc_otel = None, pc_built = 0, pc_events = []\<rparr>"

lemma telemetry_calls_inv: "provider_inv t s \<Longrightarrow> provider_inv t (snd (telemetry_calls z t version cs s))"
proof (induction cs arbitrary: s)
  case (Cons c cs)
  then show ?case
    by (cases c) (auto intro!: inv_bind [where s = s] intro: init_inv shutdown_inv)
qed (simp add: ret_def)


end
