(* ===== verification/Flatten.thy ===== *)
theory Flatten
  imports Strings
begin

text \<open>
  Configuration structs as maps (\<open>utils/flatten.go\<close>) and values that may be nil (\<open>toolkit/\<close>), over
  Go values as \<open>reflect\<close> sees them.
\<close>

section \<open>Values\<close>

text \<open>
  What \<open>reflect.ValueOf\<close> tells apart: nil itself, a struct with the \<open>mapstructure\<close> tag of each field
  and whether it is exported, a pointer, a nil pointer with the tags of the struct it could point to
  (None when its element is no struct), and any other value with whether it is a nil channel,
  function, map or slice.
\<close>

datatype 'v config_value =
    NilInterface
  | StructV "'v config_field list"
  | PointerV "'v config_value"
  | NilPointerV "string list option"
  | PlainV bool 'v
and 'v config_field = StructField string bool "'v config_value"

section \<open>Pointers\<close>

fun is_value_nil :: "'v config_value \<Rightarrow> bool" where
  "is_value_nil NilInterface = True"
| "is_value_nil (NilPointerV t) = True"
| "is_value_nil (PlainV n x) = n"
| "is_value_nil _ = False"

text \<open>A pointer here is an option; the zero value of its type is an argument.\<close>

definition pointer_of :: "'a \<Rightarrow> 'a option" where
  "pointer_of x = Some x"

definition value_or_default :: "'a \<Rightarrow> 'a option \<Rightarrow> 'a" where
  "value_or_default zero p = (case p of None \<Rightarrow> zero | Some x \<Rightarrow> x)"

section \<open>Flattening\<close>

definition FLATTENING_SEPARATOR :: string where
  "FLATTENING_SEPARATOR = ''.''"

text \<open>The value of a field, without one pointer; None is the zero \<open>Value\<close> behind a nil pointer.\<close>

fun field_value :: "'v config_value \<Rightarrow> 'v config_value option" where
  "field_value (PointerV u) = Some u"
| "field_value (NilPointerV t) = None"
| "field_value v = Some v"

lemma size_field_value: "field_value v = Some u \<Longrightarrow> size u \<le> size v"
  by (cases v) auto

definition squashed :: "string \<Rightarrow> bool" where
  "squashed tag \<longleftrightarrow> tag = '',squash'' \<or> has_prefix tag '',''"

text \<open>
  \<open>Interface\<close> panics on the zero \<open>Value\<close> and on a field that is not exported. The fields of a struct
  are read in order, and a later one replaces the entry of an earlier one with the same key.
\<close>

function (sequential)
  flatten_struct :: "'v config_value \<Rightarrow> string list \<Rightarrow> (string \<rightharpoonup> 'v config_value) outcome"
  and flatten_fields :: "'v config_field list \<Rightarrow> string list \<Rightarrow> (string \<rightharpoonup> 'v config_value) \<Rightarrow> (string \<rightharpoonup> 'v config_value) outcome" where
  "flatten_struct (StructV fs) parents = flatten_fields fs parents Map.empty"
| "flatten_struct (PointerV (StructV fs)) parents = flatten_fields fs parents Map.empty"
| "flatten_struct (NilPointerV (Some tags)) parents =
     (if list_all (\<lambda>tag. tag = []) tags then Ret Map.empty
      else Panic ''reflect: call of reflect.Value.Field on zero Value'')"
| "flatten_struct NilInterface parents = Panic ''runtime error: invalid memory address or nil pointer dereference''"
| "flatten_struct _ parents = Panic ''reflect: NumField of non-struct type''"
| "flatten_fields [] parents m = Ret m"
| "flatten_fields (StructField tag exported v # fs) parents m =
     (if tag = [] then flatten_fields fs parents m
      else case field_value v of
             None \<Rightarrow> Panic ''reflect: call of reflect.Value.Interface on zero Value''
           | Some u \<Rightarrow>
               if \<not> exported then
                 Panic ''reflect.Value.Interface: cannot return value obtained from unexported field or method''
               else (case u of
                 StructV gs \<Rightarrow>
                   (case flatten_struct u (if squashed tag then parents else parents @ [tag]) of
                      Panic p \<Rightarrow> Panic p
                    | Ret inner \<Rightarrow> flatten_fields fs parents (m ++ inner))
               | _ \<Rightarrow>
                   flatten_fields fs parents (m(join_with FLATTENING_SEPARATOR (parents @ [tag]) \<mapsto> u))))"
  by pat_completeness auto
termination
  by (relation "measure (\<lambda>x. case x of Inl (v, parents) \<Rightarrow> size v | Inr (fs, parents, m) \<Rightarrow> size_list size fs)")
    (auto dest: size_field_value)

definition flatten :: "'v config_value \<Rightarrow> (string \<rightharpoonup> 'v config_value) outcome" where
  "flatten i = flatten_struct i []"

section \<open>The leaves of a struct\<close>

text \<open>
  The same without maps and parents: the values of a struct's fields that are not structs, each with
  the tags on the way to it, and whether reading a field panics.
\<close>

function (sequential)
  leaves :: "'v config_value \<Rightarrow> (string list \<times> 'v config_value) list"
  and field_leaves :: "'v config_field list \<Rightarrow> (string list \<times> 'v config_value) list" where
  "leaves (StructV fs) = field_leaves fs"
| "leaves v = [([], v)]"
| "field_leaves [] = []"
| "field_leaves (StructField tag exported v # fs) =
     (if tag = [] then []
      else case field_value v of
             None \<Rightarrow> []
           | Some (StructV gs) \<Rightarrow> map (apfst (\<lambda>path. (if squashed tag then [] else [tag]) @ path)) (leaves (StructV gs))
           | Some u \<Rightarrow> [([tag], u)]) @ field_leaves fs"
  by pat_completeness auto
termination
  by (relation "measure (\<lambda>x. case x of Inl v \<Rightarrow> size v | Inr fs \<Rightarrow> size_list size fs)")
    (auto dest: size_field_value)

function (sequential) readable :: "'v config_field list \<Rightarrow> bool" where
  "readable [] = True"
| "readable (StructField tag exported v # fs) =
     ((tag = [] \<or> exported \<and>
        (case field_value v of None \<Rightarrow> False | Some (StructV gs) \<Rightarrow> readable gs | Some u \<Rightarrow> True)) \<and> readable fs)"
  by pat_completeness auto
termination
  by (relation "measure (size_list size)") (auto dest: size_field_value)

definition keyed :: "string list \<Rightarrow> (string list \<times> 'v config_value) list \<Rightarrow> (string \<times> 'v config_value) list" where
  "keyed parents ls = map (apfst (\<lambda>path. join_with FLATTENING_SEPARATOR (parents @ path))) ls"

lemma keyed_append: "keyed parents (xs @ ys) = keyed parents xs @ keyed parents ys"
  by (simp add: keyed_def)

lemma keyed_below: "keyed parents (map (apfst (\<lambda>path. p @ path)) ls) = keyed (parents @ p) ls"
  by (simp add: keyed_def comp_def apfst_def map_prod_def case_prod_unfold)

lemma size_fields:
  "size_list size fs < size_list size (StructField tag exported v # fs)"
  "field_value v = Some (StructV gs) \<Longrightarrow> size_list size gs < size_list size (StructField tag exported v # fs)"
  using size_field_value [of v "StructV gs"] by simp_all

lemma flatten_leaves:
  "if readable fs then flatten_fields fs parents m = Ret (m ++ map_of (rev (keyed parents (field_leaves fs))))
   else is_panic (flatten_fields fs parents m)"
proof (induction fs arbitrary: parents m rule: measure_induct_rule [where f = "size_list size"])
  case (less fs)
  show ?case
  proof (cases fs)
    case Nil
    then show ?thesis by (simp add: keyed_def)
  next
    case (Cons x rest)
    obtain tag exported v where x: "x = StructField tag exported v" by (cases x)
    have rest: "if readable rest then flatten_fields rest parents m' = Ret (m' ++ map_of (rev (keyed parents (field_leaves rest))))
        else is_panic (flatten_fields rest parents m')" for m'
      using less size_fields(1) unfolding Cons x by blast
    consider (skipped) "tag = []" | (panics) "tag \<noteq> []" "field_value v = None \<or> \<not> exported"
      | (nested) gs where "tag \<noteq> []" "exported" "field_value v = Some (StructV gs)"
      | (leaf) u where "tag \<noteq> []" "exported" "field_value v = Some u" "\<forall>gs. u \<noteq> StructV gs"
      by (metis option.exhaust)
    then show ?thesis
    proof cases
      case skipped
      then show ?thesis using rest by (simp add: Cons x)
    next
      case panics
      then show ?thesis by (auto simp: Cons x split: option.splits)
    next
      case nested
      let ?p = "if squashed tag then [] else [tag]"
      have "if readable gs then flatten_fields gs (parents @ ?p) Map.empty
            = Ret (map_of (rev (keyed (parents @ ?p) (field_leaves gs))))
          else is_panic (flatten_fields gs (parents @ ?p) Map.empty)"
        using less [OF size_fields(2) [OF nested(3), of tag exported rest, folded x, folded Cons], of "parents @ ?p" Map.empty]
        by simp
      moreover have "(if squashed tag then parents else parents @ [tag]) = parents @ ?p" by simp
      ultimately show ?thesis using rest nested
        by (auto simp: Cons x keyed_append keyed_below simp del: append.simps split: outcome.splits)
    next
      case leaf
      then show ?thesis using rest
        by (cases u) (auto simp: Cons x keyed_append keyed_def)
    qed
  qed
qed

text \<open>
  C33: What \<open>FlattenStruct\<close> answers: a pointer to a struct as the struct itself, the leaves of a struct under the
  tags on the way to them, joined, the last one of each key, and a panic exactly when some field that
  has a tag is a nil pointer or is not exported.
\<close>

theorem flatten_collects_leaves:
  "flatten (PointerV (StructV fs)) = flatten (StructV fs)
   \<and> (if readable fs then flatten (StructV fs) = Ret (map_of (rev (keyed [] (leaves (StructV fs)))))
      else is_panic (flatten (StructV fs)))"
  using flatten_leaves [of fs "[]" Map.empty] by (simp add: flatten_def)

text \<open>A squashed struct adds nothing to the keys; the options of a tag stay in its key.\<close>

lemma flatten_example:
  "flatten (StructV [StructField '',squash'' True (StructV [StructField ''host'' True (PlainV False (1::nat))]),
      StructField ''db,omitempty'' True (PointerV (StructV [StructField ''port'' True (PlainV False 2)]))])
   = Ret [''host'' \<mapsto> PlainV False 1, ''db,omitempty.port'' \<mapsto> PlainV False 2]"
  by (simp add: flatten_def squashed_def FLATTENING_SEPARATOR_def)

end
