(* ===== verification/Doubles.thy ===== *)
theory Doubles
  imports Send
begin

text \<open>
  The doubles the packages offer to tests, built under the tag unit: stores and transactions
  (\<open>database/mock.go\<close>), a client over a canned response (\<open>httpclient/mock.go\<close>), encryption
  (\<open>crypto/mock.go\<close>) and requests with a logger. A failed assertion is a message.
\<close>

section \<open>Results of queries\<close>

record sql_result =
  last_insert_id :: int
  rows_affected :: int

definition default_sql_result :: sql_result where
  "default_sql_result = \<lparr>last_insert_id = 0, rows_affected = 0\<rparr>"

definition new_sql_result :: "int \<Rightarrow> int \<Rightarrow> sql_result" where
  "new_sql_result i n = \<lparr>last_insert_id = i, rows_affected = n\<rparr>"

definition LastInsertId :: "sql_result \<Rightarrow> int \<times> gerror option" where
  "LastInsertId r = (last_insert_id r, None)"

definition RowsAffected :: "sql_result \<Rightarrow> int \<times> gerror option" where
  "RowsAffected r = (rows_affected r, None)"

section \<open>A store\<close>

text \<open>
  A model or a destination, as reflection shows it: a slice, a pointer (to a slice or to another
  value, or nil) or another value, with the name of the type a slice holds or a value has.
\<close>

datatype 'v mock_value =
    MockSlice string "'v list"
  | MockPlain string 'v

datatype 'v mock_arg =
    MockValue "'v mock_value"
  | MockPointer "'v mock_value"
  | MockNilPointer

record 'v store_mock =
  sm_result :: sql_result
  sm_err :: "gerror option"
  sm_model :: "'v mock_arg option"
  sm_calls :: nat
  sm_query :: string

definition new_store_mock :: "'v store_mock" where
  "new_store_mock = \<lparr>sm_result = default_sql_result, sm_err = None, sm_model = None, sm_calls = 0, sm_query = []\<rparr>"

definition store_with_result :: "'v store_mock \<Rightarrow> sql_result \<Rightarrow> 'v store_mock" where
  "store_with_result s r = s\<lparr>sm_result := r\<rparr>"

definition store_with_error :: "'v store_mock \<Rightarrow> gerror option \<Rightarrow> 'v store_mock" where
  "store_with_error s e = s\<lparr>sm_err := e\<rparr>"

definition store_with_model :: "'v store_mock \<Rightarrow> 'v mock_arg option \<Rightarrow> 'v store_mock" where
  "store_with_model s m = s\<lparr>sm_model := m\<rparr>"

definition store_with_dummy_model :: "int store_mock \<Rightarrow> int store_mock" where
  "store_with_dummy_model s = s\<lparr>sm_model := Some (MockValue (MockPlain ''int'' 1))\<rparr>"

definition store_with_success :: "'v store_mock \<Rightarrow> sql_result \<Rightarrow> 'v store_mock" where
  "store_with_success s r = s\<lparr>sm_result := r\<rparr>"

definition store_exec_results :: "'v store_mock \<Rightarrow> int \<times> string" where
  "store_exec_results s = (int (sm_calls s), sm_query s)"

definition store_reset :: "'v store_mock \<Rightarrow> 'v store_mock" where
  "store_reset s = s\<lparr>sm_calls := 0, sm_query := []\<rparr>"

definition store_called :: "string \<Rightarrow> 'v store_mock \<Rightarrow> 'v store_mock" where
  "store_called query s = s\<lparr>sm_calls := Suc (sm_calls s), sm_query := query\<rparr>"

definition store_must_exec :: "string \<Rightarrow> ('v store_mock, sql_result) act" where
  "store_must_exec query s = ret (sm_result s) (store_called query s)"

definition store_exec :: "string \<Rightarrow> ('v store_mock, sql_result \<times> gerror option) act" where
  "store_exec query s = ret (sm_result s, sm_err s) (store_called query s)"

definition store_named_exec :: "string \<Rightarrow> ('v store_mock, sql_result \<times> gerror option) act" where
  "store_named_exec query s = ret (sm_result s, sm_err s) (store_called query s)"

definition plain_error :: "string \<Rightarrow> gerror" where
  "plain_error m = ForeignErr ''*errors.errorString'' m None None"

fun mock_type :: "'v mock_value \<Rightarrow> string" where
  "mock_type (MockSlice t vs) = ''[]'' @ t"
| "mock_type (MockPlain t v) = t"

text \<open>
  \<open>Get\<close> copies what the model points to into the destination: it returns the error and what the
  destination points to afterwards. Reflection panics on a model that is no pointer, and on a
  destination of another type.
\<close>

definition store_get ::
  "'v mock_arg \<Rightarrow> string \<Rightarrow> ('v store_mock, gerror option \<times> 'v mock_arg) act" where
  "store_get dest query s0 =
     (let s = store_called query s0 in
      case sm_model s of
        None \<Rightarrow> ret (Some (plain_error ''could not find the resource''), dest) s
      | Some model \<Rightarrow>
          (case dest of
             MockValue v \<Rightarrow>
               ret (Some (plain_error ''must pass a pointer, not a value, to StructScan destination''), dest) s
           | MockNilPointer \<Rightarrow> ret (Some (plain_error ''nil pointer passed to StructScan destination''), dest) s
           | MockPointer d \<Rightarrow>
               (case model of
                  MockValue v \<Rightarrow> panic ''reflect: call of reflect.Value.Elem on non-pointer Value'' s
                | MockNilPointer \<Rightarrow> panic ''reflect: call of reflect.Value.Set on zero Value'' s
                | MockPointer v \<Rightarrow>
                    if mock_type v = mock_type d then ret (sm_err s, MockPointer v) s
                    else panic (''reflect.Set: value of type '' @ mock_type v @ '' is not assignable to type '' @ mock_type d) s)))"

text \<open>\<open>Select\<close> appends to the slice the destination points to, which need not be empty.\<close>

definition store_select ::
  "'v mock_arg \<Rightarrow> string \<Rightarrow> ('v store_mock, gerror option \<times> 'v mock_arg) act" where
  "store_select dest query s0 =
     (let s = store_called query s0 in
      case sm_model s of
        None \<Rightarrow> ret (Some (plain_error ''could not find the resource''), dest) s
      | Some model \<Rightarrow>
          (case dest of
             MockValue v \<Rightarrow>
               ret (Some (plain_error ''must pass a pointer, not a value, to Select destination''), dest) s
           | MockNilPointer \<Rightarrow> ret (Some (plain_error ''nil pointer passed to Select destination''), dest) s
           | MockPointer (MockPlain t v) \<Rightarrow> ret (Some (plain_error ''destination is not a slice''), dest) s
           | MockPointer (MockSlice t vs) \<Rightarrow>
               (case model of
                  MockValue (MockSlice t' vs') \<Rightarrow>
                    if t \<noteq> t' then ret (Some (plain_error ''incompatible slice element types''), dest) s
                    else ret (sm_err s, MockPointer (MockSlice t (foldl (\<lambda>xs x. xs @ [x]) vs vs'))) s
                | _ \<Rightarrow> ret (Some (plain_error ''source is not a slice''), dest) s)))"

definition store_beginx :: "('v store_mock, unit option \<times> gerror option) act" where
  "store_beginx s = ret (None, sm_err s) s"

text \<open>
  \<open>Get\<close> wants a pointer as its model and \<open>Select\<close> a slice, so the dummy model, an integer, suits
  neither: one panics and the other reports an error.
\<close>

lemma dummy_model_unusable:
  assumes "sm_model s = sm_model (store_with_dummy_model t)"
  shows "is_panic (fst (store_get (MockPointer d) q s))"
    and "\<exists>e. fst (store_select (MockPointer (MockSlice ty vs)) q s) = Ret (Some e, MockPointer (MockSlice ty vs))"
  using assms
  by (simp_all add: store_with_dummy_model_def store_get_def store_select_def store_called_def Let_def panic_def ret_def)

lemma select_appends:
  assumes "sm_model s = Some (MockValue (MockSlice t vs'))"
  shows "store_select (MockPointer (MockSlice t vs)) q s
    = (Ret (sm_err s, MockPointer (MockSlice t (vs @ vs'))), store_called q s)"
proof -
  have "foldl (\<lambda>xs x. xs @ [x]) vs vs' = vs @ vs'" by (induction vs' arbitrary: vs) simp_all
  then show ?thesis using assms by (simp add: store_select_def store_called_def Let_def ret_def)
qed

section \<open>A transaction\<close>

record tx_mock =
  tm_result :: sql_result
  tm_err :: "gerror option"
  tm_calls :: nat
  tm_query :: string

definition new_tx_mock :: tx_mock where
  "new_tx_mock = \<lparr>tm_result = default_sql_result, tm_err = None, tm_calls = 0, tm_query = []\<rparr>"

definition tx_exec_results :: "tx_mock \<Rightarrow> int \<times> string" where
  "tx_exec_results t = (int (tm_calls t), tm_query t)"

definition tx_reset :: "tx_mock \<Rightarrow> tx_mock" where
  "tx_reset t = t\<lparr>tm_calls := 0, tm_query := []\<rparr>"

definition tx_with_error :: "tx_mock \<Rightarrow> gerror option \<Rightarrow> tx_mock" where
  "tx_with_error t e = t\<lparr>tm_err := e\<rparr>"

definition tx_called :: "string \<Rightarrow> tx_mock \<Rightarrow> tx_mock" where
  "tx_called query t = t\<lparr>tm_calls := Suc (tm_calls t), tm_query := query\<rparr>"

definition tx_commit :: "(tx_mock, gerror option) act" where
  "tx_commit t = ret (tm_err t) t"

definition tx_exec :: "string \<Rightarrow> (tx_mock, sql_result \<times> gerror option) act" where
  "tx_exec query t = ret (tm_result t, tm_err t) (tx_called query t)"

definition tx_named_exec :: "string \<Rightarrow> (tx_mock, sql_result \<times> gerror option) act" where
  "tx_named_exec query t = ret (tm_result t, tm_err t) (tx_called query t)"

definition tx_must_exec :: "string \<Rightarrow> (tx_mock, sql_result) act" where
  "tx_must_exec query t = ret (tm_result t) (tx_called query t)"

text \<open>Rolling back forgets how many queries ran, but not the last of them.\<close>

definition tx_rollback :: "(tx_mock, gerror option) act" where
  "tx_rollback t = ret (tm_err t) (t\<lparr>tm_calls := 0\<rparr>)"

section \<open>Comparing queries\<close>

definition is_alnum :: "char \<Rightarrow> bool" where
  "is_alnum c \<longleftrightarrow> c \<in> set ''abcdefghijklmnopqrstuvwxyzABCDEFGHIJKLMNOPQRSTUVWXYZ0123456789''"

text \<open>Deleting every match of \<open>[^a-zA-Z0-9]+\<close>, on text of one byte per character.\<close>

definition clean_string :: "string \<Rightarrow> string" where
  "clean_string s = filter is_alnum s"

definition soft_compare_queries :: "string \<Rightarrow> string \<Rightarrow> string list" where
  "soft_compare_queries want got =
     (if clean_string want \<noteq> clean_string got
      then [''Expected query to be:'' @ [CHR 0x0A] @ want @ [CHR 0x0A] @ ''But got:'' @ [CHR 0x0A] @ got] else [])"

definition assert_query_execution :: "string \<Rightarrow> int \<times> string \<Rightarrow> string list" where
  "assert_query_execution expected results =
     (case results of (n, query) \<Rightarrow>
        if n \<noteq> 1 then [''Expected query to be called 1 time, got '' @ int_str n]
        else soft_compare_queries expected query)"

text \<open>The assertion passes exactly on one query that differs from the expected one in white space and punctuation only.\<close>

lemma assert_query_after:
  "assert_query_execution q (store_exec_results (fold store_called qs (store_reset s))) = []
     \<longleftrightarrow> (\<exists>q'. qs = [q'] \<and> clean_string q = clean_string q')"
proof -
  have "sm_calls (fold store_called qs t) = sm_calls t + length qs" for t :: "'a store_mock"
    by (induction qs arbitrary: t) (simp_all add: store_called_def)
  then have n: "sm_calls (fold store_called qs (store_reset s)) = length qs" by (simp add: store_reset_def)
  show ?thesis
  proof (cases "\<exists>q'. qs = [q']")
    case True
    then show ?thesis
      by (auto simp: assert_query_execution_def store_exec_results_def store_called_def store_reset_def soft_compare_queries_def)
  next
    case False
    then have "length qs \<noteq> 1" by (auto simp: length_Suc_conv)
    then show ?thesis using False n by (auto simp: assert_query_execution_def store_exec_results_def)
  qed
qed

text \<open>
  Two structs, as the names of their types and their fields, each with its name, whether it is
  exported and its value; comparing values deeply is equality, and the message leaves their texts
  out. Reading a field that the second
  struct lacks, or that is not exported, panics.
\<close>

record 'v mock_struct =
  ms_type :: string
  ms_fields :: "(string \<times> bool \<times> 'v) list"

fun differing_fields :: "(string \<times> bool \<times> 'v) list \<Rightarrow> (string \<times> bool \<times> 'v) list \<Rightarrow> string list outcome" where
  "differing_fields [] gots = Ret []"
| "differing_fields (want # wants) [] = Panic ''reflect: Field index out of range''"
| "differing_fields ((name, exported, x) # wants) ((name', exported', y) # gots) =
     (if \<not> exported \<or> \<not> exported' then Panic ''reflect.Value.Interface: cannot return value obtained from unexported field or method''
      else case differing_fields wants gots of
             Panic p \<Rightarrow> Panic p
           | Ret ms \<Rightarrow> Ret ((if x \<noteq> y then [''Field '' @ name @ '' does not match.''] else []) @ ms))"

definition assert_equal_models :: "'v mock_struct \<Rightarrow> 'v mock_struct \<Rightarrow> string list outcome" where
  "assert_equal_models want got =
     (case differing_fields (ms_fields want) (ms_fields got) of
        Panic p \<Rightarrow> Panic p
      | Ret ms \<Rightarrow> Ret ((if ms_type want \<noteq> ms_type got
          then [''Structs have different types: '' @ ms_type want @ '' and '' @ ms_type got] else []) @ ms))"

lemma differing_fields_none:
  "list_all (\<lambda>(n, e, x). e) xs \<Longrightarrow> list_all (\<lambda>(n, e, x). e) ys \<Longrightarrow> length xs = length ys \<Longrightarrow>
     differing_fields xs ys = Ret [] \<longleftrightarrow> map (\<lambda>(n, e, x). x) xs = map (\<lambda>(n, e, x). x) ys"
  by (induction xs ys rule: differing_fields.induct) (auto split: outcome.splits)

section \<open>Tokens and encryption\<close>

record 'j auth_mock =
  am_token_str :: string
  am_superuser :: bool
  am_token :: 'j
  am_err :: "gerror option"

text \<open>The token \<open>jwt.New\<close> makes is an argument.\<close>

definition new_auth_mock :: "'j \<Rightarrow> 'j auth_mock" where
  "new_auth_mock fresh = \<lparr>am_token_str = [], am_superuser = False, am_token = fresh, am_err = None\<rparr>"

definition auth_new_jwt :: "'j auth_mock \<Rightarrow> string \<times> gerror option" where
  "auth_new_jwt a = (am_token_str a, am_err a)"

definition auth_parse_jwt :: "'j auth_mock \<Rightarrow> 'j \<times> gerror option" where
  "auth_parse_jwt a = (am_token a, am_err a)"

definition auth_with_superuser :: "'j auth_mock \<Rightarrow> 'j auth_mock" where
  "auth_with_superuser a = a\<lparr>am_superuser := True\<rparr>"

definition auth_with_token :: "'j auth_mock \<Rightarrow> 'j \<Rightarrow> 'j auth_mock" where
  "auth_with_token a t = a\<lparr>am_token := t\<rparr>"

record crypto_mock =
  cm_err :: "gerror option"

definition new_crypto_mock :: crypto_mock where
  "new_crypto_mock = \<lparr>cm_err = None\<rparr>"

definition new_invalid_crypto_mock :: "gerror option \<Rightarrow> crypto_mock" where
  "new_invalid_crypto_mock e = \<lparr>cm_err = e\<rparr>"

definition mock_encrypt :: "crypto_mock \<Rightarrow> string \<Rightarrow> string \<times> gerror option" where
  "mock_encrypt c content = (content, cm_err c)"

definition mock_decrypt :: "crypto_mock \<Rightarrow> string \<Rightarrow> string \<times> gerror option" where
  "mock_decrypt c t = (t, cm_err c)"

lemma mock_crypto_roundtrip: "mock_decrypt c (fst (mock_encrypt c x)) = (x, cm_err c)"
  by (simp add: mock_encrypt_def mock_decrypt_def)

text \<open>A request with a logger (\<open>request/logging_mock.go\<close>).\<close>

definition request_with_logger :: "go_ctx \<Rightarrow> logger \<Rightarrow> go_ctx" where
  "request_with_logger c l = with_value c LoggerKey (CVLogger l)"

section \<open>A client over a canned response\<close>

record requester_mock =
  qm_status :: int
  qm_body :: string
  qm_header :: header
  qm_err :: "gerror option"
  qm_capture :: bool

definition new_requester_mock :: requester_mock where
  "new_requester_mock = \<lparr>qm_status = 200, qm_body = [], qm_header = no_header, qm_err = None, qm_capture = False\<rparr>"

definition requester_with_status :: "requester_mock \<Rightarrow> int \<Rightarrow> requester_mock" where
  "requester_with_status m c = m\<lparr>qm_status := c\<rparr>"

definition requester_with_body :: "requester_mock \<Rightarrow> string \<Rightarrow> requester_mock" where
  "requester_with_body m b = m\<lparr>qm_body := b\<rparr>"

definition requester_with_json :: "('v \<Rightarrow> gerror + string) \<Rightarrow> requester_mock \<Rightarrow> 'v \<Rightarrow> requester_mock" where
  "requester_with_json json m v =
     m\<lparr>qm_body := (case json v of Inl e \<Rightarrow> [] | Inr b \<Rightarrow> b),
       qm_header := header_set ''Content-Type'' ''application/json'' (qm_header m)\<rparr>"

definition requester_with_header :: "requester_mock \<Rightarrow> string \<Rightarrow> string \<Rightarrow> requester_mock" where
  "requester_with_header m k v = m\<lparr>qm_header := header_set k v (qm_header m)\<rparr>"

definition requester_with_error :: "requester_mock \<Rightarrow> gerror option \<Rightarrow> requester_mock" where
  "requester_with_error m e = m\<lparr>qm_err := e\<rparr>"

definition requester_with_capture :: "requester_mock \<Rightarrow> requester_mock" where
  "requester_with_capture m = m\<lparr>qm_capture := True\<rparr>"

text \<open>The transport: the requests it captured so far, and the canned answer.\<close>

definition round_trip ::
  "requester_mock \<Rightarrow> http_out list \<Rightarrow> http_out \<Rightarrow> (http_response option \<times> gerror option) \<times> http_out list" where
  "round_trip m captured req =
     (let captured' = (if qm_capture m then captured @ [req] else captured) in
      case qm_err m of
        Some e \<Rightarrow> ((None, Some e), captured')
      | None \<Rightarrow> ((Some \<lparr>resp_status = qm_status m, resp_header = qm_header m, resp_body = Some \<lparr>hb_bytes = qm_body m, hb_error = None\<rparr>\<rparr>, None),
          captured'))"

text \<open>The configuration leaves everything but the base URL and the transport at its zero value.\<close>

definition mock_config :: client_config where
  "mock_config =
     \<lparr>cc_base_url = ''http://mock.local'', cc_base_headers = [], cc_timeout = 0, cc_token = None,
      cc_retry = \<lparr>rc_enabled = False, rc_max = 0, rc_min_wait = 0, rc_max_wait = 0, rc_policy = None\<rparr>,
      cc_before = [], cc_after = []\<rparr>"

text \<open>An error of \<open>New\<close>, which the base URL cannot cause, would leave a nil client.\<close>

definition requester_R :: "'u url_lib \<Rightarrow> go_ctx \<Rightarrow> (world, gerror + client \<times> request) act" where
  "requester_R ul ctx =
     bind_act (new_client ul (Some mock_config)) (\<lambda>r. ret (case r of
       Inl e \<Rightarrow> Inl e
     | Inr c \<Rightarrow> Inr (c, client_R c ctx)))"

text \<open>
  However a request is built, and even if it asks for retries, the doubled client sends it once and
  answers with the canned response, or reports the transport's error.
\<close>

lemma mock_sends_once:
  assumes "cl_config c = mock_config" and "\<And>h. env_do env 0 h = fst (round_trip m [] h)"
  shows "do_with_retry env c r h replayable caller_set s =
    (case qm_err m of
       None \<Rightarrow> (Ret (Inr (fst (fst (round_trip m [] h)))), s\<lparr>cs_events := cs_events s @ [Sent h]\<rparr>)
     | Some e \<Rightarrow> finish_attempts None (Some e) (s\<lparr>cs_events := cs_events s @ [Sent h]\<rparr>))"
proof -
  have "\<not> can_retry (cc_retry mock_config) o' p meth" for o' p meth
    by (cases o') (simp_all add: can_retry_def mock_config_def)
  then show ?thesis
    by (simp add: do_with_retry_def attempts.simps assms prepare_attempt_def bind_act_def ret_def emit_def Let_def
        round_trip_def finish_attempts_def split: option.split)
qed

text \<open>The path of a URL, and the verb \<open>%q\<close> of \<open>fmt\<close>, are arguments.\<close>

definition assert_requested ::
  "(string \<Rightarrow> string) \<Rightarrow> (string \<Rightarrow> string) \<Rightarrow> http_out list \<Rightarrow> string \<Rightarrow> string \<Rightarrow> string list" where
  "assert_requested url_path quote reqs meth path =
     (if list_ex (\<lambda>r. ho_method r = meth \<and> url_path (ho_url r) = path) reqs then []
      else [''expected a '' @ meth @ '' request to '' @ quote path @ '', but it was not among the ''
        @ int_str (int (length reqs)) @ '' captured request(s)''])"

end
