(* ===== verification/Test_Case.thy ===== *)
theory Test_Case
  imports Serving Requests
begin

text \<open>
  The test case of a handler (\<open>test/test.go\<close>): a request built step by step, the handler run on a
  recorder, and what is compared afterwards. Formatting a URL, parsing it, encoding a query and JSON,
  and the difference of two JSON texts are arguments.
\<close>

section \<open>Building a case\<close>

text \<open>A fatal failure of a test ends it: a panic nothing recovers.\<close>

definition test_fatal :: "string \<Rightarrow> string" where
  "test_fatal msg = ''FailNow: '' @ msg"

definition nil_dereference :: string where
  "nil_dereference = ''runtime error: invalid memory address or nil pointer dereference''"

record test_case =
  tc_title :: string
  tc_handler :: "(string option \<Rightarrow> handler) option"
  tc_request :: "(areq \<times> string option) option"
  tc_params :: "(string \<times> string) list"
  tc_query :: "(string \<times> string) list"
  tc_status :: int
  tc_response :: string
  tc_message :: string

definition new_test_case :: "string \<Rightarrow> test_case" where
  "new_test_case title =
     \<lparr>tc_title = title, tc_handler = None, tc_request = None, tc_params = [], tc_query = [], tc_status = 0,
      tc_response = [], tc_message = []\<rparr>"

definition test_handler :: "(string option \<Rightarrow> handler) \<Rightarrow> test_case \<Rightarrow> test_case" where
  "test_handler h tc = tc\<lparr>tc_handler := Some h\<rparr>"

text \<open>\<open>fmt.Sprintf\<close> on the pattern and its parameters, then \<open>http.NewRequest\<close>: the path of a URL it accepts.\<close>

record 'p request_lib =
  rl_sprintf :: "string \<Rightarrow> 'p list \<Rightarrow> string"
  rl_path :: "string \<Rightarrow> string option"

definition new_test_request :: "'p request_lib \<Rightarrow> string \<Rightarrow> string \<Rightarrow> 'p list \<Rightarrow> areq outcome" where
  "new_test_request rl meth url params =
     (let endpoint = rl_sprintf rl url params in
      case rl_path rl endpoint of
        None \<Rightarrow> Panic (test_fatal ''Failed to create request endpoint.'')
      | Some p \<Rightarrow> Ret \<lparr>ar_method = meth, ar_url = endpoint, ar_path = p, ar_raw_path = [], ar_header = no_header,
          ar_ctx = background, ar_cancels = []\<rparr>)"

definition test_send :: "'p request_lib \<Rightarrow> string \<Rightarrow> string \<Rightarrow> 'p list \<Rightarrow> test_case \<Rightarrow> test_case outcome" where
  "test_send rl meth url params tc =
     (case new_test_request rl meth url params of
        Panic p \<Rightarrow> Panic p
      | Ret r \<Rightarrow> Ret (tc\<lparr>tc_request := Some (r, None)\<rparr>))"

definition test_post where "test_post rl = test_send rl ''POST''"
definition test_get where "test_get rl = test_send rl ''GET''"
definition test_put where "test_put rl = test_send rl ''PUT''"
definition test_delete where "test_delete rl = test_send rl ''DELETE''"

definition test_param :: "string \<Rightarrow> string \<Rightarrow> test_case \<Rightarrow> test_case" where
  "test_param k v tc = tc\<lparr>tc_params := tc_params tc @ [(k, v)]\<rparr>"

definition test_query :: "string \<Rightarrow> string \<Rightarrow> test_case \<Rightarrow> test_case" where
  "test_query k v tc = tc\<lparr>tc_query := tc_query tc @ [(k, v)]\<rparr>"

definition test_body :: "('v \<Rightarrow> gerror + string) \<Rightarrow> 'v \<Rightarrow> test_case \<Rightarrow> test_case outcome" where
  "test_body json v tc =
     (case json v of
        Inl e \<Rightarrow> Panic (test_fatal ''Failed to marshal body data.'')
      | Inr d \<Rightarrow>
          (case tc_request tc of
             None \<Rightarrow> Panic nil_dereference
           | Some (r, b) \<Rightarrow> Ret (tc\<lparr>tc_request := Some (r, Some d)\<rparr>)))"

definition expect_status :: "int \<Rightarrow> test_case \<Rightarrow> test_case" where
  "expect_status c tc = tc\<lparr>tc_status := c\<rparr>"

definition expect_response :: "string \<Rightarrow> test_case \<Rightarrow> test_case" where
  "expect_response d tc = tc\<lparr>tc_response := d\<rparr>"

definition expect_message :: "string \<Rightarrow> test_case \<Rightarrow> test_case" where
  "expect_message m tc = tc\<lparr>tc_message := m\<rparr>"

definition expect_object :: "('v \<Rightarrow> gerror + string) \<Rightarrow> 'v \<Rightarrow> test_case \<Rightarrow> test_case" where
  "expect_object json v tc = tc\<lparr>tc_response := (case json v of Inl e \<Rightarrow> [] | Inr d \<Rightarrow> d)\<rparr>"

section \<open>Running it\<close>

text \<open>
  Comparing two JSON texts: nothing when one cannot be parsed, otherwise the patch between them, none
  when they are equal; a patch can be encoded.
\<close>

definition compare_json_response :: "(string \<Rightarrow> string \<Rightarrow> string option option) \<Rightarrow> string \<Rightarrow> string \<Rightarrow> string outcome" where
  "compare_json_response diff want got =
     (case diff want got of
        None \<Rightarrow> Panic (test_fatal ''Failed to compare json response.'')
      | Some None \<Rightarrow> Ret []
      | Some (Some patch) \<Rightarrow> Ret patch)"

text \<open>The context: the route's parameters, a silent logger, and two strings under the keys of the ids.\<close>

definition test_context :: "test_case \<Rightarrow> go_ctx \<Rightarrow> go_ctx" where
  "test_context tc c =
     with_value (with_value (with_value (with_value c
       (OtherKey ''chi.RouteCtxKey'') (CVAny (VObj (map (apsnd VStr) (tc_params tc)))))
       LoggerKey (CVLogger (Logger ''nop'' [])))
       RequestIdKey (CVStr ''test-request-id''))
       SessionIdKey (CVStr ''test-session-id'')"

text \<open>
  \<open>End\<close>, in a site whose writer is the recorder. The query of the request is replaced by the one of the
  case, encoded. The result is what was reported as an error of the test; a fatal failure to compare
  ends the test, and what was reported before it is left out.
\<close>

definition test_report :: "(string \<Rightarrow> string \<Rightarrow> string option option) \<Rightarrow> test_case \<Rightarrow> int \<Rightarrow> string \<Rightarrow> string list outcome" where
  "test_report diff tc status body =
     (case compare_json_response diff (tc_response tc) body of
        Panic p \<Rightarrow> Panic p
      | Ret d \<Rightarrow>
          Ret ((if tc_status tc \<noteq> status
                then [''Expected status code `'' @ int_str (tc_status tc) @ ''` but got `'' @ int_str status @ ''`''] else [])
             @ (if d \<noteq> [] then [''Expected response `'' @ tc_response tc @ ''` but got `'' @ body @ ''`. Diff '' @ d] else [])))"

definition test_end ::
  "(string \<Rightarrow> (string \<times> string) list \<Rightarrow> string) \<Rightarrow> (string \<Rightarrow> string \<Rightarrow> string option option) \<Rightarrow> test_case
    \<Rightarrow> (site, string list) act" where
  "test_end with_query diff tc =
     (case tc_request tc of
        None \<Rightarrow> panic nil_dereference
      | Some (r, b) \<Rightarrow>
          (case tc_handler tc of
             None \<Rightarrow> panic nil_dereference
           | Some h \<Rightarrow>
               bind_act (h b base_rw (r\<lparr>ar_ctx := test_context tc (ar_ctx r), ar_url := with_query (ar_url r) (tc_query tc)\<rparr>))
                 (\<lambda>_ s. (test_report diff tc (final_status (site_writer s)) (concat (wr_body (site_writer s))), s))))"

definition differs_from :: "string \<Rightarrow> string \<Rightarrow> string list" where
  "differs_from want got =
     (if got \<noteq> want then [''Expected '' @ quoted want @ '', but got '' @ quoted got] else [])"

definition assert_model_json_fields :: "('v \<Rightarrow> gerror + string) \<Rightarrow> 'v \<Rightarrow> string \<Rightarrow> string list" where
  "assert_model_json_fields json dto want =
     (case json dto of
        Inl e \<Rightarrow> (''Expected '' @ quoted ''nil'' @ '', but got '' @ quoted (error_text e)) # differs_from want []
      | Inr got \<Rightarrow> differs_from want got)"

section \<open>What a case checks\<close>

text \<open>The expected message is never looked at.\<close>

lemma message_unchecked: "test_end with_query diff (expect_message m tc) = test_end with_query diff tc"
proof -
  have fields: "tc_request (expect_message m tc) = tc_request tc" "tc_handler (expect_message m tc) = tc_handler tc"
    "tc_query (expect_message m tc) = tc_query tc" "test_context (expect_message m tc) = test_context tc"
    by (simp_all add: expect_message_def test_context_def fun_eq_iff)
  have "test_report diff (expect_message m tc) = test_report diff tc"
    unfolding test_report_def expect_message_def fun_eq_iff by (simp split: outcome.split)
  then show ?thesis by (simp only: test_end_def fields)
qed

text \<open>Without an expected response a case cannot pass, since the empty text is no JSON.\<close>

lemma response_required:
  assumes "\<And>got. diff [] got = None" and "tc_response tc = []"
  shows "is_panic (fst (test_end with_query diff tc s))"
proof -
  have "test_report diff tc c b = Panic (test_fatal ''Failed to compare json response.'')" for c b
    using assms by (simp add: test_report_def compare_json_response_def)
  then show ?thesis by (simp add: test_end_def bind_act_def panic_def split: option.split prod.split outcome.split)
qed

text \<open>A handler under test that asks for its request id gets an error: the string is no uuid.\<close>

lemma request_id_refused:
  assumes "wf_world w"
  shows "runs w (get_request_id_from_context (test_context tc c))
    (\<lambda>r w'. \<exists>e. r = Inl e \<and> live_error w' KindContextError e)"
proof -
  let ?opts = "[context_opt (context_new (stack_at w ''GetRequestIdFromContext#2'')
      [Field ''invalid_request_id'' (VStr ''test-request-id'')])]"
  have "ctx_value (test_context tc c) RequestIdKey = Some (CVStr ''test-request-id'')"
    by (simp add: test_context_def)
  then have "get_request_id_from_context (test_context tc c) w =
      bind_act (new_error ''GetRequestIdFromContext#2'' KindContextError ''invalid request id found in context'' ?opts)
        (\<lambda>e. ret (Inl e)) w"
    by (simp add: get_request_id_from_context_def)
  moreover have "runs w (bind_act (new_error ''GetRequestIdFromContext#2'' KindContextError
      ''invalid request id found in context'' ?opts) (\<lambda>e. ret (Inl e :: gerror + uuid)))
    (\<lambda>r w'. \<exists>e. r = Inl e \<and> live_error w' KindContextError e)"
    by (rule runs_bind [OF runs_new_error [OF assms]]) (auto intro!: runs_ret)
  ultimately show ?thesis by (simp add: runs_def)
qed

end
