(* ===== verification/Error_Programs.thy ===== *)
theory Error_Programs
  imports Calls
begin

text \<open>
  Programs that only build, wrap and classify errors with the constructors and options of
  \<open>errors/\<close>, and the kinds one can read off their text.
\<close>

section \<open>Programs\<close>

text \<open>An option as a call site writes it; what a site's stack shows is the world's.\<close>

datatype option_use =
    UseHint string
  | UseDetails "(string \<times> gval) list"
  | UseContext string "field_entry list"
  | UseRevTrace string
  | UseStackTrace string

fun option_of :: "world \<Rightarrow> option_use \<Rightarrow> opt" where
  "option_of w (UseHint msg) = hint_opt msg"
| "option_of w (UseDetails kvs) = details_opt (map_of (rev kvs))"
| "option_of w (UseContext site es) = context_opt (context_new (stack_at w site) es)"
| "option_of w (UseRevTrace site) = rev_trace_opt (rev_trace_text (stack_at w site))"
| "option_of w (UseStackTrace text) = stack_trace_opt text"

definition options_of :: "option_use list \<Rightarrow> world \<Rightarrow> opt list" where
  "options_of us w = map (option_of w) us"

lemma options_of_ok [simp]: "opts_ok (options_of us w)"
proof -
  have "garlic_opt (option_of w u)" for u by (cases u) simp_all
  then show ?thesis by (auto simp: opts_ok_def options_of_def)
qed

text \<open>
  A call names the results of earlier calls by their position; a position without a result is nil.
  \<open>Foreign\<close> is an error of another package, which may wrap one of the results.
\<close>

datatype error_call =
    Foreign string string "nat option"
  | New kind string "option_use list"
  | Raw kind string "option_use list"
  | Mirror kind "option_use list"
  | Override kind nat string "option_use list"
  | MirrorOverride kind nat "option_use list"
  | From kind nat string "option_use list"
  | PropagateAs kind nat string "option_use list"
  | Propagate nat string "option_use list"

definition result_at :: "'a option list \<Rightarrow> nat \<Rightarrow> 'a option" where
  "result_at xs i = (if i < length xs then xs ! i else None)"

fun run_call :: "string \<Rightarrow> gerror option list \<Rightarrow> error_call \<Rightarrow> (world, gerror option) act" where
  "run_call site es (Foreign t m i) w =
     ret (Some (ForeignErr t m None (case i of None \<Rightarrow> None | Some i \<Rightarrow> result_at es i))) w"
| "run_call site es (New k m us) w = bind_act (new_error site k m (options_of us w)) (\<lambda>e. ret (Some e)) w"
| "run_call site es (Raw k m us) w = bind_act (raw_error k m (options_of us w)) (\<lambda>e. ret (Some e)) w"
| "run_call site es (Mirror k us) w = bind_act (mirror_error k (options_of us w)) (\<lambda>e. ret (Some e)) w"
| "run_call site es (Override k i m us) w =
     bind_act (override_error k (result_at es i) m (options_of us w)) (\<lambda>e. ret (Some e)) w"
| "run_call site es (MirrorOverride k i us) w =
     bind_act (mirror_override k (result_at es i) (options_of us w)) (\<lambda>e. ret (Some e)) w"
| "run_call site es (From k i m us) w = from_error k (result_at es i) m (options_of us w) w"
| "run_call site es (PropagateAs k i m us) w = propagate_as site k (result_at es i) m (options_of us w) w"
| "run_call site es (Propagate i m us) w = propagate site (result_at es i) m (options_of us w) w"

text \<open>Each call is made from a site of its own; its result is remembered.\<close>

fun run_calls :: "(string \<times> error_call) list \<Rightarrow> gerror option list \<Rightarrow> (world, gerror option list) act" where
  "run_calls [] es = ret es"
| "run_calls ((site, c) # cs) es = bind_act (run_call site es c) (\<lambda>e. run_calls cs (es @ [e]))"

section \<open>Types\<close>

text \<open>The type of a result: nil (None), an error without a kind, or a garlic error of a kind.\<close>

datatype error_type = Unclassified | Classified kind

fun wrapped_type :: "kind \<Rightarrow> error_type option \<Rightarrow> error_type option" where
  "wrapped_type k None = None"
| "wrapped_type k (Some Unclassified) = Some (Classified k)"
| "wrapped_type k (Some (Classified kc)) = Some (Classified (inherit_status_customization k kc))"

fun propagated_type :: "error_type option \<Rightarrow> error_type option" where
  "propagated_type None = None"
| "propagated_type (Some Unclassified) = Some (Classified KindError)"
| "propagated_type (Some (Classified k)) = Some (Classified k)"

fun type_of_call :: "error_type option list \<Rightarrow> error_call \<Rightarrow> error_type option" where
  "type_of_call ts (Foreign t m i) = Some Unclassified"
| "type_of_call ts (New k m us) = Some (Classified k)"
| "type_of_call ts (Raw k m us) = Some (Classified k)"
| "type_of_call ts (Mirror k us) = Some (Classified k)"
| "type_of_call ts (Override k i m us) = Some (Classified k)"
| "type_of_call ts (MirrorOverride k i us) = Some (Classified k)"
| "type_of_call ts (From k i m us) = wrapped_type k (result_at ts i)"
| "type_of_call ts (PropagateAs k i m us) = wrapped_type k (result_at ts i)"
| "type_of_call ts (Propagate i m us) = propagated_type (result_at ts i)"

fun types_of :: "(string \<times> error_call) list \<Rightarrow> error_type option list \<Rightarrow> error_type option list" where
  "types_of [] ts = ts"
| "types_of ((site, c) # cs) ts = types_of cs (ts @ [type_of_call ts c])"

fun typed :: "world \<Rightarrow> gerror option \<Rightarrow> error_type option \<Rightarrow> bool" where
  "typed w e None \<longleftrightarrow> e = None"
| "typed w e (Some Unclassified) \<longleftrightarrow> (\<exists>x. e = Some x \<and> error_kind x = None)"
| "typed w e (Some (Classified k)) \<longleftrightarrow> (\<exists>x. e = Some x \<and> live_error w k x)"

lemma typed_le: "typed w e t \<Longrightarrow> world_le w w' \<Longrightarrow> typed w' e t"
  by (cases "(w, e, t)" rule: typed.cases) (auto intro: live_error_le)

lemma typed_result: "list_all2 (typed w) es ts \<Longrightarrow> typed w (result_at es i) (result_at ts i)"
  by (auto simp: result_at_def list_all2_conv_all_nth)

lemma typed_kind: "typed w (Some x) t \<Longrightarrow> t = Some (case error_kind x of None \<Rightarrow> Unclassified | Some k \<Rightarrow> Classified k)"
  by (cases "(w, Some x, t)" rule: typed.cases) (auto dest: live_kind)

lemma typed_good: "typed w (Some x) t \<Longrightarrow> good_error w x"
  by (cases "(w, Some x, t)" rule: typed.cases) (auto dest: live_good, cases x, auto)

lemma wraps_typed:
  assumes "typed w (Some x) t" and "wraps k m x r w'"
  shows "typed w' r (wrapped_type k t)"
  using assms(2) typed_kind [OF assms(1)] by (auto simp: wraps_def wrapped_kind_def split: option.splits)

section \<open>Soundness\<close>

lemma runs_some:
  assumes "runs w m (\<lambda>e w'. live_error w' k e \<and> P e)"
  shows "runs w (bind_act m (\<lambda>e. ret (Some e))) (\<lambda>e w'. typed w' e (Some (Classified k)))"
  using assms by (rule runs_bind) (auto intro: runs_ret)

lemma runs_wrapped:
  assumes t: "typed w e t" and nil: "m None = ret None"
    and m: "\<And>x. e = Some x \<Longrightarrow> good_error w x \<Longrightarrow> runs w (m (Some x)) (wraps k msg x)" and wf: "wf_world w"
  shows "runs w (m e) (\<lambda>r w'. typed w' r (wrapped_type k t))"
proof (cases e)
  case None
  then have "t = None" using t by (cases "(w, e, t)" rule: typed.cases) auto
  then show ?thesis using None nil wf by (simp add: runs_ret)
next
  case (Some x)
  have "runs w (m (Some x)) (wraps k msg x)" using m [OF Some] typed_good t Some by blast
  then show ?thesis unfolding Some by (rule runs_weaken) (use t Some wraps_typed in blast)
qed

lemma propagated_wrapped: "propagated_type t = wrapped_type (case t of Some (Classified k) \<Rightarrow> k | _ \<Rightarrow> KindError) t"
  by (cases t rule: propagated_type.cases) auto

lemma run_call_typed:
  assumes wf: "wf_world w" and es: "list_all2 (typed w) es ts"
  shows "runs w (run_call site es c) (\<lambda>e w'. typed w' e (type_of_call ts c))"
proof (cases c)
  case (Foreign t m i)
  then show ?thesis using wf by (simp add: runs_def ret_def)
next
  case (New k m us)
  then show ?thesis using runs_some [OF runs_new_error [OF wf options_of_ok [of us w]]] by (simp add: runs_def)
next
  case (Raw k m us)
  then show ?thesis using runs_some [OF runs_raw_error [OF wf options_of_ok [of us w]]] by (simp add: runs_def)
next
  case (Mirror k us)
  then show ?thesis using runs_some [OF runs_mirror_error [OF wf options_of_ok [of us w]]] by (simp add: runs_def)
next
  case (Override k i m us)
  then show ?thesis using runs_some [OF runs_override_error [OF wf options_of_ok [of us w]]] by (simp add: runs_def)
next
  case (MirrorOverride k i us)
  then show ?thesis using runs_some [OF runs_mirror_override [OF wf options_of_ok [of us w]]] by (simp add: runs_def)
next
  case (From k i m us)
  have "runs w (from_error k (result_at es i) m (options_of us w)) (\<lambda>r w'. typed w' r (wrapped_type k (result_at ts i)))"
    by (rule runs_wrapped [OF typed_result [OF es], where m = "\<lambda>e. from_error k e m (options_of us w)"])
      (auto simp: from_error_def fun_eq_iff intro: runs_from_error wf)
  then show ?thesis using From by (simp add: runs_def)
next
  case (PropagateAs k i m us)
  have "runs w (propagate_as site k (result_at es i) m (options_of us w)) (\<lambda>r w'. typed w' r (wrapped_type k (result_at ts i)))"
    by (rule runs_wrapped [OF typed_result [OF es], where m = "\<lambda>e. propagate_as site k e m (options_of us w)"])
      (auto simp: propagate_as_def fun_eq_iff intro: runs_propagate_as wf)
  then show ?thesis using PropagateAs by (simp add: runs_def)
next
  case (Propagate i m us)
  let ?t = "result_at ts i"
  have k: "(case error_kind x of None \<Rightarrow> KindError | Some k \<Rightarrow> k) = (case ?t of Some (Classified k) \<Rightarrow> k | _ \<Rightarrow> KindError)"
    if "result_at es i = Some x" for x
    using typed_kind [of w x ?t] typed_result [OF es, of i] that by (auto split: option.split)
  have "runs w (propagate site (result_at es i) m (options_of us w)) (\<lambda>r w'. typed w' r (propagated_type ?t))"
    unfolding propagated_wrapped
  proof (rule runs_wrapped [OF typed_result [OF es] _ _ wf])
    show "propagate site None m (options_of us w) = ret None" by (simp add: propagate_def)
  next
    fix x
    assume "result_at es i = Some x" and "good_error w x"
    then show "runs w (propagate site (Some x) m (options_of us w)) (wraps (case ?t of Some (Classified k) \<Rightarrow> k | _ \<Rightarrow> KindError) m x)"
      using runs_propagate [OF wf, of "options_of us w" x site m] k by simp
  qed
  then show ?thesis using Propagate by (simp add: runs_def)
qed

lemma run_calls_typed:
  assumes "wf_world w" and "list_all2 (typed w) es ts"
  shows "runs w (run_calls cs es) (\<lambda>es' w'. list_all2 (typed w') es' (types_of cs ts))"
  using assms
proof (induction cs arbitrary: w es ts)
  case Nil
  then show ?case by (simp add: runs_ret)
next
  case (Cons x cs)
  obtain site c where x: "x = (site, c)" by (cases x)
  show ?case unfolding x run_calls.simps types_of.simps
  proof (rule runs_bind [OF run_call_typed [OF Cons.prems, of site c]])
    fix e w'
    assume wf: "wf_world w'" and le: "world_le w w'" and e: "typed w' e (type_of_call ts c)"
    have "list_all2 (typed w') es ts" using Cons.prems(2) by (rule list_all2_mono) (rule typed_le [OF _ le])
    then show "runs w' (run_calls cs (es @ [e])) (\<lambda>es' w'. list_all2 (typed w') es' (types_of cs (ts @ [type_of_call ts c])))"
      using Cons.IH [OF wf] e by (simp add: list_all2_appendI)
  qed
qed

text \<open>
  C13: A program of error calls never goes wrong, and its kinds can be read off its text. Whatever
  sequence of constructors and options it runs, from any well-formed state, no call panics; the
  result of each is nil, an error without a kind, or a garlic error of the kind its type says, still
  backed by live state at the end; and every error that existed before is still usable.
\<close>

theorem error_programs_typed:
  assumes "wf_world w"
  shows "\<exists>es w'. run_calls cs [] w = (Ret es, w') \<and> wf_world w' \<and> list_all2 (typed w') es (types_of cs [])
    \<and> (\<forall>e. good_error w e \<longrightarrow> good_error w' e)"
  using run_calls_typed [OF assms, of "[]" "[]" cs] good_error_le by (auto simp: runs_def)

text \<open>
  A driver's error classified, passed on, hidden behind another and wrapped by another package: the
  last step loses the kind.
\<close>

definition example_program :: "(string \<times> error_call) list" where
  "example_program =
     [(''Read'', Foreign ''pgconn.PgError'' ''no rows'' None),
      (''Read'', PropagateAs KindNotFoundError 0 ''missing'' [UseHint ''check the id'']),
      (''Handler'', Propagate 1 ''failed'' [UseContext ''Handler'' [Field ''id'' (VInt 7)]]),
      (''Handler'', MirrorOverride KindSystemError 2 []),
      (''Main'', Foreign ''fmt.wrapError'' ''main: failed'' (Some 2)),
      (''Main'', Propagate 4 ''stopped'' []),
      (''Main'', Propagate 9 ''nothing'' [])]"

theorem error_programs_typed_witness:
  "\<exists>es w'. run_calls example_program [] (init_world empty_registry (\<lambda>_. [])) = (Ret es, w')
    \<and> map (\<lambda>e. case e of None \<Rightarrow> None | Some x \<Rightarrow> error_kind x) es
      = [None, Some KindNotFoundError, Some KindNotFoundError, Some KindSystemError, None, Some KindError, None]"
proof -
  obtain es w' where run: "run_calls example_program [] (init_world empty_registry (\<lambda>_. [])) = (Ret es, w')"
    and t: "list_all2 (typed w') es (types_of example_program [])"
    using error_programs_typed [OF wf_init_world, of example_program] by blast
  have "types_of example_program [] = [Some Unclassified, Some (Classified KindNotFoundError),
      Some (Classified KindNotFoundError), Some (Classified KindSystemError), Some Unclassified,
      Some (Classified KindError), None]"
    by (simp add: example_program_def result_at_def)
  then show ?thesis using run t by (auto simp: list_all2_Cons2 dest: live_kind)
qed

end
