(* ===== verification/Retried.thy ===== *)
theory Retried
  imports Service Send_Props
begin

text \<open>
  What retrying costs the other side: the send loop of a client (\<open>httpclient/request.go\<close>) against a
  whole server that keeps failing, attempt by attempt.
\<close>

section \<open>A server that is asked again\<close>

text \<open>
  Each request gets a writer of its own; the rest of the site stays. The transport hands the request
  to the server, which returns, and its answer to the client.
\<close>

definition fresh_writer :: "site \<Rightarrow> site" where
  "fresh_writer s = s\<lparr>st_srv := (st_srv s)\<lparr>sv_writer := new_writer\<rparr>\<rparr>"

lemma fresh_writer_simps [simp]:
  "site_writer (fresh_writer s) = new_writer" "sv_world (st_srv (fresh_writer s)) = sv_world (st_srv s)"
  "sv_log (st_srv (fresh_writer s)) = sv_log (st_srv s)" "st_metrics (fresh_writer s) = st_metrics s"
  by (simp_all add: fresh_writer_def site_writer_def)

definition serve :: "(site, unit) act \<Rightarrow> site \<Rightarrow> http_response \<times> site" where
  "serve run s = (let t = snd (run (fresh_writer s)) in (response_of (site_writer t), t))"

fun site_after :: "(site, unit) act \<Rightarrow> site \<Rightarrow> nat \<Rightarrow> site" where
  "site_after run s 0 = s"
| "site_after run s (Suc n) = snd (serve run (site_after run s n))"

section \<open>The loop\<close>

text \<open>A request that carries no credentials and no body, to a transport that always asks for another attempt.\<close>

definition bare_request :: "client \<Rightarrow> request \<Rightarrow> bool" where
  "bare_request c r \<longleftrightarrow> cc_token (cl_config c) = None \<and> rr_basic r = None \<and> rr_token r = [] \<and> rr_body r = None"

definition keeps_failing :: "send_env \<Rightarrow> client \<Rightarrow> http_out \<Rightarrow> (nat \<Rightarrow> http_response) \<Rightarrow> bool" where
  "keeps_failing env c h resp \<longleftrightarrow>
     (\<forall>n. env_do env n h = (Some (resp n), None) \<and> env_ctx env n = None \<and> (\<forall>d. env_sleep env n d = None)
        \<and> check_retry (policy_of (cc_retry (cl_config c))) None (ho_method h) (Some (resp n)) None n = (True, None))"

lemma sent_requests_skip:
  "sent_requests (Drained x # evs) = sent_requests evs" "sent_requests (LogRetry n w # evs) = sent_requests evs"
  "sent_requests (Waited w # evs) = sent_requests evs"
  by (simp_all add: sent_requests_def)

lemma attempts_keep_failing:
  assumes "bare_request c r" and "keeps_failing env c h resp"
  shows "\<exists>evs. attempts env c r caller_set True left n h s
      = (Ret (Inr (Some (resp (n + left)))), s\<lparr>cs_events := cs_events s @ evs\<rparr>)
    \<and> sent_requests evs = replicate (Suc left) h"
proof (induction left arbitrary: n s)
  case 0
  have prep: "prepare_attempt env c r caller_set n h = ret (Inr h)"
    using assms(1) by (auto simp: prepare_attempt_def bare_request_def inject_auth_def propagate_left_def fun_eq_iff
        bind_act_def lift_w_def ret_def)
  show ?case
    using assms(2) unfolding attempts.simps [of env c r caller_set True 0] prep keeps_failing_def
    by (intro exI [of _ "[Sent h]"]) (simp add: bind_act_def ret_def emit_def finish_attempts_def)
next
  case (Suc left)
  let ?rc = "cc_retry (cl_config c)"
  have prep: "prepare_attempt env c r caller_set n h = ret (Inr h)"
    using assms(1) by (auto simp: prepare_attempt_def bare_request_def inject_auth_def propagate_left_def fun_eq_iff
        bind_act_def lift_w_def ret_def)
  define wait where "wait = backoff (policy_of ?rc) (env_until env) (env_rnd env n) (rc_min_wait ?rc) (rc_max_wait ?rc) n (Some (resp n))"
  let ?evs = "[Sent h, Drained (resp n), LogRetry (Suc n) wait, Waited wait]"
  have after: "after_attempt env ?rc (ho_method h) n (Some (resp n)) None u
      = (Ret Again, u\<lparr>cs_events := cs_events u @ [Drained (resp n), LogRetry (Suc n) wait, Waited wait]\<rparr>)" for u
    using assms(2) by (simp add: after_attempt_def keeps_failing_def bind_act_def ret_def emit_def wait_def Let_def)
  have "attempts env c r caller_set True (Suc left) n h s
      = attempts env c r caller_set True left (Suc n) h (s\<lparr>cs_events := cs_events s @ ?evs\<rparr>)"
    using assms(2) unfolding attempts.simps [of env c r caller_set True "Suc left"] prep keeps_failing_def
    by (simp add: bind_act_def ret_def emit_def after)
  moreover obtain evs where "attempts env c r caller_set True left (Suc n) h (s\<lparr>cs_events := cs_events s @ ?evs\<rparr>)
      = (Ret (Inr (Some (resp (Suc n + left)))), s\<lparr>cs_events := (cs_events s @ ?evs) @ evs\<rparr>)"
    and "sent_requests evs = replicate (Suc left) h"
    using Suc.IH [of "Suc n" "s\<lparr>cs_events := cs_events s @ ?evs\<rparr>"] by auto
  ultimately show ?case by (intro exI [of _ "?evs @ evs"]) (simp add: sent_requests_skip)
qed

section \<open>The server's side\<close>

text \<open>A route that, whatever has happened before, reports the same error.\<close>

definition always_reports :: "(rw \<Rightarrow> areq \<Rightarrow> (site, gerror option) act) \<Rightarrow> areq \<Rightarrow> gerror \<Rightarrow> bool" where
  "always_reports fn q e \<longleftrightarrow> (\<forall>w. \<exists>w1 now. reports fn q w e w1 now)"

lemma serve_failing:
  assumes fn: "always_reports fn q e" and err: "as_errort e = Some (ErrorT k m c o' a)"
    and st: "200 \<le> status_code k" "status_code k \<le> 999" and json: "\<forall>w p. json w p \<noteq> None"
    and built: "mt_built (st_metrics s) = Some True" and chi: "own_key chi"
    and route: "\<not> is_ignored_route (get_route_pattern chi q)" and req: "ar_url q \<noteq> ''/health''" "ar_method q \<noteq> ''OPTIONS''"
  shows "\<exists>resp t dur recs. serve (recommended global ul meter chi cfg (route_on json unknown fn) base_rw q) s = (resp, t)
    \<and> resp_status resp = status_code k
    \<and> st_metrics t = counted (ar_method q) (get_route_pattern chi q) (status_code k) dur (st_metrics s)
    \<and> sv_log (st_srv t) = sv_log (st_srv s) @ recs \<and> length recs = 3"
proof -
  let ?f = "fresh_writer s"
  obtain w1 now where rep: "reports fn q (sv_world (st_srv ?f)) e w1 now"
    using fn unfolding always_reports_def by blast
  have f: "wr_sent (site_writer ?f) = None" "mt_built (st_metrics ?f) = Some True"
    using built by (simp_all add: new_writer_def)
  obtain t d w2 seen h where t: "recommended global ul meter chi cfg (route_on json unknown fn) base_rw q ?f = (Ret (), t)"
    and seen: "seen = (if json w2 (PDTO (Some d)) = None then 500 else status_code k)"
    and sent: "wr_sent (site_writer t) = Some (status_code k, h)"
    and metrics: "st_metrics t = counted (ar_method q) (get_route_pattern chi q) seen (now - st_clock ?f) (st_metrics ?f)"
    and log: "\<exists>a b d. sv_log (st_srv t) = sv_log (st_srv ?f) @ [a, b, d]"
    using reported_error_run [OF rep err st f chi route req, of global ul meter cfg json unknown] by metis
  show ?thesis
    using t seen sent metrics log json
    by (intro exI [of _ "response_of (site_writer t)"] exI [of _ t]) (fastforce simp: serve_def response_of_def final_status_def)
qed

text \<open>So every request is answered with the status of the error, counted under it and logged in three lines.\<close>

definition asked_times :: "string \<Rightarrow> string \<Rightarrow> int \<Rightarrow> nat \<Rightarrow> site \<Rightarrow> site \<Rightarrow> bool" where
  "asked_times meth route code n s t \<longleftrightarrow>
     mt_built (st_metrics t) = mt_built (st_metrics s) \<and> mt_active (st_metrics t) = mt_active (st_metrics s)
     \<and> mt_requests (st_metrics t) = (mt_requests (st_metrics s))((meth, route, code) := mt_requests (st_metrics s) (meth, route, code) + n)
     \<and> (\<exists>recs. sv_log (st_srv t) = sv_log (st_srv s) @ recs \<and> length recs = 3 * n)"

lemma site_after_failing:
  assumes "always_reports fn q e" and "as_errort e = Some (ErrorT k m c o' a)"
    and "200 \<le> status_code k" "status_code k \<le> 999" and "\<forall>w p. json w p \<noteq> None"
    and built: "mt_built (st_metrics s) = Some True" and "own_key chi"
    and "\<not> is_ignored_route (get_route_pattern chi q)" and "ar_url q \<noteq> ''/health''" "ar_method q \<noteq> ''OPTIONS''"
    and run: "run = recommended global ul meter chi cfg (route_on json unknown fn) base_rw q"
  shows "asked_times (ar_method q) (get_route_pattern chi q) (status_code k) n s (site_after run s n)
    \<and> resp_status (fst (serve run (site_after run s n))) = status_code k"
proof (induction n)
  case 0
  show ?case
    using serve_failing [OF assms(1-10), of global ul meter cfg unknown] run by (auto simp: asked_times_def)
next
  case (Suc n)
  let ?s = "site_after run s n" and ?t = "site_after run s (Suc n)"
  have asked: "asked_times (ar_method q) (get_route_pattern chi q) (status_code k) n s ?s" using Suc.IH by blast
  have b: "mt_built (st_metrics ?s) = Some True" using asked built by (simp add: asked_times_def)
  obtain resp dur recs where step: "serve run ?s = (resp, ?t)"
    "st_metrics ?t = counted (ar_method q) (get_route_pattern chi q) (status_code k) dur (st_metrics ?s)"
    "sv_log (st_srv ?t) = sv_log (st_srv ?s) @ recs" "length recs = 3"
    using serve_failing [OF assms(1-5) b assms(7-10), of global ul meter cfg unknown] run by fastforce
  have "asked_times (ar_method q) (get_route_pattern chi q) (status_code k) (Suc n) s ?t"
    using asked step unfolding asked_times_def counted_def by auto
  moreover have "mt_built (st_metrics ?t) = Some True" using step(2) b by (simp add: counted_def)
  ultimately show ?case
    using serve_failing [OF assms(1-5) _ assms(7-10), of ?t global ul meter cfg unknown] run by fastforce
qed

section \<open>The two together\<close>

text \<open>
  C19: A failing route costs the server one whole request per attempt. When the route of an
  idempotent request under the recommended stack keeps reporting an error whose status asks for a
  retry (429, or 500 and above except 501), the loop of a client with the default policy sends the
  same request exactly 1 + MaxRetries times and returns the last answer, with the status of the
  error, as a response and not as an error. The server has counted each of these attempts under that
  status, has no request in flight more than before, and has logged three lines for each.
\<close>

theorem retry_amplification:
  assumes "bare_request c r" and "rr_retry r = None" and "IsIdempotent (ho_method h)"
    and "rc_enabled (cc_retry (cl_config c))" and "rc_max (cc_retry (cl_config c)) = int M" and "0 < M"
    and "rc_policy (cc_retry (cl_config c)) = None"
    and "always_reports fn q e" and "as_errort e = Some (ErrorT k m cause orig a)"
    and "status_code k = 429 \<or> 500 \<le> status_code k \<and> status_code k \<noteq> 501" and "status_code k \<le> 999"
    and "\<forall>w p. json w p \<noteq> None" and "mt_built (st_metrics s) = Some True" and "own_key chi"
    and "\<not> is_ignored_route (get_route_pattern chi q)" and "ar_url q \<noteq> ''/health''" "ar_method q \<noteq> ''OPTIONS''"
    and "run = recommended global ul meter chi cfg (route_on json unknown fn) base_rw q"
    and "\<forall>n. env_do env n h = (Some (fst (serve run (site_after run s n))), None)"
    and "\<forall>n. env_ctx env n = None \<and> (\<forall>d. env_sleep env n d = None)"
  shows "\<exists>resp evs. do_with_retry env c r h True caller_set u
      = (Ret (Inr (Some resp)), u\<lparr>cs_events := cs_events u @ evs\<rparr>)
    \<and> sent_requests evs = replicate (Suc M) h
    \<and> resp_status resp = status_code k
    \<and> asked_times (ar_method q) (get_route_pattern chi q) (status_code k) (Suc M) s (site_after run s (Suc M))"
proof -
  define resp where "resp n = fst (serve run (site_after run s n))" for n
  have low: "200 \<le> status_code k" using assms(10) by auto
  have site: "asked_times (ar_method q) (get_route_pattern chi q) (status_code k) n s (site_after run s n)"
    and status: "resp_status (resp n) = status_code k" for n
    using site_after_failing [OF assms(8,9) low assms(11-18), of n] by (simp_all add: resp_def)
  have "keeps_failing env c h resp"
    using assms(7,10,19,20) status unfolding resp_def [symmetric]
    by (auto simp: keeps_failing_def policy_of_def default_retry_policy_def default_check_retry_def)
  from attempts_keep_failing [OF assms(1) this, of caller_set M 0 u]
  obtain evs where "attempts env c r caller_set True M 0 h u = (Ret (Inr (Some (resp M))), u\<lparr>cs_events := cs_events u @ evs\<rparr>)"
    and "sent_requests evs = replicate (Suc M) h" by auto
  moreover have "can_retry (cc_retry (cl_config c)) (rr_retry r) True (ho_method h)"
    using assms(2-6) by (simp add: can_retry_def)
  ultimately show ?thesis
    using assms(5) site [of "Suc M"] status [of M]
    by (intro exI [of _ "resp M"] exI [of _ evs]) (simp add: do_with_retry_def)
qed

text \<open>A route that is overloaded, and the default client.\<close>

definition overload :: gerror where
  "overload = ErrorT (http_kind 503) ''overloaded'' None None 0"

definition overloaded_route :: "rw \<Rightarrow> areq \<Rightarrow> (site, gerror option) act" where
  "overloaded_route w q u = (Ret (Some overload), u\<lparr>st_clock := 7\<rparr>)"

definition served_env :: "(site, unit) act \<Rightarrow> site \<Rightarrow> send_env" where
  "served_env run s = flaky_env\<lparr>env_do := \<lambda>n h. (Some (fst (serve run (site_after run s n))), None)\<rparr>"

theorem retry_amplification_witness:
  "\<exists>run resp evs. do_with_retry (served_env run example_site) plain_client (client_R plain_client background)
      (plain_out ''GET'') True False start_cst = (Ret (Inr (Some resp)), start_cst\<lparr>cs_events := evs\<rparr>)
    \<and> length (sent_requests evs) = 4 \<and> resp_status resp = 503
    \<and> mt_requests (st_metrics (site_after run example_site 4)) (''GET'', ''unknown'', 503) = 4"
proof -
  let ?r = "client_R plain_client background"
  define run where "run = recommended root_logger plain_uuids (\<lambda>_. None) (\<lambda>_. None) cors_config_defaults
      (route_on (\<lambda>w p. Some ''{}'') no_answer overloaded_route) base_rw example_request"
  have bare: "bare_request plain_client ?r" "rr_retry ?r = None" by (simp_all add: bare_request_def client_R_def)
  have get: "IsIdempotent (ho_method (plain_out ''GET''))" by (simp add: IsIdempotent_def plain_out_def)
  have rc: "rc_enabled (cc_retry (cl_config plain_client))" "rc_max (cc_retry (cl_config plain_client)) = int 3"
    by (simp_all add: plain_client_def Defaults_def)
  have "u\<lparr>st_clock := 7\<rparr> = u\<lparr>st_clock := 7, st_srv := (st_srv u)\<lparr>sv_world := sv_world (st_srv u)\<rparr>\<rparr>" for u :: site
    by simp
  then have fn: "always_reports overloaded_route example_request overload"
    unfolding always_reports_def reports_def overloaded_route_def
    by (intro allI exI [of _ 7]) (metis (no_types))
  have st: "status_code (http_kind 503) = 503" by (simp add: http_kind_def HTTP_STATUS_NOT_DEFINED_def)
  have as: "as_errort overload = Some (ErrorT (http_kind 503) ''overloaded'' None None 0)" by (simp add: overload_def)
  have chi: "own_key (\<lambda>_. None)" "get_route_pattern (\<lambda>_. None) example_request = ''unknown''"
    by (simp_all add: own_key_def get_route_pattern_def)
  have s: "mt_built (st_metrics example_site) = Some True" "mt_requests (st_metrics example_site) x = 0" for x
    by (simp_all add: example_site_def)
  have q: "ar_url example_request \<noteq> ''/health''" "ar_method example_request = ''GET''"
    by (simp_all add: example_request_def)
  have env: "\<forall>n. env_do (served_env run example_site) n h = (Some (fst (serve run (site_after run example_site n))), None)"
    "\<forall>n. env_ctx (served_env run example_site) n = None \<and> (\<forall>d. env_sleep (served_env run example_site) n d = None)" for h
    by (simp_all add: served_env_def flaky_env_def)
  show ?thesis
    using retry_amplification [OF bare get rc _ _ fn as _ _ _ s(1) chi(1) _ q(1) _ run_def env, of False start_cst] st chi(2) q s
    by (auto simp: is_ignored_route_def asked_times_def start_cst_def intro!: exI [of _ run])
qed

end
