(* ===== verification/Audit_Workers.thy ===== *)
theory Audit_Workers
  imports Release_Age "HOL-Library.Multiset"
begin

text \<open>
  The goroutines of the release-age check (\<open>fetchViolations\<close> of \<open>hack/check-go-release-age/main.go\<close>):
  the caller that sends the pins over an unbuffered channel and closes it, the workers that receive,
  ask the proxy and append to two shared slices under a mutex, and the wait for all of them, as one
  step relation. The verdict of the check rests on what every run of it returns.
\<close>

section \<open>Workers and their steps\<close>

text \<open>What a lookup adds to a slice: an error, a violation, or nothing.\<close>

definition found_of :: "proxy_env \<Rightarrow> string \<Rightarrow> int \<Rightarrow> module_pin \<Rightarrow> (string + violation) option" where
  "found_of px proxy cutoff p =
     (case fetch_info px proxy p of
        Inl e \<Rightarrow> Some (Inl (pin_key p @ '': '' @ e))
      | Inr t \<Rightarrow> if cutoff < t then Some (Inr \<lparr>vi_pin = p, vi_published = t, vi_age = px_since px p t\<rparr>) else None)"

text \<open>
  A worker waits for a pin, asks the proxy for one, waits for the mutex, holds it and has yet to read
  the slice it appends to, has read it and has yet to store it back with its addition, is about to
  release the mutex, or has returned.
\<close>

datatype fetcher =
    Ready
  | Asking module_pin
  | Locking module_pin "string + violation"
  | Reading module_pin "string + violation"
  | Storing module_pin "string list + violation list"
  | Unlocking
  | Exited

record fetching =
  ft_jobs :: "module_pin list"
  ft_closed :: bool
  ft_mutex :: "nat option"
  ft_errs :: "string list"
  ft_violations :: "violation list"
  ft_workers :: "fetcher list"

definition start_fetching :: "module_pin list \<Rightarrow> int \<Rightarrow> fetching" where
  "start_fetching pins concurrency =
     \<lparr>ft_jobs = pins, ft_closed = False, ft_mutex = None, ft_errs = [], ft_violations = [],
      ft_workers = replicate (nat (if concurrency < 1 then 1 else concurrency)) Ready\<rparr>"

definition set_worker :: "nat \<Rightarrow> fetcher \<Rightarrow> fetching \<Rightarrow> fetching" where
  "set_worker i w s = s\<lparr>ft_workers := (ft_workers s)[i := w]\<rparr>"

definition worker_at :: "fetching \<Rightarrow> nat \<Rightarrow> fetcher \<Rightarrow> bool" where
  "worker_at s i w \<longleftrightarrow> i < length (ft_workers s) \<and> ft_workers s ! i = w"

text \<open>Appending is reading the slice and storing a longer one.\<close>

definition appended :: "fetching \<Rightarrow> string + violation \<Rightarrow> string list + violation list" where
  "appended s f = (case f of Inl e \<Rightarrow> Inl (ft_errs s @ [e]) | Inr v \<Rightarrow> Inr (ft_violations s @ [v]))"

definition store_slice :: "string list + violation list \<Rightarrow> fetching \<Rightarrow> fetching" where
  "store_slice sl s = (case sl of Inl es \<Rightarrow> s\<lparr>ft_errs := es\<rparr> | Inr vs \<Rightarrow> s\<lparr>ft_violations := vs\<rparr>)"

datatype fetch_event =
  Took nat | JobsClosed | Found nat | Passed nat module_pin | Locked nat | Read nat | Stored nat module_pin | Unlocked nat | Left nat

inductive fetch_step :: "proxy_env \<Rightarrow> string \<Rightarrow> int \<Rightarrow> fetching \<Rightarrow> fetch_event \<Rightarrow> fetching \<Rightarrow> bool"
  for px :: proxy_env and proxy :: string and cutoff :: int where
  take_job: "worker_at s i Ready \<Longrightarrow> ft_jobs s = p # ps \<Longrightarrow>
    fetch_step px proxy cutoff s (Took i) (set_worker i (Asking p) (s\<lparr>ft_jobs := ps\<rparr>))"
| close_jobs: "ft_jobs s = [] \<Longrightarrow> \<not> ft_closed s \<Longrightarrow> fetch_step px proxy cutoff s JobsClosed (s\<lparr>ft_closed := True\<rparr>)"
| leave: "worker_at s i Ready \<Longrightarrow> ft_closed s \<Longrightarrow> fetch_step px proxy cutoff s (Left i) (set_worker i Exited s)"
| find: "worker_at s i (Asking p) \<Longrightarrow> found_of px proxy cutoff p = Some f \<Longrightarrow>
    fetch_step px proxy cutoff s (Found i) (set_worker i (Locking p f) s)"
| pass: "worker_at s i (Asking p) \<Longrightarrow> found_of px proxy cutoff p = None \<Longrightarrow>
    fetch_step px proxy cutoff s (Passed i p) (set_worker i Ready s)"
| lock: "worker_at s i (Locking p f) \<Longrightarrow> ft_mutex s = None \<Longrightarrow>
    fetch_step px proxy cutoff s (Locked i) (set_worker i (Reading p f) (s\<lparr>ft_mutex := Some i\<rparr>))"
| read: "worker_at s i (Reading p f) \<Longrightarrow>
    fetch_step px proxy cutoff s (Read i) (set_worker i (Storing p (appended s f)) s)"
| store: "worker_at s i (Storing p sl) \<Longrightarrow>
    fetch_step px proxy cutoff s (Stored i p) (set_worker i Unlocking (store_slice sl s))"
| unlock: "worker_at s i Unlocking \<Longrightarrow>
    fetch_step px proxy cutoff s (Unlocked i) (set_worker i Ready (s\<lparr>ft_mutex := None\<rparr>))"

inductive fetch_run :: "proxy_env \<Rightarrow> string \<Rightarrow> int \<Rightarrow> fetching \<Rightarrow> fetch_event list \<Rightarrow> fetching \<Rightarrow> bool"
  for px :: proxy_env and proxy :: string and cutoff :: int where
  fetch_nil: "fetch_run px proxy cutoff s [] s"
| fetch_snoc: "fetch_run px proxy cutoff s es t \<Longrightarrow> fetch_step px proxy cutoff t e u \<Longrightarrow> fetch_run px proxy cutoff s (es @ [e]) u"

text \<open>The wait returns when the jobs are closed and every worker has returned.\<close>

definition fetch_ended :: "fetching \<Rightarrow> bool" where
  "fetch_ended s \<longleftrightarrow> ft_closed s \<and> set (ft_workers s) \<subseteq> {Exited}"

section \<open>The invariant\<close>

text \<open>The pins a run is done with, in that order: stored, or passed over.\<close>

definition finished :: "fetch_event list \<Rightarrow> module_pin list" where
  "finished es = List.map_filter (\<lambda>e. case e of Passed i p \<Rightarrow> Some p | Stored i p \<Rightarrow> Some p | _ \<Rightarrow> None) es"

fun held_pin :: "fetcher \<Rightarrow> module_pin multiset" where
  "held_pin (Asking p) = {#p#}"
| "held_pin (Locking p f) = {#p#}"
| "held_pin (Reading p f) = {#p#}"
| "held_pin (Storing p sl) = {#p#}"
| "held_pin _ = {#}"

fun critical :: "fetcher \<Rightarrow> bool" where
  "critical (Reading p f) = True"
| "critical (Storing p sl) = True"
| "critical Unlocking = True"
| "critical _ = False"

text \<open>What a worker holds agrees with the proxy and, in the critical section, with the slices.\<close>

fun worker_ok :: "(module_pin \<Rightarrow> (string + violation) option) \<Rightarrow> fetching \<Rightarrow> fetcher \<Rightarrow> bool" where
  "worker_ok found s (Locking p f) \<longleftrightarrow> found p = Some f"
| "worker_ok found s (Reading p f) \<longleftrightarrow> found p = Some f"
| "worker_ok found s (Storing p sl) \<longleftrightarrow> (\<exists>f. found p = Some f \<and> sl = appended s f)"
| "worker_ok found s Exited \<longleftrightarrow> ft_closed s"
| "worker_ok found s _ \<longleftrightarrow> True"

definition errs_of :: "(module_pin \<Rightarrow> (string + violation) option) \<Rightarrow> module_pin list \<Rightarrow> string list" where
  "errs_of found ps = List.map_filter (\<lambda>p. case found p of Some (Inl e) \<Rightarrow> Some e | _ \<Rightarrow> None) ps"

definition violations_of :: "(module_pin \<Rightarrow> (string + violation) option) \<Rightarrow> module_pin list \<Rightarrow> violation list" where
  "violations_of found ps = List.map_filter (\<lambda>p. case found p of Some (Inr v) \<Rightarrow> Some v | _ \<Rightarrow> None) ps"

definition fetch_inv :: "(module_pin \<Rightarrow> (string + violation) option) \<Rightarrow> module_pin list \<Rightarrow> module_pin list \<Rightarrow> fetching \<Rightarrow> bool" where
  "fetch_inv found pins fin s \<longleftrightarrow>
     mset pins = mset (ft_jobs s) + sum_list (map held_pin (ft_workers s)) + mset fin
   \<and> ft_errs s = errs_of found fin \<and> ft_violations s = violations_of found fin
   \<and> (\<forall>i w. worker_at s i w \<longrightarrow> worker_ok found s w \<and> (critical w \<longleftrightarrow> ft_mutex s = Some i))
   \<and> (\<forall>i. ft_mutex s = Some i \<longrightarrow> i < length (ft_workers s))
   \<and> (ft_closed s \<longrightarrow> ft_jobs s = [])"


lemma set_worker_simps [simp]:
  "ft_jobs (set_worker i w s) = ft_jobs s" "ft_closed (set_worker i w s) = ft_closed s"
  "ft_mutex (set_worker i w s) = ft_mutex s" "ft_errs (set_worker i w s) = ft_errs s"
  "ft_violations (set_worker i w s) = ft_violations s" "length (ft_workers (set_worker i w s)) = length (ft_workers s)"
  "appended (set_worker i w s) f = appended s f"
  "ft_workers (set_worker i w (s\<lparr>ft_jobs := js\<rparr>)) = ft_workers (set_worker i w s)"
  "ft_workers (set_worker i w (s\<lparr>ft_mutex := m\<rparr>)) = ft_workers (set_worker i w s)"
  by (simp_all add: set_worker_def appended_def split: sum.split)

lemma store_slice_simps [simp]:
  "ft_jobs (store_slice sl s) = ft_jobs s" "ft_closed (store_slice sl s) = ft_closed s"
  "ft_mutex (store_slice sl s) = ft_mutex s" "ft_workers (store_slice sl s) = ft_workers s"
  by (simp_all add: store_slice_def split: sum.split)

lemma worker_at_simps [simp]:
  "worker_at (s\<lparr>ft_jobs := js\<rparr>) = worker_at s" "worker_at (s\<lparr>ft_closed := c\<rparr>) = worker_at s"
  "worker_at (s\<lparr>ft_mutex := m\<rparr>) = worker_at s" "worker_at (store_slice sl s) = worker_at s"
  by (simp_all add: worker_at_def fun_eq_iff)

lemma worker_at_set:
  assumes "worker_at s i u"
  shows "worker_at (set_worker i v s) j w \<longleftrightarrow> (if j = i then w = v else worker_at s j w)"
  using assms by (auto simp: worker_at_def set_worker_def)

lemma worker_at_unique: "worker_at s i u \<Longrightarrow> worker_at s i w \<longleftrightarrow> w = u"
  by (auto simp: worker_at_def)

lemma appended_simps [simp]:
  "appended (s\<lparr>ft_jobs := js\<rparr>) = appended s" "appended (s\<lparr>ft_closed := c\<rparr>) = appended s"
  "appended (s\<lparr>ft_mutex := m\<rparr>) = appended s"
  by (simp_all add: appended_def fun_eq_iff split: sum.split)

lemma worker_ok_simps [simp]:
  "worker_ok found (set_worker i v s) w = worker_ok found s w"
  "worker_ok found (s\<lparr>ft_jobs := js\<rparr>) w = worker_ok found s w"
  "worker_ok found (s\<lparr>ft_mutex := m\<rparr>) w = worker_ok found s w"
  "worker_ok found s w \<Longrightarrow> worker_ok found (s\<lparr>ft_closed := True\<rparr>) w"
  "\<not> critical w \<Longrightarrow> worker_ok found (store_slice sl s) w = worker_ok found s w"
  by (cases w; simp)+

text \<open>A sum over the workers, with one of them replaced.\<close>

lemma workers_split:
  fixes f :: "fetcher \<Rightarrow> 'a::comm_monoid_add"
  assumes "worker_at s i w"
  shows "\<exists>r. sum_list (map f (ft_workers s)) = r + f w
    \<and> (\<forall>v. sum_list (map f (ft_workers (set_worker i v s))) = r + f v)"
proof -
  obtain a b where ws: "ft_workers s = a @ w # b" "i = length a"
    using assms id_take_nth_drop [of i "ft_workers s"] unfolding worker_at_def by (metis length_take min.absorb4)
  then show ?thesis
    by (intro exI [of _ "sum_list (map f a) + sum_list (map f b)"]) (simp add: set_worker_def ac_simps)
qed

lemma finished_snoc [simp]:
  "finished [] = []" "finished (es @ [e]) = finished es @ (case e of Passed i p \<Rightarrow> [p] | Stored i p \<Rightarrow> [p] | _ \<Rightarrow> [])"
  by (simp_all add: finished_def List.map_filter_def split: fetch_event.split)

lemma slices_snoc:
  "errs_of found (ps @ [p]) = errs_of found ps @ (case found p of Some (Inl e) \<Rightarrow> [e] | _ \<Rightarrow> [])"
  "violations_of found (ps @ [p]) = violations_of found ps @ (case found p of Some (Inr v) \<Rightarrow> [v] | _ \<Rightarrow> [])"
  by (simp_all add: errs_of_def violations_of_def List.map_filter_def split: option.split sum.split)

lemma fetch_inv_start: "fetch_inv found pins [] (start_fetching pins concurrency)"
proof -
  have "sum_list (map held_pin (replicate n Ready)) = {#}" for n by (induction n) simp_all
  then show ?thesis
    by (auto simp: fetch_inv_def start_fetching_def errs_of_def violations_of_def List.map_filter_def worker_at_def)
qed

lemma fetch_inv_worker:
  "fetch_inv found pins fin s \<Longrightarrow> worker_at s i w \<Longrightarrow> worker_ok found s w \<and> (critical w \<longleftrightarrow> ft_mutex s = Some i)"
  by (simp add: fetch_inv_def)

lemma fetch_inv_step:
  assumes "fetch_step px proxy cutoff s e t" and "fetch_inv (found_of px proxy cutoff) pins (finished es) s"
  shows "fetch_inv (found_of px proxy cutoff) pins (finished (es @ [e])) t
    \<and> length (ft_workers t) = length (ft_workers s)"
  using assms
proof (induction rule: fetch_step.induct)
  case (take_job s i p ps)
  then show ?case using workers_split [OF take_job(1), of held_pin] fetch_inv_worker [OF take_job(3,1)]
    by (auto simp: fetch_inv_def worker_at_set worker_at_unique ac_simps)
next
  case (close_jobs s)
  then show ?case by (auto simp: fetch_inv_def)
next
  case (leave s i)
  then show ?case using workers_split [OF leave(1), of held_pin] fetch_inv_worker [OF leave(3,1)]
    by (auto simp: fetch_inv_def worker_at_set worker_at_unique)
next
  case (find s i p f)
  then show ?case using workers_split [OF find(1), of held_pin] fetch_inv_worker [OF find(3,1)]
    by (auto simp: fetch_inv_def worker_at_set worker_at_unique)
next
  case (pass s i p)
  then show ?case using workers_split [OF pass(1), of held_pin] fetch_inv_worker [OF pass(3,1)]
    by (auto simp: fetch_inv_def worker_at_set worker_at_unique slices_snoc)
next
  case (lock s i p f)
  then show ?case using workers_split [OF lock(1), of held_pin] fetch_inv_worker [OF lock(3,1)]
      worker_at_def [of s i]
    by (auto simp: fetch_inv_def worker_at_set worker_at_unique)
next
  case (read s i p f)
  then show ?case using workers_split [OF read(1), of held_pin] fetch_inv_worker [OF read(2,1)]
    by (auto simp: fetch_inv_def worker_at_set worker_at_unique)
next
  case (store s i p sl)
  note inv = store(2) and here = fetch_inv_worker [OF store(2,1)]
  then obtain f where f: "found_of px proxy cutoff p = Some f" "sl = appended s f" by auto
  obtain r where r: "sum_list (map held_pin (ft_workers s)) = r + {#p#}"
    "sum_list (map held_pin (ft_workers (set_worker i Unlocking (store_slice sl s)))) = r"
    using workers_split [of "store_slice sl s" i "Storing p sl" held_pin] store(1) by auto
  have ok: "worker_ok (found_of px proxy cutoff) (store_slice sl s) w \<and> (critical w \<longleftrightarrow> ft_mutex s = Some j)"
    if "worker_at s j w" "j \<noteq> i" for j w
    using fetch_inv_worker [OF inv that(1)] here that(2) by auto
  have slices: "ft_errs (store_slice sl s) = errs_of (found_of px proxy cutoff) (finished es @ [p])"
    "ft_violations (store_slice sl s) = violations_of (found_of px proxy cutoff) (finished es @ [p])"
    using inv f by (simp_all add: slices_snoc store_slice_def appended_def fetch_inv_def split: sum.split)
  have "mset pins = mset (ft_jobs s) + sum_list (map held_pin (ft_workers (set_worker i Unlocking (store_slice sl s))))
      + mset (finished es @ [p])"
    using inv r by (simp add: fetch_inv_def)
  then show ?case
    using ok slices inv here store(1) by (simp add: fetch_inv_def worker_at_set)
next
  case (unlock s i)
  then show ?case using workers_split [OF unlock(1), of held_pin] fetch_inv_worker [OF unlock(2,1)]
    by (auto simp: fetch_inv_def worker_at_set worker_at_unique)
qed

lemma fetch_inv_run:
  assumes "fetch_run px proxy cutoff s es t" and "fetch_inv (found_of px proxy cutoff) pins [] s"
  shows "fetch_inv (found_of px proxy cutoff) pins (finished es) t \<and> length (ft_workers t) = length (ft_workers s)"
  using assms
proof (induction rule: fetch_run.induct)
  case (fetch_snoc s es t e u)
  then show ?case using fetch_inv_step by metis
qed simp

section \<open>Progress\<close>

fun fetcher_work :: "fetcher \<Rightarrow> nat" where
  "fetcher_work Exited = 0"
| "fetcher_work Ready = 1"
| "fetcher_work Unlocking = 3"
| "fetcher_work (Storing p sl) = 4"
| "fetcher_work (Reading p f) = 5"
| "fetcher_work (Locking p f) = 6"
| "fetcher_work (Asking p) = 7"

definition steps_left :: "fetching \<Rightarrow> nat" where
  "steps_left s = 8 * length (ft_jobs s) + (if ft_closed s then 0 else 1) + sum_list (map fetcher_work (ft_workers s))"

lemma step_work: "fetch_step px proxy cutoff s e t \<Longrightarrow> steps_left t < steps_left s"
proof (induction rule: fetch_step.induct)
  case (take_job s i p ps)
  then show ?case using workers_split [OF take_job(1), of fetcher_work] by (auto simp: steps_left_def)
next
  case (leave s i)
  then show ?case using workers_split [OF leave(1), of fetcher_work] by (auto simp: steps_left_def)
next
  case (find s i p f)
  then show ?case using workers_split [OF find(1), of fetcher_work] by (auto simp: steps_left_def)
next
  case (pass s i p)
  then show ?case using workers_split [OF pass(1), of fetcher_work] by (auto simp: steps_left_def)
next
  case (lock s i p f)
  then show ?case using workers_split [OF lock(1), of fetcher_work] by (auto simp: steps_left_def)
next
  case (read s i p f)
  then show ?case using workers_split [OF read(1), of fetcher_work] by (auto simp: steps_left_def)
next
  case (store s i p sl)
  then show ?case using workers_split [of "store_slice sl s" i "Storing p sl" fetcher_work] by (auto simp: steps_left_def)
next
  case (unlock s i)
  then show ?case using workers_split [OF unlock(1), of fetcher_work] by (auto simp: steps_left_def)
qed (simp add: steps_left_def)

lemma run_work: "fetch_run px proxy cutoff s es t \<Longrightarrow> length es + steps_left t \<le> steps_left s"
  by (induction rule: fetch_run.induct) (auto dest: step_work)

text \<open>A worker that has not returned can go on, or another one can, or the caller.\<close>

lemma worker_moves:
  assumes inv: "fetch_inv (found_of px proxy cutoff) pins fin s" and w: "worker_at s i w" "w \<noteq> Exited"
  shows "\<exists>e t. fetch_step px proxy cutoff s e t"
proof (cases w)
  case Ready
  then show ?thesis using w(1) by (cases "ft_jobs s"; cases "ft_closed s") (metis fetch_step.intros(1-3))+
next
  case (Asking p)
  then show ?thesis using w(1) by (cases "found_of px proxy cutoff p") (metis fetch_step.intros(4,5))+
next
  case (Locking p f)
  show ?thesis
  proof (cases "ft_mutex s")
    case None
    then show ?thesis using w(1) Locking by (metis fetch_step.intros(6))
  next
    case (Some j)
    then have v: "worker_at s j (ft_workers s ! j)" using inv by (simp add: fetch_inv_def worker_at_def)
    then have "critical (ft_workers s ! j)" using fetch_inv_worker [OF inv] Some by blast
    then show ?thesis using v by (cases "ft_workers s ! j") (simp_all, (metis fetch_step.intros(7-9))+)
  qed
next
  case (Reading p f)
  then show ?thesis using w(1) by (metis fetch_step.read)
next
  case (Storing p sl)
  then show ?thesis using w(1) by (metis fetch_step.store)
next
  case Unlocking
  then show ?thesis using w(1) by (metis fetch_step.unlock)
qed (use w(2) in simp)


lemma stuck_ended:
  assumes "fetch_inv (found_of px proxy cutoff) pins fin s" and "ft_workers s \<noteq> []"
    and "\<nexists>e t. fetch_step px proxy cutoff s e t"
  shows "fetch_ended s"
proof -
  have at: "worker_at s i (ft_workers s ! i)" if "i < length (ft_workers s)" for i
    using that by (simp add: worker_at_def)
  have all: "ft_workers s ! i = Exited" if "i < length (ft_workers s)" for i
    using worker_moves [OF assms(1) at [OF that]] assms(3) by blast
  have "0 < length (ft_workers s)" using assms(2) by simp
  then have "ft_closed s" using fetch_inv_worker [OF assms(1) at] all by fastforce
  then show ?thesis using all by (auto simp: fetch_ended_def in_set_conv_nth)
qed

lemma ended_worker: "fetch_ended s \<Longrightarrow> worker_at s i w \<Longrightarrow> w = Exited"
  using nth_mem [of i "ft_workers s"] by (auto simp: fetch_ended_def worker_at_def)

lemma ended_stuck: "fetch_ended s \<Longrightarrow> \<not> fetch_step px proxy cutoff s e t"
  by (auto elim!: fetch_step.cases dest: ended_worker) (simp add: fetch_ended_def)

lemma map_filter_map: "List.map_filter f (map g xs) = List.map_filter (f \<circ> g) xs"
  by (induction xs) (simp_all add: map_filter_simps split: option.split)

lemma ended_slices:
  assumes "fetch_inv (found_of px proxy cutoff) pins fin s" and "fetch_ended s"
  shows "mset fin = mset pins"
    and "fetch_violations (\<lambda>_ _. fin) px pins proxy cutoff concurrency = (ft_violations s, ft_errs s)"
proof -
  have "sum_list (map held_pin ws) = {#}" if "set ws \<subseteq> {Exited}" for ws
    using that by (induction ws) auto
  then show "mset fin = mset pins" using assms by (simp add: fetch_inv_def fetch_ended_def)
  have e: "(case found_of px proxy cutoff p of Some (Inl e) \<Rightarrow> Some e | _ \<Rightarrow> None)
      = (case fetch_info px proxy p of Inl e \<Rightarrow> Some (pin_key p @ '': '' @ e) | Inr _ \<Rightarrow> None)"
    and v: "(case found_of px proxy cutoff p of Some (Inr v) \<Rightarrow> Some v | _ \<Rightarrow> None)
      = (case fetch_info px proxy p of Inl _ \<Rightarrow> None
         | Inr t \<Rightarrow> if cutoff < t then Some \<lparr>vi_pin = p, vi_published = t, vi_age = px_since px p t\<rparr> else None)" for p
    by (simp_all add: found_of_def split: sum.split)
  show "fetch_violations (\<lambda>_ _. fin) px pins proxy cutoff concurrency = (ft_violations s, ft_errs s)"
    using assms(1) unfolding fetch_inv_def
    by (simp only: fetch_violations_def Let_def map_filter_map comp_def prod.case errs_of_def violations_of_def e v)
qed

lemma started_run:
  assumes "fetch_run px proxy cutoff (start_fetching pins concurrency) es s"
  shows "fetch_inv (found_of px proxy cutoff) pins (finished es) s" and "ft_workers s \<noteq> []"
  using fetch_inv_run [OF assms fetch_inv_start] by (auto simp: start_fetching_def split: if_splits)

text \<open>
  C22: Asking the proxy in parallel loses nothing. In every run of \<open>fetchViolations\<close>, for any number of
  pins and any concurrency asked for, at most one worker is between the lock and the unlock; the run
  makes at most eight steps for each pin, one for each worker and one more, and can go on until every
  worker has returned. Then each pin was finished once, and the two slices hold exactly what asking
  the pins one by one, in the order they were finished, would have put into them.
\<close>

theorem workers_find_everything:
  assumes "fetch_run px proxy cutoff (start_fetching pins concurrency) es s"
  shows "(\<forall>i j v w. worker_at s i v \<and> critical v \<and> worker_at s j w \<and> critical w \<longrightarrow> i = j)
    \<and> length es \<le> 8 * length pins + nat (max 1 concurrency) + 1
    \<and> ((\<exists>e t. fetch_step px proxy cutoff s e t) \<longleftrightarrow> \<not> fetch_ended s)
    \<and> (fetch_ended s \<longrightarrow> mset (finished es) = mset pins
        \<and> fetch_violations (\<lambda>_ _. finished es) px pins proxy cutoff concurrency = (ft_violations s, ft_errs s))"
proof (intro conjI)
  note inv = started_run(1) [OF assms]
  show "\<forall>i j v w. worker_at s i v \<and> critical v \<and> worker_at s j w \<and> critical w \<longrightarrow> i = j"
    using fetch_inv_worker [OF inv] by fastforce
  have "sum_list (map fetcher_work (replicate n Ready)) = n" for n by (induction n) simp_all
  then show "length es \<le> 8 * length pins + nat (max 1 concurrency) + 1"
    using run_work [OF assms] by (auto simp: steps_left_def start_fetching_def max_def split: if_splits)
  show "(\<exists>e t. fetch_step px proxy cutoff s e t) \<longleftrightarrow> \<not> fetch_ended s"
    using stuck_ended [OF inv started_run(2) [OF assms]] ended_stuck by blast
  show "fetch_ended s \<longrightarrow> mset (finished es) = mset pins
      \<and> fetch_violations (\<lambda>_ _. finished es) px pins proxy cutoff concurrency = (ft_violations s, ft_errs s)"
    using ended_slices [OF inv] by blast
qed


section \<open>One worker alone\<close>

text \<open>A run in which the first worker does everything, in the order of the pins, and the others leave.\<close>

lemma fetch_run_append:
  "fetch_run px proxy cutoff t fs u \<Longrightarrow> fetch_run px proxy cutoff s es t \<Longrightarrow> fetch_run px proxy cutoff s (es @ fs) u"
proof (induction rule: fetch_run.induct)
  case (fetch_snoc t fs u f v)
  from fetch_run.fetch_snoc [OF fetch_snoc.IH [OF fetch_snoc.prems] fetch_snoc.hyps(2)] show ?case by simp
qed simp

lemma fetch_run_cons: "fetch_step px proxy cutoff s e t \<Longrightarrow> fetch_run px proxy cutoff t es u \<Longrightarrow> fetch_run px proxy cutoff s (e # es) u"
  using fetch_run_append [of px proxy cutoff t es u s "[e]"] fetch_run.fetch_snoc [OF fetch_run.fetch_nil] by fastforce

lemma finished_append: "finished (es @ fs) = finished es @ finished fs"
  by (simp add: finished_def List.map_filter_def)

definition resting :: "fetching \<Rightarrow> nat \<Rightarrow> bool" where
  "resting s n \<longleftrightarrow> ft_workers s = replicate (Suc n) Ready \<and> \<not> ft_closed s \<and> ft_mutex s = None"

lemma one_pin:
  assumes "resting s n" and "ft_jobs s = p # ps"
  shows "\<exists>es t. fetch_run px proxy cutoff s es t \<and> finished es = [p] \<and> resting t n \<and> ft_jobs t = ps"
proof -
  let ?s1 = "set_worker 0 (Asking p) (s\<lparr>ft_jobs := ps\<rparr>)"
  have ready: "worker_at s 0 Ready" using assms(1) by (simp add: resting_def worker_at_def)
  note take1 = fetch_step.take_job [OF ready assms(2), of px proxy cutoff]
  have at1: "worker_at ?s1 0 (Asking p)" using ready by (simp add: worker_at_set)
  show ?thesis
  proof (cases "found_of px proxy cutoff p")
    case None
    let ?s2 = "set_worker 0 Ready ?s1"
    have "fetch_run px proxy cutoff s [Took 0, Passed 0 p] ?s2"
      using fetch_run_cons [OF take1 fetch_run_cons [OF fetch_step.pass [OF at1 None] fetch_run.fetch_nil]] .
    moreover have "finished [Took 0, Passed 0 p] = [p]" by (simp add: finished_def List.map_filter_def)
    moreover have "resting ?s2 n" "ft_jobs ?s2 = ps" using assms(1) by (simp_all add: resting_def set_worker_def)
    ultimately show ?thesis by blast
  next
    case (Some f)
    let ?s2 = "set_worker 0 (Locking p f) ?s1"
    let ?s3 = "set_worker 0 (Reading p f) (?s2\<lparr>ft_mutex := Some 0\<rparr>)"
    let ?sl = "appended ?s3 f"
    let ?s4 = "set_worker 0 (Storing p ?sl) ?s3"
    let ?s5 = "set_worker 0 Unlocking (store_slice ?sl ?s4)"
    let ?s6 = "set_worker 0 Ready (?s5\<lparr>ft_mutex := None\<rparr>)"
    let ?es = "[Took 0, Found 0, Locked 0, Read 0, Stored 0 p, Unlocked 0]"
    have len: "0 < length (ft_workers s)" using assms(1) by (simp add: resting_def)
    have at: "worker_at ?s2 0 (Locking p f)" "worker_at ?s3 0 (Reading p f)" "worker_at ?s4 0 (Storing p ?sl)"
      "worker_at ?s5 0 Unlocking"
      using len by (simp_all add: worker_at_def set_worker_def)
    have free: "ft_mutex ?s2 = None" using assms(1) by (simp add: resting_def)
    have "fetch_run px proxy cutoff s ?es ?s6"
      using fetch_run_cons [OF take1 fetch_run_cons [OF fetch_step.find [OF at1 Some]
        fetch_run_cons [OF fetch_step.lock [OF at(1) free] fetch_run_cons [OF fetch_step.read [OF at(2)]
        fetch_run_cons [OF fetch_step.store [OF at(3)] fetch_run_cons [OF fetch_step.unlock [OF at(4)]
        fetch_run.fetch_nil]]]]]] .
    moreover have "finished ?es = [p]" by (simp add: finished_def List.map_filter_def)
    moreover have "resting ?s6 n" "ft_jobs ?s6 = ps"
      using assms(1) by (simp_all add: resting_def) (simp add: set_worker_def)
    ultimately show ?thesis by blast
  qed
qed

lemma leave_all:
  "ft_closed s \<Longrightarrow> ft_workers s = replicate k Exited @ replicate n Ready \<Longrightarrow>
   \<exists>es t. fetch_run px proxy cutoff s es t \<and> finished es = [] \<and> fetch_ended t"
proof (induction n arbitrary: k s)
  case 0
  then have "fetch_ended s" by (auto simp: fetch_ended_def)
  then show ?case using fetch_run.fetch_nil [of px proxy cutoff s] finished_snoc(1) by blast
next
  case (Suc n)
  let ?s = "set_worker k Exited s"
  have "worker_at s k Ready" using Suc.prems(2) by (simp add: worker_at_def nth_append)
  note step = fetch_step.leave [OF this Suc.prems(1), of px proxy cutoff]
  have "ft_workers ?s = replicate (Suc k) Exited @ replicate n Ready"
    using Suc.prems(2) by (simp add: set_worker_def list_update_append replicate_app_Cons_same)
  then obtain es t where "fetch_run px proxy cutoff ?s es t" "finished es = []" "fetch_ended t"
    using Suc.IH [of ?s "Suc k"] Suc.prems(1) by auto
  then show ?case
    using fetch_run_cons [OF step] by (intro exI [of _ "fetch_event.Left k # es"] exI [of _ t]) (simp add: finished_def map_filter_simps)
qed

lemma all_pins:
  "resting s n \<Longrightarrow> \<exists>es t. fetch_run px proxy cutoff s es t \<and> fetch_ended t \<and> finished es = ft_jobs s"
proof (induction "ft_jobs s" arbitrary: s)
  case Nil
  then have step: "fetch_step px proxy cutoff s JobsClosed (s\<lparr>ft_closed := True\<rparr>)"
    by (simp add: fetch_step.close_jobs resting_def)
  obtain es t where "fetch_run px proxy cutoff (s\<lparr>ft_closed := True\<rparr>) es t" "finished es = []" "fetch_ended t"
    using leave_all [of "s\<lparr>ft_closed := True\<rparr>" 0 "Suc n" px proxy cutoff] Nil.prems by (auto simp: resting_def)
  then show ?case
    using fetch_run_cons [OF step] Nil.hyps
    by (intro exI [of _ "JobsClosed # es"] exI [of _ t]) (simp add: finished_def map_filter_simps)
next
  case (Cons p ps)
  obtain es t where t: "fetch_run px proxy cutoff s es t" "finished es = [p]" "resting t n" "ft_jobs t = ps"
    using one_pin [OF Cons.prems Cons.hyps(2) [symmetric]] by blast
  then obtain fs u where "fetch_run px proxy cutoff t fs u" "fetch_ended u" "finished fs = ps"
    using Cons.hyps(1) [OF t(4) [symmetric]] by auto
  then show ?case
    using fetch_run_append [OF _ t(1)] t(2) Cons.hyps(2) [symmetric] finished_append by fastforce
qed

lemma sequential_run:
  "\<exists>es s. fetch_run px proxy cutoff (start_fetching pins concurrency) es s \<and> fetch_ended s \<and> finished es = pins"
proof -
  have "resting (start_fetching pins concurrency) (nat (if concurrency < 1 then 1 else concurrency) - 1)"
    by (auto simp: resting_def start_fetching_def simp flip: replicate_Suc)
  from all_pins [OF this, of px proxy cutoff] show ?thesis by (simp add: start_fetching_def)
qed

text \<open>Two pins that the proxy does not know, asked for by two workers: both errors are found.\<close>

definition down :: proxy_env where
  "down = \<lparr>px_get = (\<lambda>_. Inl ''down''), px_json = (\<lambda>_. Inl []), px_since = (\<lambda>_ _. 0)\<rparr>"

theorem workers_find_everything_witness:
  "\<exists>es s. fetch_run down ''https://p'' 0 (start_fetching [\<lparr>mp_module = ''m'', mp_version = ''v1''\<rparr>,
      \<lparr>mp_module = ''n'', mp_version = ''v2''\<rparr>] 2) es s
    \<and> fetch_ended s \<and> ft_errs s = [''m@v1: down'', ''n@v2: down'']"
proof -
  let ?pins = "[\<lparr>mp_module = ''m'', mp_version = ''v1''\<rparr>, \<lparr>mp_module = ''n'', mp_version = ''v2''\<rparr>]"
  obtain es s where run: "fetch_run down ''https://p'' 0 (start_fetching ?pins 2) es s" "fetch_ended s" "finished es = ?pins"
    using sequential_run [where px = down] by blast
  have "fetch_info down ''https://p'' p = Inl ''down''" for p by (simp add: fetch_info_def down_def)
  then show ?thesis
    using run workers_find_everything [OF run(1)]
    by (auto simp: fetch_violations_def List.map_filter_def pin_key_def)
qed

section \<open>The verdict\<close>

text \<open>An order in which some run of the workers finishes the pins.\<close>

definition may_finish :: "proxy_env \<Rightarrow> string \<Rightarrow> int \<Rightarrow> module_pin list \<Rightarrow> int \<Rightarrow> module_pin list \<Rightarrow> bool" where
  "may_finish px proxy cutoff pins concurrency order \<longleftrightarrow>
     (\<exists>es s. fetch_run px proxy cutoff (start_fetching pins concurrency) es s \<and> fetch_ended s \<and> finished es = order)"

lemma may_finish_perm: "may_finish px proxy cutoff pins concurrency order \<Longrightarrow> mset order = mset pins"
  using ended_slices(1) started_run(1) unfolding may_finish_def by blast

text \<open>
  C28: The verdict of the audit is the policy. Whatever run the workers make, and when
  no module of go.sum has an at sign in its path, the check exits with 0 exactly when the
  allowlist could be read and every pin of every line is excused by an unexpired entry or was
  published at least the minimum age ago by the proxy's word, and with 1 exactly when every pin not
  excused could be looked up and one of them is younger; so any failure to look one up is neither.
\<close>

theorem audit_verdict:
  assumes "\<forall>pins. may_finish (au_proxy lib) proxy (now - min_age) pins concurrency
      (au_order lib (nat (if concurrency < 1 then 1 else concurrency)) pins)"
    and "af_go_sum files = Inr s" and "scan_lines s = Inr ls"
    and "\<forall>p\<in>set (List.map_filter pin_of ls). CHR ''@'' \<notin> set (mp_module p)"
    and "load_allowlist (au_yaml lib) (au_date lib) (au_quote lib) now0 (af_allowlist files) = Inr (allow, warnings)"
  shows "(exit_code (run_audit lib files path proxy min_age concurrency now0 now) = 0 \<longleftrightarrow>
      (\<forall>p\<in>set (List.map_filter pin_of ls). excused (au_date lib) allow p now
         \<or> (\<exists>t. fetch_info (au_proxy lib) proxy p = Inr t \<and> t \<le> now - min_age)))
    \<and> (exit_code (run_audit lib files path proxy min_age concurrency now0 now) = 1 \<longleftrightarrow>
      (\<forall>p\<in>set (List.map_filter pin_of ls). excused (au_date lib) allow p now
         \<or> (\<exists>t. fetch_info (au_proxy lib) proxy p = Inr t))
      \<and> (\<exists>p\<in>set (List.map_filter pin_of ls). \<exists>t. \<not> excused (au_date lib) allow p now
         \<and> fetch_info (au_proxy lib) proxy p = Inr t \<and> now - min_age < t))"
proof -
  let ?pins = "collect_pins ls {} []" and ?m = "\<lambda>p. matches (au_date lib) allow p now"
  obtain vs errs where f: "fetch_violations (au_order lib) (au_proxy lib) (filter (\<lambda>p. \<not> ?m p) ?pins) proxy
      (now - min_age) concurrency = (vs, errs)" by fastforce
  have run: "run_audit lib files path proxy min_age concurrency now0 now =
      (if errs \<noteq> [] then AuditError ''lookup errors prevented a complete audit''
       else if vs = [] then AllOld else Violations (sort_key vi_age vs))"
    using f by (simp add: run_audit_def parse_go_sum_def assms(2,3,5))
  have set: "set (filter (\<lambda>p. \<not> ?m p) ?pins) = {p \<in> set (List.map_filter pin_of ls). \<not> ?m p}"
    using collect_pins_set [OF assms(4)] by auto
  note perm = may_finish_perm [OF assms(1) [rule_format]]
  note e = fetched(1) [OF perm f, unfolded set] and v = fetched(2) [OF perm f, unfolded set]
  have "exit_code (run_audit lib files path proxy min_age concurrency now0 now) = 0 \<longleftrightarrow> errs = [] \<and> vs = []"
    and "exit_code (run_audit lib files path proxy min_age concurrency now0 now) = 1 \<longleftrightarrow> errs = [] \<and> vs \<noteq> []"
    by (simp_all add: run)
  then show ?thesis unfolding e v matches_iff by (fastforce simp: not_le)
qed

theorem audit_verdict_witness:
  "exit_code (run_audit example_lib \<lparr>af_go_sum = Inr example_go_sum, af_allowlist = NoFile\<rparr> ''go.sum'' ''https://p'' 7 3
     90 100) = 0"
proof -
  let ?f = "\<lparr>af_go_sum = Inr example_go_sum, af_allowlist = NoFile\<rparr>"
  have order: "\<forall>pins. may_finish (au_proxy example_lib) ''https://p'' (100 - 7) pins 3
      (au_order example_lib (nat (if (3::int) < 1 then 1 else 3)) pins)"
    using sequential_run by (simp add: may_finish_def example_lib_def)
  have gosum: "af_go_sum ?f = Inr example_go_sum" by simp
  have at: "\<forall>p\<in>set (List.map_filter pin_of [''m v1 h1'', ''m v1/go.mod h2'']). CHR ''@'' \<notin> set (mp_module p)"
    unfolding example_lines by simp
  have load: "load_allowlist (au_yaml example_lib) (au_date example_lib) (au_quote example_lib) 90 (af_allowlist ?f)
      = Inr ([], [])" by (simp add: load_allowlist_def)
  have "fetch_info (au_proxy example_lib) q p = Inr 5" for q p by (simp add: fetch_info_def example_lib_def)
  then show ?thesis
    using conjunct1 [OF audit_verdict [OF order gosum example_lines(1) at load, of "''go.sum''"]]
    by (simp add: example_lines)
qed


end
