(* ===== verification/Upload.thy ===== *)
theory Upload
  imports Client "HOL-Library.Sublist"
begin

text \<open>
  A multipart body on its way (\<open>httpclient/body.go\<close>): \<open>body()\<close> starts a goroutine that writes the parts
  into one end of an \<open>io.Pipe\<close>, and the transport reads the other end, or closes it before it has read
  everything. The pipe is a step relation; what the goroutine writes comes from \<open>writeMultipart\<close>.
\<close>

section \<open>What is written\<close>

text \<open>
  The \<open>multipart.Writer\<close> of the standard library over a writer \<open>put\<close>: one write for the header of a
  part, one for the value of a field and one for the closing boundary. The text of the headers, the
  boundary, and how a file's reader cuts its content into chunks and fails, are arguments.
\<close>

record mime_lib =
  mm_header :: "bool \<Rightarrow> string \<Rightarrow> string option \<Rightarrow> string"
  mm_trailer :: string
  mm_chunks :: "string \<Rightarrow> string list \<times> gerror option"

fun put_all :: "(string \<Rightarrow> 's \<Rightarrow> gerror option \<times> 's) \<Rightarrow> string list \<Rightarrow> gerror option \<Rightarrow> 's \<Rightarrow> gerror option \<times> 's" where
  "put_all put [] err s = (err, s)"
| "put_all put (c # cs) err s = (case put c s of (None, s') \<Rightarrow> put_all put cs err s' | (Some e, s') \<Rightarrow> (Some e, s'))"

definition mime_writer :: "mime_lib \<Rightarrow> (string \<Rightarrow> 's \<Rightarrow> gerror option \<times> 's) \<Rightarrow> (bool \<times> 's) multipart_writer" where
  "mime_writer mm put =
     \<lparr>mw_create_form_file = (\<lambda>field filename (first, s).
        map_prod id (Pair False) (put (mm_header mm first field (Some filename)) s)),
      mw_copy = (\<lambda>content (first, s). map_prod id (Pair first) (put_all put (fst (mm_chunks mm content)) (snd (mm_chunks mm content)) s)),
      mw_write_field = (\<lambda>field v (first, s). map_prod id (Pair False) (put_all put [mm_header mm first field None, v] None s)),
      mw_close = (\<lambda>(first, s). map_prod id (Pair first) (put (mm_trailer mm) s))\<rparr>"

text \<open>A writer that takes everything, and one that is closed after a number of writes.\<close>

definition ErrClosedPipe :: gerror where
  "ErrClosedPipe = ForeignErr ''*errors.errorString'' ''io: read/write on closed pipe'' None None"

definition keep :: "string \<Rightarrow> string list \<Rightarrow> gerror option \<times> string list" where
  "keep c cs = (None, cs @ [c])"

definition cut :: "nat \<Rightarrow> string \<Rightarrow> string list \<Rightarrow> gerror option \<times> string list" where
  "cut n c cs = (if length cs < n then (None, cs @ [c]) else (Some ErrClosedPipe, cs))"

definition upload_result :: "mime_lib \<Rightarrow> multipart_field list \<Rightarrow> gerror option" where
  "upload_result mm fs = fst (write_multipart (mime_writer mm keep) fs (True, []))"

definition upload_chunks :: "mime_lib \<Rightarrow> multipart_field list \<Rightarrow> string list" where
  "upload_chunks mm fs = snd (snd (write_multipart (mime_writer mm keep) fs (True, [])))"

text \<open>Running a writer that is cut off is running the one that is not, up to the cut.\<close>

definition agrees :: "nat \<Rightarrow> string list \<Rightarrow> gerror option \<times> bool \<times> string list \<Rightarrow> gerror option \<times> bool \<times> string list \<Rightarrow> bool" where
  "agrees n cs p q \<longleftrightarrow> (\<exists>ds. snd (snd p) = cs @ ds \<and>
     (if length (cs @ ds) \<le> n then q = p else fst q = Some ErrClosedPipe \<and> snd (snd q) = take n (cs @ ds)))"

lemma put_all_keep: "put_all keep ds err cs = (err, cs @ ds)"
  by (induction ds arbitrary: cs) (simp_all add: keep_def)

lemma put_all_cut:
  "length cs \<le> n \<Longrightarrow> put_all (cut n) ds err cs =
     (if length (cs @ ds) \<le> n then (err, cs @ ds) else (Some ErrClosedPipe, take n (cs @ ds)))"
  by (induction ds arbitrary: cs) (auto simp: cut_def)

lemma keep_calls:
  "mw_create_form_file (mime_writer mm keep) field filename (b, cs) = (None, False, cs @ [mm_header mm b field (Some filename)])"
  "mw_copy (mime_writer mm keep) content (b, cs) = (snd (mm_chunks mm content), b, cs @ fst (mm_chunks mm content))"
  "mw_write_field (mime_writer mm keep) field v (b, cs) = (None, False, cs @ [mm_header mm b field None, v])"
  "mw_close (mime_writer mm keep) (b, cs) = (None, b, cs @ [mm_trailer mm])"
  by (simp_all add: mime_writer_def put_all_keep del: put_all.simps) (simp_all add: keep_def)

lemma cut_calls:
  assumes "length cs \<le> n"
  shows "mw_create_form_file (mime_writer mm (cut n)) field filename (b, cs) =
      (if length cs < n then (None, False, cs @ [mm_header mm b field (Some filename)]) else (Some ErrClosedPipe, False, cs))"
    and "mw_copy (mime_writer mm (cut n)) content (b, cs) =
      (if length (cs @ fst (mm_chunks mm content)) \<le> n then (snd (mm_chunks mm content), b, cs @ fst (mm_chunks mm content))
       else (Some ErrClosedPipe, b, take n (cs @ fst (mm_chunks mm content))))"
    and "mw_write_field (mime_writer mm (cut n)) field v (b, cs) =
      (if length (cs @ [mm_header mm b field None, v]) \<le> n then (None, False, cs @ [mm_header mm b field None, v])
       else (Some ErrClosedPipe, False, take n (cs @ [mm_header mm b field None, v])))"
    and "mw_close (mime_writer mm (cut n)) (b, cs) =
      (if length cs < n then (None, b, cs @ [mm_trailer mm]) else (Some ErrClosedPipe, b, cs))"
  using put_all_cut [OF assms] by (simp_all add: mime_writer_def del: put_all.simps) (simp_all add: cut_def)

lemma keep_extends: "\<exists>ds. snd (snd (write_multipart (mime_writer mm keep) fs (b, cs))) = cs @ ds"
proof (induction fs arbitrary: b cs)
  case Nil
  then show ?case by (simp add: keep_calls)
next
  case (Cons f fs)
  have "\<exists>ds. snd (snd (write_multipart (mime_writer mm keep) fs (b', cs @ xs))) = cs @ ds" for b' xs
    using Cons [of b' "cs @ xs"] by auto
  then show ?case
    by (simp add: keep_calls split: option.split)
qed

lemma write_multipart_cut:
  "length cs \<le> n \<Longrightarrow>
   agrees n cs (write_multipart (mime_writer mm keep) fs (b, cs)) (write_multipart (mime_writer mm (cut n)) fs (b, cs))"
proof (induction fs arbitrary: b cs)
  case Nil
  then show ?case by (auto simp: agrees_def keep_calls cut_calls)
next
  case (Cons f fs)
  let ?keep = "write_multipart (mime_writer mm keep)"
  have more: "agrees n cs p q" if "agrees n (cs @ ds) p q" for ds p q
    using that by (auto simp: agrees_def)
  have short: "agrees n cs (?keep fs (b', cs @ ds)) (Some ErrClosedPipe, b'', take n (cs @ ds))"
    if "n < length (cs @ ds)" for b' b'' ds
    using keep_extends [of mm fs b' "cs @ ds"] that by (auto simp: agrees_def)
  have long: "agrees n cs (?keep fs (b', cs @ ds)) (write_multipart (mime_writer mm (cut n)) fs (b', cs @ ds))"
    if "length (cs @ ds) \<le> n" for b' ds
    using more [OF Cons.IH [OF that]] .
  show ?case
  proof (cases "mf_reader f")
    case None
    let ?ds = "[mm_header mm b (mf_field f) None, mf_value f]"
    show ?thesis
      using None short [of ?ds] long [of ?ds False] Cons.prems
      by (simp add: keep_calls cut_calls)
  next
    case (Some content)
    obtain xs err where xs: "mm_chunks mm content = (xs, err)" by fastforce
    let ?ds = "mm_header mm b (mf_field f) (Some (mf_filename f)) # xs"
    have p: "?keep (f # fs) (b, cs) = (case err of None \<Rightarrow> ?keep fs (False, cs @ ?ds) | Some e \<Rightarrow> (Some e, False, cs @ ?ds))"
      using Some xs by (simp add: keep_calls)
    have stop: "agrees n cs (Some e, False, cs @ ?ds) (Some e, False, cs @ ?ds)" if "length (cs @ ?ds) \<le> n" for e
      using that by (auto simp: agrees_def)
    have stop': "agrees n cs (Some e, False, cs @ ?ds) (Some ErrClosedPipe, False, take n (cs @ ?ds))"
      if "n < length (cs @ ?ds)" for e
      using that by (auto simp: agrees_def)
    show ?thesis
    proof (cases "length (cs @ ?ds) \<le> n")
      case True
      then have "write_multipart (mime_writer mm (cut n)) (f # fs) (b, cs) =
          (case err of None \<Rightarrow> write_multipart (mime_writer mm (cut n)) fs (False, cs @ ?ds) | Some e \<Rightarrow> (Some e, False, cs @ ?ds))"
        using Some xs Cons.prems by (simp add: cut_calls)
      then show ?thesis unfolding p using long [OF True] stop [OF True] by (cases err) simp_all
    next
      case False
      then have "n < length (cs @ ?ds)" by simp
      moreover have "write_multipart (mime_writer mm (cut n)) (f # fs) (b, cs) = (Some ErrClosedPipe, False, take n (cs @ ?ds))"
        using False Some xs Cons.prems by (cases "length cs < n") (simp_all add: cut_calls)
      ultimately show ?thesis unfolding p using short [of ?ds] stop' by (cases err) simp_all
    qed
  qed
qed


lemma upload_cut:
  "fst (write_multipart (mime_writer mm (cut n)) fs (True, [])) =
     (if length (upload_chunks mm fs) \<le> n then upload_result mm fs else Some ErrClosedPipe)"
  using write_multipart_cut [of "[]" n mm fs True]
  by (auto simp: agrees_def upload_chunks_def upload_result_def split: if_splits)

section \<open>The pipe\<close>

text \<open>
  The goroutine has writes left, the first of which may be read in part, and the result of
  \<open>writeMultipart\<close> once they are done; or it has that result and is about to pass it to
  \<open>CloseWithError\<close>; or it has ended. A write returns when all of it was read, or with an error once the
  reading end is closed. A read of the other end gets bytes of the pending write, or what the writing
  end was closed with: the end of the file for no error.
\<close>

datatype uploader = Writing "string list" "gerror option" | Closing "gerror option" | Gone

record upload =
  up_goroutine :: uploader
  up_closed :: bool
  up_end :: "gerror option option"
  up_read :: string

definition start_upload :: "mime_lib \<Rightarrow> multipart_field list \<Rightarrow> upload" where
  "start_upload mm fs =
     \<lparr>up_goroutine = Writing (upload_chunks mm fs) (upload_result mm fs), up_closed = False, up_end = None, up_read = []\<rparr>"

datatype upload_event = ReadBytes string | ReadEnd "gerror option" | CloseReader | WriteFailed | WritesDone | CloseWriter

inductive upload_step :: "upload \<Rightarrow> upload_event \<Rightarrow> upload \<Rightarrow> bool" where
  read_bytes: "up_goroutine s = Writing ((bs @ rest) # cs) r \<Longrightarrow> bs \<noteq> [] \<or> rest = [] \<Longrightarrow> \<not> up_closed s \<Longrightarrow>
    upload_step s (ReadBytes bs)
      (s\<lparr>up_goroutine := Writing (if rest = [] then cs else rest # cs) r, up_read := up_read s @ bs\<rparr>)"
| read_end: "up_end s = Some r \<Longrightarrow> \<not> up_closed s \<Longrightarrow> upload_step s (ReadEnd r) s"
| close_reader: "upload_step s CloseReader (s\<lparr>up_closed := True\<rparr>)"
| write_failed: "up_goroutine s = Writing (c # cs) r \<Longrightarrow> up_closed s \<Longrightarrow>
    upload_step s WriteFailed (s\<lparr>up_goroutine := Closing (Some ErrClosedPipe)\<rparr>)"
| writes_done: "up_goroutine s = Writing [] r \<Longrightarrow> upload_step s WritesDone (s\<lparr>up_goroutine := Closing r\<rparr>)"
| close_writer: "up_goroutine s = Closing r \<Longrightarrow> upload_step s CloseWriter (s\<lparr>up_goroutine := Gone, up_end := Some r\<rparr>)"

inductive upload_run :: "upload \<Rightarrow> upload_event list \<Rightarrow> upload \<Rightarrow> bool" where
  upload_nil: "upload_run s [] s"
| upload_snoc: "upload_run s es t \<Longrightarrow> upload_step t e u \<Longrightarrow> upload_run s (es @ [e]) u"

inductive_cases read_endE: "upload_step s (ReadEnd r) t"

section \<open>The invariant\<close>

text \<open>Where a pipe stands: after \<open>n\<close> writes and \<open>x\<close> of the next one.\<close>

definition stands :: "string list \<Rightarrow> nat \<Rightarrow> string \<Rightarrow> string list \<Rightarrow> bool" where
  "stands chunks n x cs \<longleftrightarrow>
     n = length chunks \<and> x = [] \<and> cs = []
   \<or> (\<exists>rest. n < length chunks \<and> chunks ! n = x @ rest \<and> cs = rest # drop (Suc n) chunks)"

definition returned :: "string list \<Rightarrow> gerror option \<Rightarrow> upload \<Rightarrow> gerror option \<Rightarrow> bool" where
  "returned chunks r s e \<longleftrightarrow>
     (\<exists>n x cs. stands chunks n x cs \<and> up_read s = concat (take n chunks) @ x
        \<and> (if cs = [] then e = r else e = Some ErrClosedPipe \<and> up_closed s))"

fun upload_inv :: "string list \<Rightarrow> gerror option \<Rightarrow> upload \<Rightarrow> uploader \<Rightarrow> bool" where
  "upload_inv chunks r s (Writing cs r') \<longleftrightarrow>
     r' = r \<and> up_end s = None \<and> (\<exists>n x. stands chunks n x cs \<and> up_read s = concat (take n chunks) @ x)"
| "upload_inv chunks r s (Closing e) \<longleftrightarrow> up_end s = None \<and> returned chunks r s e"
| "upload_inv chunks r s Gone \<longleftrightarrow> (\<exists>e. up_end s = Some e \<and> returned chunks r s e)"

lemma returned_mono:
  assumes "returned chunks r s e" and "up_read t = up_read s" and "up_closed s \<Longrightarrow> up_closed t"
  shows "returned chunks r t e"
  using assms unfolding returned_def by (metis (full_types))

lemma stands_fresh: "stands chunks 0 [] chunks"
  by (cases chunks) (auto simp: stands_def)

lemma stands_read:
  assumes "stands chunks n x cs"
  shows "concat chunks = concat (take n chunks) @ x @ concat cs"
proof (cases "n < length chunks")
  case True
  then have "chunks = take n chunks @ chunks ! n # drop (Suc n) chunks" by (rule id_take_nth_drop)
  then have "concat chunks = concat (take n chunks) @ chunks ! n @ concat (drop (Suc n) chunks)"
    by (metis concat.simps(2) concat_append)
  then show ?thesis using assms True by (auto simp: stands_def)
qed (use assms in \<open>auto simp: stands_def\<close>)

lemma stands_next: "stands chunks n x ((bs @ rest) # cs) \<Longrightarrow> rest \<noteq> [] \<Longrightarrow> stands chunks n (x @ bs) (rest # cs)"
  by (auto simp: stands_def)

lemma stands_full:
  assumes "stands chunks n x (bs # cs)"
  shows "stands chunks (Suc n) [] cs" and "concat (take (Suc n) chunks) = concat (take n chunks) @ x @ bs"
proof -
  have n: "n < length chunks" "chunks ! n = x @ bs" "cs = drop (Suc n) chunks" using assms by (auto simp: stands_def)
  show "stands chunks (Suc n) [] cs"
    using n by (cases "Suc n < length chunks") (auto simp: stands_def Cons_nth_drop_Suc)
  show "concat (take (Suc n) chunks) = concat (take n chunks) @ x @ bs" using n by (simp add: take_Suc_conv_app_nth)
qed

lemma upload_inv_step:
  assumes "upload_step s e t" and "upload_inv chunks r s (up_goroutine s)"
  shows "upload_inv chunks r t (up_goroutine t)"
  using assms
proof (induction rule: upload_step.induct)
  case (read_bytes s bs rest cs r')
  then obtain n x where n: "r' = r" "up_end s = None" "stands chunks n x ((bs @ rest) # cs)"
    "up_read s = concat (take n chunks) @ x" by auto
  show ?case
  proof (cases "rest = []")
    case True
    have "stands chunks (Suc n) [] cs \<and> up_read s @ bs = concat (take (Suc n) chunks) @ []"
      using stands_full [OF n(3)] n(4) True by simp
    then show ?thesis using n True by (auto simp del: append_Nil2)
  next
    case False
    then show ?thesis using stands_next [OF n(3)] n by auto
  qed
next
  case (close_reader s)
  have "returned chunks r s e \<Longrightarrow> returned chunks r (s\<lparr>up_closed := True\<rparr>) e" for e
    by (rule returned_mono) simp_all
  then show ?case using close_reader by (cases "up_goroutine s") auto
next
  case (write_failed s c cs r')
  then show ?case by (force simp: returned_def)
next
  case (writes_done s r')
  then show ?case by (auto simp: returned_def)
next
  case (close_writer s r')
  have "returned chunks r s e \<Longrightarrow> returned chunks r (s\<lparr>up_goroutine := Gone, up_end := d\<rparr>) e" for e d
    by (rule returned_mono) simp_all
  then show ?case using close_writer by auto
qed simp

lemma upload_inv_run:
  "upload_run s es t \<Longrightarrow> upload_inv chunks r s (up_goroutine s) \<Longrightarrow> upload_inv chunks r t (up_goroutine t)"
  by (induction rule: upload_run.induct) (auto dest: upload_inv_step)


text \<open>What is left to do without the reader's end being closed.\<close>

fun uploader_work :: "uploader \<Rightarrow> nat" where
  "uploader_work (Writing cs r) = length cs + length (concat cs) + 2"
| "uploader_work (Closing e) = 1"
| "uploader_work Gone = 0"

definition moves :: "upload_event \<Rightarrow> bool" where
  "moves e \<longleftrightarrow> (case e of ReadEnd r \<Rightarrow> False | CloseReader \<Rightarrow> False | _ \<Rightarrow> True)"

lemma upload_step_work:
  "upload_step s e t \<Longrightarrow> uploader_work (up_goroutine t) + (if moves e then 1 else 0) \<le> uploader_work (up_goroutine s)"
  by (induction rule: upload_step.induct) (auto simp: moves_def Suc_le_eq)

lemma upload_run_work:
  "upload_run s es t \<Longrightarrow> length (filter moves es) + uploader_work (up_goroutine t) \<le> uploader_work (up_goroutine s)"
  by (induction rule: upload_run.induct) (auto dest!: upload_step_work split: if_splits)

lemma uploader_moves:
  assumes "up_goroutine s \<noteq> Gone"
  shows "\<exists>e t. upload_step s e t \<and> moves e"
proof (cases "up_goroutine s")
  case (Writing cs r)
  show ?thesis
  proof (cases cs)
    case Nil
    then show ?thesis using upload_step.writes_done [of s r] Writing by (auto simp: moves_def)
  next
    case (Cons c cs')
    then show ?thesis
      using upload_step.write_failed [of s c cs' r] upload_step.read_bytes [of s c "[]" cs' r] Writing
      by (cases "up_closed s") (fastforce simp: moves_def)+
  qed
next
  case (Closing r)
  then show ?thesis using upload_step.close_writer [of s r] by (auto simp: moves_def)
qed (use assms in simp)

text \<open>
  C23: An upload that was cut short never looks complete, and leaves no goroutine behind. Whenever the
  transport reads, and whatever it reads at a time, the bytes it got are a prefix of the parts; it
  sees an end only after it read all of them, and this end is the result of \<open>writeMultipart\<close>, so a file
  that failed to read shows as its error and not as the end of the body. The result the goroutine
  closes the pipe with is the one \<open>writeMultipart\<close> has on a writer that is cut off where the reader
  stopped. Reads and steps of the goroutine are bounded by the bytes and writes of the parts, and
  until the goroutine ended one of them is possible, without a read once the reader is closed.
\<close>

theorem upload_complete_or_failed:
  assumes "upload_run (start_upload mm fs) es s"
  shows "prefix (up_read s) (concat (upload_chunks mm fs))
    \<and> (\<forall>r t. upload_step s (ReadEnd r) t \<longrightarrow> up_read s = concat (upload_chunks mm fs) \<and> r = upload_result mm fs)
    \<and> (\<forall>r. up_end s = Some r \<longrightarrow> (\<exists>n. fst (write_multipart (mime_writer mm (cut n)) fs (True, [])) = r
          \<and> prefix (concat (take n (upload_chunks mm fs))) (up_read s)))
    \<and> length (filter moves es) \<le> length (upload_chunks mm fs) + length (concat (upload_chunks mm fs)) + 2
    \<and> (up_goroutine s \<noteq> Gone \<longrightarrow> (\<exists>e t. upload_step s e t \<and> moves e \<and> (up_closed s \<longrightarrow> (\<forall>bs. e \<noteq> ReadBytes bs))))"
proof (intro conjI allI impI)
  let ?cs = "upload_chunks mm fs" and ?r = "upload_result mm fs"
  have inv: "upload_inv ?cs ?r s (up_goroutine s)"
    using stands_fresh [of ?cs] by (intro upload_inv_run [OF assms]) (force simp: start_upload_def)
  have part: "prefix (concat (take n ?cs) @ x) (concat ?cs) \<and> (cs = [] \<longrightarrow> concat (take n ?cs) @ x = concat ?cs)"
    if "stands ?cs n x cs" for n x cs
    using stands_read [OF that] by auto
  obtain n x cs where at: "stands ?cs n x cs" "up_read s = concat (take n ?cs) @ x"
    using inv by (cases "up_goroutine s") (auto simp: returned_def)
  show "prefix (up_read s) (concat ?cs)" using part [OF at(1)] at(2) by simp
  have ended: "returned ?cs ?r s r" if "up_end s = Some r" for r
    using inv that by (cases "up_goroutine s") auto
  { fix r t assume "upload_step s (ReadEnd r) t"
    then have "returned ?cs ?r s r \<and> \<not> up_closed s" using ended by (auto elim: read_endE)
    then show "up_read s = concat ?cs" "r = ?r" using part unfolding returned_def by (metis (full_types))+ }
  { fix r assume "up_end s = Some r"
    then obtain m y ds where r: "stands ?cs m y ds" "up_read s = concat (take m ?cs) @ y" "if ds = [] then r = ?r else r = Some ErrClosedPipe"
      using ended unfolding returned_def by (metis (full_types))
    then show "\<exists>n. fst (write_multipart (mime_writer mm (cut n)) fs (True, [])) = r
        \<and> prefix (concat (take n ?cs)) (up_read s)"
      by (intro exI [of _ m]) (auto simp: upload_cut stands_def prefix_def split: if_splits) }
  show "length (filter moves es) \<le> length ?cs + length (concat ?cs) + 2"
    using upload_run_work [OF assms] by (simp add: start_upload_def)
  assume "up_goroutine s \<noteq> Gone"
  then obtain e t where "upload_step s e t" "moves e" using uploader_moves by blast
  moreover have "\<forall>bs. e \<noteq> ReadBytes bs" if "up_closed s" using that \<open>upload_step s e t\<close> by (auto elim: upload_step.cases)
  ultimately show "\<exists>e t. upload_step s e t \<and> moves e \<and> (up_closed s \<longrightarrow> (\<forall>bs. e \<noteq> ReadBytes bs))" by blast
qed


text \<open>A file whose reader fails after two bytes: the transport sees the failure, not the end of the body.\<close>

definition unreadable :: gerror where
  "unreadable = ForeignErr ''*fs.PathError'' ''read x: input/output error'' None None"

definition failing_file :: mime_lib where
  "failing_file = \<lparr>mm_header = (\<lambda>_ field _. field), mm_trailer = ''end'', mm_chunks = (\<lambda>c. ([c], Some unreadable))\<rparr>"

definition one_file :: "multipart_field list" where
  "one_file = [\<lparr>mf_field = ''f'', mf_filename = ''x'', mf_value = [], mf_reader = Some ''ab''\<rparr>]"

lemma failing_upload:
  "upload_chunks failing_file one_file = [''f'', ''ab'']" "upload_result failing_file one_file = Some unreadable"
  by (simp_all add: upload_chunks_def upload_result_def one_file_def keep_calls) (simp_all add: failing_file_def)

theorem upload_complete_or_failed_witness:
  "\<exists>es s. upload_run (start_upload failing_file one_file) es s \<and> up_read s = ''fab''
    \<and> up_end s = Some (Some unreadable) \<and> (\<forall>r t. upload_step s (ReadEnd r) t \<longrightarrow> r = Some unreadable)"
proof -
  let ?s0 = "start_upload failing_file one_file"
  let ?s1 = "?s0\<lparr>up_goroutine := Writing [''ab''] (Some unreadable), up_read := ''f''\<rparr>"
  let ?s2 = "?s0\<lparr>up_goroutine := Writing [''b''] (Some unreadable), up_read := ''fa''\<rparr>"
  let ?s3 = "?s0\<lparr>up_goroutine := Writing [] (Some unreadable), up_read := ''fab''\<rparr>"
  let ?s4 = "?s0\<lparr>up_goroutine := Closing (Some unreadable), up_read := ''fab''\<rparr>"
  let ?s5 = "?s0\<lparr>up_goroutine := Gone, up_read := ''fab'', up_end := Some (Some unreadable)\<rparr>"
  have steps: "upload_step ?s0 (ReadBytes ''f'') ?s1" "upload_step ?s1 (ReadBytes ''a'') ?s2"
    "upload_step ?s2 (ReadBytes ''b'') ?s3" "upload_step ?s3 WritesDone ?s4" "upload_step ?s4 CloseWriter ?s5"
    using upload_step.read_bytes [of ?s0 "''f''" "[]"] upload_step.read_bytes [of ?s1 "''a''" "''b''"]
      upload_step.read_bytes [of ?s2 "''b''" "[]"] upload_step.writes_done [of ?s3] upload_step.close_writer [of ?s4]
    by (simp_all add: start_upload_def failing_upload)
  have run: "upload_run ?s0 [ReadBytes ''f'', ReadBytes ''a'', ReadBytes ''b'', WritesDone, CloseWriter] ?s5"
    using upload_snoc [OF upload_snoc [OF upload_snoc [OF upload_snoc [OF upload_snoc [OF upload_nil steps(1)] steps(2)]
      steps(3)] steps(4)] steps(5)] by simp
  show ?thesis
    using run upload_complete_or_failed [OF run] failing_upload(2) by (intro exI [of _ ?s5] exI) auto
qed

end
