(* ===== verification/Bodies.thy ===== *)
theory Bodies
  imports Send_Props Upload
begin

text \<open>
  Who ends the body of a request: \<open>execute\<close> of \<open>httpclient/request.go\<close> hands it to the transport, which
  always closes it, or closes it before it returns. For a multipart body either one ends the
  goroutine of \<open>Upload\<close>.
\<close>

section \<open>What a step of a send adds to its history\<close>

definition adds :: "(client_event list \<Rightarrow> bool) \<Rightarrow> (cst, 'a) act \<Rightarrow> bool" where
  "adds P m \<longleftrightarrow> (\<forall>s r s'. m s = (r, s') \<longrightarrow> (\<exists>evs. cs_events s' = cs_events s @ evs \<and> P evs))"

definition open_history :: "client_event list \<Rightarrow> bool" where
  "open_history evs \<longleftrightarrow> BodyClosed \<notin> set evs"

lemma adds_ret [intro!]: "adds open_history (ret x)"
  by (simp add: adds_def ret_def open_history_def)

lemma adds_emit [intro!]: "e \<noteq> BodyClosed \<Longrightarrow> adds open_history (emit e)"
  by (auto simp: adds_def emit_def ret_def open_history_def)

lemma lift_w_events: "lift_w m s = (r, s') \<Longrightarrow> cs_events s' = cs_events s"
  by (auto simp: lift_w_def split: prod.splits)

lemma adds_lift_w [intro!]: "adds open_history (lift_w m)"
  by (auto simp: adds_def open_history_def dest: lift_w_events)

lemma adds_bind [intro!]:
  assumes "adds open_history m" and "\<And>x. adds open_history (f x)"
  shows "adds open_history (bind_act m f)"
  unfolding adds_def
proof (intro allI impI)
  fix s r s' assume run: "bind_act m f s = (r, s')"
  obtain x t where t: "m s = (x, t)" by fastforce
  obtain evs where evs: "cs_events t = cs_events s @ evs" "open_history evs" using assms(1) t unfolding adds_def by blast
  show "\<exists>evs. cs_events s' = cs_events s @ evs \<and> open_history evs"
  proof (cases x)
    case (Ret y)
    then have "f y t = (r, s')" using run t by (simp add: bind_act_def)
    then obtain evs' where "cs_events s' = cs_events t @ evs'" "open_history evs'" using assms(2) unfolding adds_def by blast
    then show ?thesis using evs by (auto simp: open_history_def)
  next
    case (Panic p)
    then show ?thesis using run t evs by (auto simp: bind_act_def)
  qed
qed

lemma after_attempt_adds: "adds open_history (after_attempt env rc meth n resp err)"
  unfolding after_attempt_def Let_def by (auto split: prod.split option.split bool.split)

lemma prepare_attempt_adds: "adds open_history (prepare_attempt env c r caller_set n h)"
  unfolding prepare_attempt_def Let_def by auto

lemma finish_attempts_adds: "adds open_history (finish_attempts resp err)"
  unfolding finish_attempts_def by (auto split: option.split)

lemma attempts_adds: "adds open_history (attempts env c r caller_set can left n h)"
proof (induction left arbitrary: can n h)
  case 0
  show ?case
    unfolding attempts.simps [of env c r caller_set can 0]
    by (auto simp: prepare_attempt_adds finish_attempts_adds Let_def split: sum.split prod.split)
next
  case (Suc left)
  show ?case
    unfolding attempts.simps [of env c r caller_set can "Suc left"]
    by (auto simp: prepare_attempt_adds finish_attempts_adds after_attempt_adds Suc.IH Let_def
        split: sum.split prod.split verdict.split)
qed

text \<open>The loop sends before it does anything else.\<close>

lemma attempts_send:
  assumes "attempts env c r caller_set can left 0 h s = (x, s')"
  shows "\<exists>evs. cs_events s' = cs_events s @ Sent h # evs \<and> open_history evs"
proof -
  define rest where "rest = (case env_do env 0 h of (resp, err) \<Rightarrow>
    if \<not> can then finish_attempts resp err
    else case left of
           0 \<Rightarrow> finish_attempts resp err
         | Suc left' \<Rightarrow>
             bind_act (after_attempt env (cc_retry (cl_config c)) (ho_method h) 0 resp err) (\<lambda>v.
               case v of
                 Stop \<Rightarrow> finish_attempts resp err
               | Fail e \<Rightarrow> ret (Inl e)
               | Again \<Rightarrow> attempts env c r caller_set can left' (Suc 0) h))"
  have "adds open_history rest"
    unfolding rest_def
    by (auto simp: finish_attempts_adds after_attempt_adds attempts_adds split: prod.split nat.split verdict.split)
  moreover have "rest (s\<lparr>cs_events := cs_events s @ [Sent h]\<rparr>) = (x, s')"
    using assms unfolding attempts.simps [of env c r caller_set can left]
    by (simp add: prepare_attempt_def bind_act_def ret_def emit_def rest_def Let_def case_prod_beta)
  ultimately show ?thesis unfolding adds_def by fastforce
qed


section \<open>Every way out of execute\<close>

text \<open>Hooks that leave a body where it is.\<close>

definition keeps_body :: "before_hook \<Rightarrow> bool" where
  "keeps_body f \<longleftrightarrow> (\<forall>h w e h' w'. f h w = (Ret (e, h'), w') \<and> ho_body h \<noteq> None \<longrightarrow> ho_body h' \<noteq> None)"

lemma run_before_keeps_body:
  "\<forall>f\<in>set fs. keeps_body f \<Longrightarrow> ho_body h \<noteq> None \<Longrightarrow> run_before fs h w = (Ret (e, h'), w') \<Longrightarrow> ho_body h' \<noteq> None"
proof (induction fs arbitrary: h w)
  case (Cons f fs)
  obtain x v where f: "f h w = (x, v)" by fastforce
  then obtain e1 h1 where x: "x = Ret (e1, h1)" using Cons.prems(3) by (cases x) (auto simp: bind_act_def)
  have "ho_body h1 \<noteq> None" using Cons.prems(1,2) f x unfolding keeps_body_def by (metis list.set_intros(1))
  then show ?case
    using Cons.IH [of h1 v] Cons.prems f x by (auto simp: bind_act_def ret_def split: option.splits)
qed (simp add: ret_def)

lemma inject_tracing_body: "inject_tracing env ctx h w = (Ret h', w') \<Longrightarrow> ho_body h' = ho_body h"
  by (auto simp: inject_tracing_def bind_act_def ret_def split: if_splits prod.splits outcome.splits sum.splits)

lemma apply_body_some: "p \<noteq> None \<Longrightarrow> ho_body (snd (apply_body env p h)) \<noteq> None"
  by (auto simp: apply_body_def Let_def)

text \<open>The two ways: sent and not closed here, or closed, not sent, and an error.\<close>

definition ends_body :: "(cst, gerror + 'a) act \<Rightarrow> bool" where
  "ends_body m \<longleftrightarrow> (\<forall>s x s'. m s = (Ret x, s') \<longrightarrow>
     (\<exists>h evs. cs_events s' = cs_events s @ Sent h # evs \<and> BodyClosed \<notin> set evs)
   \<or> (cs_events s' = cs_events s @ [BodyClosed] \<and> (\<exists>e. x = Inl e)))"

lemma ends_body_after:
  assumes "\<And>y w w'. m w = (Ret y, w') \<Longrightarrow> ends_body (f y)"
  shows "ends_body (bind_act (lift_w m) f)"
  unfolding ends_body_def
proof (intro allI impI)
  fix s x s' assume run: "bind_act (lift_w m) f s = (Ret x, s')"
  obtain v w' where m: "m (cs_world s) = (v, w')" by fastforce
  then obtain y where y: "v = Ret y" and f: "f y (s\<lparr>cs_world := w'\<rparr>) = (Ret x, s')"
    using run by (cases v) (auto simp: bind_act_def lift_w_def)
  have "cs_events (s\<lparr>cs_world := w'\<rparr>) = cs_events s" by simp
  with assms [of "cs_world s" y w'] m y f
  show "(\<exists>h evs. cs_events s' = cs_events s @ Sent h # evs \<and> BodyClosed \<notin> set evs)
      \<or> (cs_events s' = cs_events s @ [BodyClosed] \<and> (\<exists>e. x = Inl e))"
    unfolding ends_body_def by metis
qed

lemma ends_body_abort: "ho_body h \<noteq> None \<Longrightarrow> ends_body (abort e h)"
  by (auto simp: ends_body_def abort_def bind_act_def emit_def ret_def)

lemma ends_body_retry: "ends_body (do_with_retry env c r h replayable caller_set)"
  unfolding ends_body_def do_with_retry_def Let_def using attempts_send by (fastforce simp: open_history_def)

text \<open>
  C24: No body of a request is left open. However \<open>execute\<close> returns once a body is in place, with
  hooks that leave the body there, either it handed the request to the transport, which closes the
  body, and closed nothing itself, or it returns an error and has done nothing but close the body.
\<close>

theorem request_body_ended:
  assumes "execute env c r ctx meth target s = (Ret x, s')"
    and "rr_body r \<noteq> None" and "env_new_request env meth target = None"
    and "\<forall>f\<in>set (cc_before (cl_config c) @ rr_before r). keeps_body f"
  shows "(\<exists>h evs. cs_events s' = cs_events s @ Sent h # evs \<and> BodyClosed \<notin> set evs)
    \<or> (cs_events s' = cs_events s @ [BodyClosed] \<and> (\<exists>e. x = Inl e))"
proof -
  let ?h0 = "\<lparr>ho_method = meth, ho_url = target,
    ho_header = override_headers (rr_header r) (add_headers (cl_base_headers c) no_header),
    ho_body = None, ho_length = 0, ho_get_body = False\<rparr>"
  obtain replayable h1 where ab: "apply_body env (rr_body r) ?h0 = (replayable, h1)" by fastforce
  then have h1: "ho_body h1 \<noteq> None" using apply_body_some [OF assms(2), of env ?h0] by simp
  have auth: "ends_body (case a of
        Inl e \<Rightarrow> bind_act (lift_w (propagate ''execute#3'' (Some e) ''failed to inject authorization'' []))
          (\<lambda>p. abort (case p of Some e' \<Rightarrow> e' | None \<Rightarrow> e) h3)
      | Inr h4 \<Rightarrow> do_with_retry env c r h4 replayable b)" if "ho_body h3 \<noteq> None" for a h3 b
    using that by (cases a) (auto intro!: ends_body_after ends_body_abort ends_body_retry)
  have "ends_body (execute env c r ctx meth target)"
    unfolding execute_def assms(3) option.case Let_def ab prod.case
  proof (rule ends_body_after)
    fix y w w' assume before: "run_before (cc_before (cl_config c) @ rr_before r) h1 w = (Ret y, w')"
    obtain e h2 where y: "y = (e, h2)" by fastforce
    have h2: "ho_body h2 \<noteq> None" using run_before_keeps_body [OF assms(4) h1] before y by blast
    show "ends_body (case y of (berr, h2) \<Rightarrow> case berr of
        None \<Rightarrow> bind_act (lift_w (inject_tracing env ctx h2)) (\<lambda>h3.
          bind_act (lift_w (inject_auth c r (header_get (ho_header h3) ''Authorization'' \<noteq> [] \<and> rr_token r = [] \<and> rr_basic r = None) 0 h3))
            (\<lambda>a. case a of
               Inl e \<Rightarrow> bind_act (lift_w (propagate ''execute#3'' (Some e) ''failed to inject authorization'' []))
                 (\<lambda>p. abort (case p of Some e' \<Rightarrow> e' | None \<Rightarrow> e) h3)
             | Inr h4 \<Rightarrow> do_with_retry env c r h4 replayable
                 (header_get (ho_header h3) ''Authorization'' \<noteq> [] \<and> rr_token r = [] \<and> rr_basic r = None)))
      | Some e \<Rightarrow> bind_act (lift_w (propagate ''execute#2'' (Some e) ''before-request hook failed'' []))
          (\<lambda>p. abort (case p of Some e' \<Rightarrow> e' | None \<Rightarrow> e) h2))"
      using h2 inject_tracing_body unfolding y prod.case
      by (cases e) (auto intro!: ends_body_after ends_body_abort auth)
  qed
  then show ?thesis using assms(1) unfolding ends_body_def by blast
qed


text \<open>A multipart request whose hook refuses it: the body is closed, and nothing was sent.\<close>

definition refusing_hook :: before_hook where
  "refusing_hook h = ret (Some unreadable, h)"

definition file_request :: request where
  "file_request = (client_R plain_client background)\<lparr>rr_body := Some (MultipartBody one_file), rr_before := [refusing_hook]\<rparr>"

theorem request_body_ended_witness:
  "\<exists>x s'. execute flaky_env plain_client file_request background ''POST'' ''http://localhost/x'' start_cst = (Ret x, s')
    \<and> cs_events s' = [BodyClosed]"
proof -
  have "good_error (cs_world start_cst) unreadable" by (simp add: unreadable_def)
  from runs_propagate [OF start_cst_wf(1) _ this, of "[]" "''execute#2''" "''before-request hook failed''"]
  obtain p w' where p: "propagate ''execute#2'' (Some unreadable) ''before-request hook failed'' [] (cs_world start_cst) = (Ret p, w')"
    by (auto simp: runs_def)
  have run: "\<exists>e. execute flaky_env plain_client file_request background ''POST'' ''http://localhost/x'' start_cst
      = (Ret (Inl e), start_cst\<lparr>cs_world := w', cs_events := cs_events start_cst @ [BodyClosed]\<rparr>)"
    by (simp add: execute_def flaky_env_def file_request_def client_R_def plain_client_def Defaults_def refusing_hook_def
        apply_body_def body_of_def Let_def bind_act_def ret_def lift_w_def p abort_def emit_def)
  then obtain e where run: "execute flaky_env plain_client file_request background ''POST'' ''http://localhost/x'' start_cst
      = (Ret (Inl e), start_cst\<lparr>cs_world := w', cs_events := cs_events start_cst @ [BodyClosed]\<rparr>)" by blast
  have req: "rr_body file_request \<noteq> None" "env_new_request flaky_env ''POST'' ''http://localhost/x'' = None"
    "\<forall>f\<in>set (cc_before (cl_config plain_client) @ rr_before file_request). keeps_body f"
    by (simp_all add: file_request_def flaky_env_def plain_client_def Defaults_def client_R_def keeps_body_def
        refusing_hook_def ret_def)
  show ?thesis using request_body_ended [OF run req] run by (auto simp: start_cst_def)
qed

text \<open>
  On the other side of the exchange, a response is lost when the policy reports an error: the loop
  returns it without draining or closing the response it has.
\<close>

definition stopping_policy :: retry_policy where
  "stopping_policy = \<lparr>check_retry = (\<lambda>ctx meth resp err n. (False, Some unreadable)), backoff = (\<lambda>u r mn mx n resp. mn)\<rparr>"

definition stopping_client :: client where
  "stopping_client = plain_client\<lparr>cl_config := (cl_config plain_client)\<lparr>cc_retry :=
     (cc_retry (cl_config plain_client))\<lparr>rc_policy := Some stopping_policy\<rparr>\<rparr>\<rparr>"

lemma policy_error_drops_response:
  "\<exists>e s'. do_with_retry flaky_env stopping_client (client_R stopping_client background) (plain_out ''GET'') True False start_cst
      = (Ret (Inl e), s')
    \<and> cs_events s' = [Sent (plain_out ''GET'')]
    \<and> env_do flaky_env 0 (plain_out ''GET'') = (Some \<lparr>resp_status = 503, resp_header = no_header, resp_body = None\<rparr>, None)"
proof -
  have "good_error (cs_world start_cst) unreadable" by (simp add: unreadable_def)
  from runs_propagate_as [OF start_cst_wf(1) _ this, of "[]" "''doWithRetry#2''" KindSystemError "''request cancelled''"]
  obtain p w' where p: "propagate_as ''doWithRetry#2'' KindSystemError (Some unreadable) ''request cancelled'' []
      (cs_world start_cst) = (Ret p, w')"
    by (auto simp: runs_def)
  have n: "nat (rc_max (cc_retry (cl_config stopping_client))) = Suc 2"
    by (simp add: stopping_client_def)
  have can: "can_retry (cc_retry (cl_config stopping_client)) (rr_retry (client_R stopping_client background)) True
      (ho_method (plain_out ''GET''))"
    by (simp add: stopping_client_def plain_client_def Defaults_def can_retry_def client_R_def plain_out_def IsIdempotent_def)
  have run: "do_with_retry flaky_env stopping_client (client_R stopping_client background) (plain_out ''GET'') True False
      = attempts flaky_env stopping_client (client_R stopping_client background) False True (Suc 2) 0 (plain_out ''GET'')"
    unfolding do_with_retry_def Let_def n using can by simp
  show ?thesis
    using p unfolding run attempts.simps [of _ _ _ _ _ "Suc 2"]
    by (simp add: prepare_attempt_def after_attempt_def bind_act_def ret_def emit_def Let_def
        lift_w_def flaky_env_def stopping_client_def policy_of_def stopping_policy_def start_cst_def)
qed

end
