(* ===== verification/In_Flight.thy ===== *)
theory In_Flight
  imports Middleware_Props "HOL-Library.Multiset"
begin

text \<open>
  Many requests at once under \<open>MetricsMonitor\<close> (\<open>middleware/monitoring.go\<close>): each request makes its calls
  of the instruments (\<open>monitoring/monitoring.go\<close>) one by one, and those of different requests interleave
  in any order. Each call of an instrument is one step, as OpenTelemetry promises and as \<open>sync.OnceValues\<close>
  makes the first one.
\<close>

section \<open>One call of an instrument\<close>

definition instruments_ok :: "meter \<Rightarrow> bool" where
  "instruments_ok meter \<longleftrightarrow> meter ''http.server.requests'' = None \<and> meter ''http.server.active_requests'' = None
     \<and> meter ''http.server.request.duration'' = None"

text \<open>What the instruments hold after a call that would change them by \<open>upd\<close>.\<close>

definition resolved :: "meter \<Rightarrow> (metrics \<Rightarrow> metrics) \<Rightarrow> metrics \<Rightarrow> metrics" where
  "resolved meter upd m =
     (let b = (case mt_built m of Some b \<Rightarrow> b | None \<Rightarrow> instruments_ok meter);
          m' = m\<lparr>mt_built := Some b\<rparr>
      in if b then upd m' else m')"

lemma log_instrument_error_returns: "\<exists>t. log_instrument_error global e name s = (Ret (), t) \<and> st_metrics t = st_metrics s"
  by (cases global) (auto simp: log_instrument_error_def site_log_def bind_act_def on_srv_def on_world_def ret_def
      propagate_def propagate_as_def from_error_def with_opts_def wrap_error_def new_errort_def rev_trace_opt_def
      Let_def split: prod.split)

lemma build_instruments_returns:
  "\<exists>t. build_instruments meter global s = (Ret (instruments_ok meter), t) \<and> st_metrics t = st_metrics s"
proof -
  have "\<exists>t. bind_act (log_instrument_error global e name) (\<lambda>_. ret False) s = (Ret False, t) \<and> st_metrics t = st_metrics s" for e name
    using log_instrument_error_returns [of global e name s] by (auto simp: bind_act_def ret_def)
  then show ?thesis by (simp add: build_instruments_def instruments_ok_def ret_def split: option.split)
qed

lemma resolve_returns:
  "\<exists>t. resolve meter global upd s = (Ret (), t) \<and> st_metrics t = resolved meter upd (st_metrics s)"
proof (cases "mt_built (st_metrics s)")
  case (Some b)
  have same: "(st_metrics s)\<lparr>mt_built := Some b\<rparr> = st_metrics s" using Some by (cases "st_metrics s") simp
  show ?thesis
    using resolve_built [OF Some, of meter global upd] unfolding resolved_def Some option.case Let_def same by (cases b) simp_all
next
  case None
  obtain t where "build_instruments meter global s = (Ret (instruments_ok meter), t)" "st_metrics t = st_metrics s"
    using build_instruments_returns by blast
  then show ?thesis
    using None by (simp add: resolve_def get_instruments_def set_built_def bind_act_def ret_def resolved_def)
qed

section \<open>Requests and their steps\<close>

text \<open>
  Where a request is: it has its recorder; it is counted as active and served since a time; its
  handler has returned or panicked and it is no longer active; it is counted under a status; and its
  duration is recorded.
\<close>

datatype stage = Arrived nat | Serving nat int | Leaving nat int | Tallied int int | Finished int

record traffic =
  tf_site :: site
  tf_requests :: "(string \<times> string \<times> stage) list"

definition at_stage :: "traffic \<Rightarrow> nat \<Rightarrow> string \<times> string \<times> stage \<Rightarrow> bool" where
  "at_stage f i q \<longleftrightarrow> i < length (tf_requests f) \<and> tf_requests f ! i = q"

definition advance :: "nat \<Rightarrow> string \<times> string \<times> stage \<Rightarrow> site \<Rightarrow> traffic \<Rightarrow> traffic" where
  "advance i q s f = \<lparr>tf_site = s, tf_requests = (tf_requests f)[i := q]\<rparr>"

text \<open>A handler may change everything but the instruments; so may requests that are not monitored.\<close>

inductive traffic_step :: "meter \<Rightarrow> logger \<Rightarrow> traffic \<Rightarrow> traffic \<Rightarrow> bool"
  for meter :: meter and global :: logger where
  arrive: "\<not> is_ignored_route route \<Longrightarrow> new_recorder (tf_site f) = (Ret j, s) \<Longrightarrow>
    traffic_step meter global f \<lparr>tf_site = s, tf_requests = tf_requests f @ [(meth, route, Arrived j)]\<rparr>"
| enter: "at_stage f i (meth, route, Arrived j) \<Longrightarrow>
    increment_active_requests meter global meth route (tf_site f) = (Ret (), s) \<Longrightarrow>
    traffic_step meter global f (advance i (meth, route, Serving j (st_clock s)) s f)"
| work: "st_metrics s = st_metrics (tf_site f) \<Longrightarrow> traffic_step meter global f (f\<lparr>tf_site := s\<rparr>)"
| leave: "at_stage f i (meth, route, Serving j start) \<Longrightarrow>
    decrement_active_requests meter global meth route (tf_site f) = (Ret (), s) \<Longrightarrow>
    traffic_step meter global f (advance i (meth, route, Leaving j start) s f)"
| tally: "at_stage f i (meth, route, Leaving j start) \<Longrightarrow> status = rec_status (st_recorders (tf_site f) ! j) \<Longrightarrow>
    increment_traffic meter global meth route status (tf_site f) = (Ret (), s) \<Longrightarrow>
    traffic_step meter global f (advance i (meth, route, Tallied status start) s f)"
| observe: "at_stage f i (meth, route, Tallied status start) \<Longrightarrow>
    monitor_latency meter global meth route status start (tf_site f) = (Ret (), s) \<Longrightarrow>
    traffic_step meter global f (advance i (meth, route, Finished status) s f)"

inductive traffic_run :: "meter \<Rightarrow> logger \<Rightarrow> traffic \<Rightarrow> traffic \<Rightarrow> bool"
  for meter :: meter and global :: logger where
  traffic_refl: "traffic_run meter global f f"
| traffic_trans: "traffic_run meter global f g \<Longrightarrow> traffic_step meter global g h \<Longrightarrow> traffic_run meter global f h"

section \<open>The invariant\<close>

fun is_active :: "string \<times> string \<Rightarrow> string \<times> string \<times> stage \<Rightarrow> bool" where
  "is_active l (m, r, Serving j start) = (l = (m, r))"
| "is_active l _ = False"

fun is_tallied :: "string \<times> string \<times> int \<Rightarrow> string \<times> string \<times> stage \<Rightarrow> bool" where
  "is_tallied l (m, r, Tallied c start) = (l = (m, r, c))"
| "is_tallied l (m, r, Finished c) = (l = (m, r, c))"
| "is_tallied l _ = False"

fun is_timed :: "string \<times> string \<times> int \<Rightarrow> string \<times> string \<times> stage \<Rightarrow> bool" where
  "is_timed l (m, r, Finished c) = (l = (m, r, c))"
| "is_timed l _ = False"

definition how_many :: "('a \<Rightarrow> bool) \<Rightarrow> 'a list \<Rightarrow> nat" where
  "how_many P xs = length (filter P xs)"

definition traffic_inv :: "meter \<Rightarrow> metrics \<Rightarrow> traffic \<Rightarrow> bool" where
  "traffic_inv meter m0 f \<longleftrightarrow>
     (let m = st_metrics (tf_site f); qs = tf_requests f in
      mt_built m \<in> {None, Some (instruments_ok meter)} \<and>
      (if instruments_ok meter then
         (\<forall>l. mt_active m l = mt_active m0 l + int (how_many (is_active l) qs))
       \<and> (\<forall>l. mt_requests m l = mt_requests m0 l + how_many (is_tallied l) qs)
       \<and> (\<forall>l. how_many (\<lambda>d. fst d = l) (mt_duration m) = how_many (\<lambda>d. fst d = l) (mt_duration m0) + how_many (is_timed l) qs)
       else mt_active m = mt_active m0 \<and> mt_requests m = mt_requests m0 \<and> mt_duration m = mt_duration m0))"

lemma how_many_snoc [simp]: "how_many P [] = 0" "how_many P (xs @ [x]) = how_many P xs + (if P x then 1 else 0)"
  by (simp_all add: how_many_def)

lemma how_many_update:
  assumes "i < length xs"
  shows "how_many P (xs[i := y]) + (if P (xs ! i) then 1 else 0) = how_many P xs + (if P y then 1 else 0)"
proof -
  have split: "how_many P (a @ z # b) = how_many P a + how_many P b + (if P z then 1 else 0)" for a z b
    by (simp add: how_many_def)
  have "how_many P xs = how_many P (take i xs) + how_many P (drop (Suc i) xs) + (if P (xs ! i) then 1 else 0)"
    by (subst id_take_nth_drop [OF assms]) (rule split)
  then show ?thesis unfolding upd_conv_take_nth_drop [OF assms] split by simp
qed

lemma how_many_advance:
  assumes "at_stage f i q"
  shows "how_many P (tf_requests (advance i q' s f)) + (if P q then 1 else 0) = how_many P (tf_requests f) + (if P q' then 1 else 0)"
  using how_many_update [of i "tf_requests f" P q'] assms by (simp add: at_stage_def advance_def)

text \<open>The step of one request: a call of an instrument that changes no count but the ones named.\<close>

lemma traffic_inv_call:
  assumes inv: "traffic_inv meter m0 f" and at: "at_stage f i q"
    and call: "resolve meter global upd (tf_site f) = (Ret (), s)"
    and built: "\<And>m. mt_built (upd m) = mt_built m"
    and active: "\<And>m l. mt_active (upd m) l + (if is_active l q then 1 else 0) = mt_active m l + (if is_active l q' then 1 else 0)"
    and tallied: "\<And>m l. mt_requests (upd m) l + (if is_tallied l q then 1 else 0) = mt_requests m l + (if is_tallied l q' then 1 else 0)"
    and timed: "\<And>m l. how_many (\<lambda>d. fst d = l) (mt_duration (upd m)) + (if is_timed l q then 1 else 0)
      = how_many (\<lambda>d. fst d = l) (mt_duration m) + (if is_timed l q' then 1 else 0)"
  shows "traffic_inv meter m0 (advance i q' s f)"
proof -
  let ?m = "st_metrics (tf_site f)" and ?g = "advance i q' s f"
  have m: "st_metrics s = resolved meter upd ?m" using resolve_returns [of meter global upd "tf_site f"] call by auto
  have b: "(case mt_built ?m of Some b \<Rightarrow> b | None \<Rightarrow> instruments_ok meter) = instruments_ok meter"
    using inv by (auto simp: traffic_inv_def Let_def)
  show ?thesis
  proof (cases "instruments_ok meter")
    case True
    then have r: "st_metrics (tf_site ?g) = upd (?m\<lparr>mt_built := Some True\<rparr>)"
      using m b by (simp add: resolved_def advance_def)
    let ?n = "?m\<lparr>mt_built := Some True\<rparr>"
    have now: "mt_active ?n l = mt_active m0 l + int (how_many (is_active l) (tf_requests f))" for l
      using inv True by (simp add: traffic_inv_def Let_def del: split_paired_All)
    have past: "mt_requests ?n l = mt_requests m0 l + how_many (is_tallied l) (tf_requests f)"
      "how_many (\<lambda>d. fst d = l) (mt_duration ?n) = how_many (\<lambda>d. fst d = l) (mt_duration m0) + how_many (is_timed l) (tf_requests f)" for l
      using inv True by (simp_all add: traffic_inv_def Let_def del: split_paired_All)
    have "mt_active (upd ?n) l = mt_active m0 l + int (how_many (is_active l) (tf_requests ?g))" for l
      using active [of ?n l] now [of l] how_many_advance [OF at, of "is_active l" q' s] by (simp split: if_splits)
    moreover have "mt_requests (upd ?n) l = mt_requests m0 l + how_many (is_tallied l) (tf_requests ?g)" for l
      using tallied [of ?n l] past(1) [of l] how_many_advance [OF at, of "is_tallied l" q' s] by (simp split: if_splits)
    moreover have "how_many (\<lambda>d. fst d = l) (mt_duration (upd ?n))
        = how_many (\<lambda>d. fst d = l) (mt_duration m0) + how_many (is_timed l) (tf_requests ?g)" for l
      using timed [of l ?n] past(2) [of l] how_many_advance [OF at, of "is_timed l" q' s] by (simp split: if_splits)
    ultimately show ?thesis using True r built by (simp add: traffic_inv_def Let_def)
  next
    case False
    then have "st_metrics (tf_site ?g) = ?m\<lparr>mt_built := Some False\<rparr>" using m b by (simp add: resolved_def advance_def)
    then show ?thesis using inv False by (simp add: traffic_inv_def Let_def)
  qed
qed

lemma traffic_inv_step:
  assumes "traffic_step meter global f g" and "traffic_inv meter m0 f"
  shows "traffic_inv meter m0 g"
  using assms
proof (induction rule: traffic_step.induct)
  case (arrive route f j s meth)
  then have "st_metrics s = st_metrics (tf_site f)" by (auto simp: new_recorder_def ret_def)
  then show ?case using arrive.prems by (simp add: traffic_inv_def Let_def)
next
  case (enter f i meth route j s)
  show ?case
    by (rule traffic_inv_call [OF enter.prems enter.hyps(1) enter.hyps(2)[unfolded increment_active_requests_def]]) auto
next
  case (work s f)
  then show ?case by (simp add: traffic_inv_def)
next
  case (leave f i meth route j start s)
  show ?case
    by (rule traffic_inv_call [OF leave.prems leave.hyps(1) leave.hyps(2)[unfolded decrement_active_requests_def]]) auto
next
  case (tally f i meth route j start status s)
  show ?case
    by (rule traffic_inv_call [OF tally.prems tally.hyps(1) tally.hyps(3)[unfolded increment_traffic_def]]) auto
next
  case (observe f i meth route status start s)
  show ?case
    by (rule traffic_inv_call [OF observe.prems observe.hyps(1) observe.hyps(2)[unfolded monitor_latency_def observe_latency_def]]) auto
qed


lemma traffic_inv_run: "traffic_run meter global f g \<Longrightarrow> traffic_inv meter m0 f \<Longrightarrow> traffic_inv meter m0 g"
  by (induction rule: traffic_run.induct) (auto dest: traffic_inv_step)

lemma traffic_run_append: "traffic_run meter global g h \<Longrightarrow> traffic_run meter global f g \<Longrightarrow> traffic_run meter global f h"
  by (induction rule: traffic_run.induct) (auto intro: traffic_trans)

section \<open>MetricsMonitor makes these steps\<close>

text \<open>A request that is served alone, by a handler that leaves the instruments alone and returns or panics.\<close>

lemma monitor_is_traffic:
  assumes run: "metrics_monitor meter global chi h w r s = (x, t)"
    and route: "\<not> is_ignored_route (get_route_pattern chi r)"
    and h: "\<And>w u y v. h w r u = (y, v) \<Longrightarrow> st_metrics v = st_metrics u"
  shows "\<exists>c. traffic_run meter global \<lparr>tf_site = s, tf_requests = qs\<rparr>
    \<lparr>tf_site = t, tf_requests = qs @ [(ar_method r, get_route_pattern chi r, Finished c)]\<rparr>"
proof -
  let ?m = "ar_method r" and ?route = "get_route_pattern chi r" and ?i = "length qs"
  obtain j s1 where s1: "new_recorder s = (Ret j, s1)" by (simp add: new_recorder_def ret_def)
  obtain s2 where s2: "increment_active_requests meter global ?m ?route s1 = (Ret (), s2)"
    using resolve_returns unfolding increment_active_requests_def by blast
  obtain y s3 where s3: "h (status_recorder j w) r s2 = (y, s3)" by fastforce
  obtain s4 where s4: "decrement_active_requests meter global ?m ?route s3 = (Ret (), s4)"
    using resolve_returns unfolding decrement_active_requests_def by blast
  define c where "c = rec_status (st_recorders s4 ! j)"
  obtain s5 where s5: "increment_traffic meter global ?m ?route c s4 = (Ret (), s5)"
    using resolve_returns unfolding increment_traffic_def by blast
  obtain s6 where s6: "monitor_latency meter global ?m ?route c (st_clock s2) s5 = (Ret (), s6)"
    using resolve_returns unfolding monitor_latency_def observe_latency_def by blast
  have after: "monitor_after meter global ?m ?route j (st_clock s2) s3 = (Ret (), s6)"
    using s4 s5 s6 by (simp add: monitor_after_def bind_act_def c_def Let_def)
  have t: "t = s6"
    using run s1 s2 s3 route after
    by (simp add: metrics_monitor_def bind_act_def monitored_def deferred_def Let_def split: prod.splits)
  let ?f = "\<lambda>s q. \<lparr>tf_site = s, tf_requests = qs @ [(?m, ?route, q)]\<rparr>"
  have at: "at_stage (?f u q) ?i (?m, ?route, q)" and adv: "advance ?i (?m, ?route, q') v (?f u q) = ?f v q'" for u v q q'
    by (simp_all add: at_stage_def advance_def)
  have step: "traffic_step meter global \<lparr>tf_site = s, tf_requests = qs\<rparr> (?f s1 (Arrived j))"
    using traffic_step.arrive [OF route, of "\<lparr>tf_site = s, tf_requests = qs\<rparr>" j s1 meter global ?m] s1 by simp
  have "traffic_step meter global (?f s1 (Arrived j)) (?f s2 (Serving j (st_clock s2)))"
    using traffic_step.enter [OF at, where meter = meter and global = global and s = s2] s2 by (simp add: adv)
  moreover have "traffic_step meter global (?f s2 (Serving j (st_clock s2))) (?f s3 (Serving j (st_clock s2)))"
    using traffic_step.work [of s3 "?f s2 (Serving j (st_clock s2))" meter global] h [OF s3] by simp
  moreover have "traffic_step meter global (?f s3 (Serving j (st_clock s2))) (?f s4 (Leaving j (st_clock s2)))"
    using traffic_step.leave [OF at, where meter = meter and global = global and s = s4] s4 by (simp add: adv)
  moreover have "traffic_step meter global (?f s4 (Leaving j (st_clock s2))) (?f s5 (Tallied c (st_clock s2)))"
    using traffic_step.tally [OF at, where meter = meter and global = global and s = s5 and status = c] s5 by (simp add: adv c_def)
  moreover have "traffic_step meter global (?f s5 (Tallied c (st_clock s2))) (?f s6 (Finished c))"
    using traffic_step.observe [OF at, where meter = meter and global = global and s = s6] s6 by (simp add: adv)
  ultimately have "traffic_run meter global \<lparr>tf_site = s, tf_requests = qs\<rparr> (?f s6 (Finished c))"
    using traffic_run.intros step by meson
  then show ?thesis unfolding t by blast
qed


text \<open>A request that has arrived and is served.\<close>

lemma one_more:
  assumes "\<not> is_ignored_route route"
  shows "\<exists>s j start. traffic_run meter global f \<lparr>tf_site = s, tf_requests = tf_requests f @ [(meth, route, Serving j start)]\<rparr>"
proof -
  obtain j s1 where s1: "new_recorder (tf_site f) = (Ret j, s1)" by (simp add: new_recorder_def ret_def)
  let ?g = "\<lparr>tf_site = s1, tf_requests = tf_requests f @ [(meth, route, Arrived j)]\<rparr>"
  obtain s2 where s2: "increment_active_requests meter global meth route s1 = (Ret (), s2)"
    using resolve_returns unfolding increment_active_requests_def by blast
  have "at_stage ?g (length (tf_requests f)) (meth, route, Arrived j)" by (simp add: at_stage_def)
  from traffic_step.enter [OF this, where meter = meter and global = global and s = s2]
  have "traffic_step meter global ?g \<lparr>tf_site = s2, tf_requests = tf_requests f @ [(meth, route, Serving j (st_clock s2))]\<rparr>"
    using s2 by (simp add: advance_def)
  moreover have "traffic_step meter global f ?g" using traffic_step.arrive [OF assms s1] .
  ultimately show ?thesis using traffic_run.intros by meson
qed


end
