(* ===== verification/Spec2Isabelle.thy ===== *)
theory Spec2Isabelle
  imports Entries Server Validation Requests Send_Props Service Tx Store_Ops Db_Values Pool Serving Crypto
    Release_Age Lint_Props Lint_Main Process Flatten Doubles Test_Case Error_Programs
    Retried Audit_Workers Bodies In_Flight
begin

text \<open>
  A verification library for garlic, a Go library for web services: classified errors that cross
  services, a REST server, an HTTP client, a database store, and the small packages around them.

  \<^bold>\<open>The program and its theories.\<close> The packages build on \<open>errors/\<close>, and so do the theories.

  \<^item> \<open>Prelude\<close>, \<open>Strings\<close>: the result of a Go call (a value or a panic), actions that thread a state,
    and the functions of Go's \<open>strings\<close>, \<open>strconv\<close> and \<open>fmt\<close> that the code calls.
  \<^item> \<open>Kinds\<close>, \<open>Registry\<close>: error kinds and the global registry (\<open>errors/kind.go\<close>, \<open>status.go\<close>,
    \<open>common.go\<close>, and the kinds other packages register). A kind is a value, because the code never
    writes to one it has built. The registry is two maps; \<open>Registry.startup_registers_all_kinds\<close>
    runs every \<open>init\<close> of the repository, in any order of the Go map it ranges over.
  \<^item> \<open>Heap\<close>, \<open>Errors\<close>, \<open>Options\<close>, \<open>Propagation\<close>, \<open>Entries\<close>, \<open>Dto\<close>: error values
    (\<open>errors/errors.go\<close>, \<open>field.go\<close>, \<open>set.go\<close>, \<open>context.go\<close>, \<open>hint.go\<close>, \<open>details.go\<close>, \<open>revtrace.go\<close>,
    \<open>stacktrace.go\<close>, \<open>template.go\<close>, \<open>utils.go\<close>, \<open>dto.go\<close>). Propagating shares maps and slices
    between errors, so the mutable parts live in a \<open>world\<close> of cells, maps and arrays by address, with
    Go's rule for \<open>append\<close>. \<open>Options\<close> states what an option may change as a locale, interpreted on
    every option of the package.
  \<^item> \<open>Contexts\<close>, \<open>Calls\<close>: the values a \<open>context.Context\<close> carries (\<open>logging/context.go\<close>,
    \<open>tracing/tracing.go\<close>, \<open>request/logging.go\<close>, \<open>request/tracing.go\<close>) and the reasoning about code
    that reports errors: \<open>runs w m Q\<close> says that a call returns, extends the world, and ends in \<open>Q\<close>.
    \<open>Error_Programs\<close>: any sequence of the package's calls, with the kinds its text gives the results.
  \<^item> \<open>Http\<close>, \<open>Rest\<close>, \<open>Rest_Props\<close>, \<open>Server\<close>: header maps and the writer of \<open>net/http\<close>; responses,
    routes and unrouted requests (\<open>rest/response.go\<close>, \<open>route.go\<close>, \<open>unrouted.go\<close>); named servers and
    \<open>Listen\<close> as a step relation over its two goroutines (\<open>rest/server.go\<close>).
  \<^item> \<open>Validation\<close>, \<open>Requests\<close>: the validator (\<open>validator/\<close>) and the parsing of parameters and forms
    (\<open>request/requests.go\<close>, \<open>parser.go\<close>).
  \<^item> \<open>Base64\<close>, \<open>Retry\<close>, \<open>Client\<close>, \<open>Send\<close>, \<open>Send_Props\<close>, \<open>Responses\<close>, \<open>Decode_Error\<close>, \<open>Wire\<close>: the HTTP
    client (\<open>httpclient/\<close>): retry policy and backoff on wrapping 64-bit integers, building and sending
    a request with its retry loop, capturing and decoding responses; and the composition of a server
    that answers an error with a client that decodes it. \<open>Upload\<close>: the goroutine that writes a multipart
    body into a pipe, as a step relation with the transport that reads it; \<open>Bodies\<close>: who closes a body.
  \<^item> \<open>Tx\<close>, \<open>Store_Ops\<close>, \<open>Db_Values\<close>: transactions (\<open>database/transaction.go\<close>, \<open>storer.go\<close>), the store
    operations (\<open>database/database.go\<close>), and filters, patches, string arrays and configuration
    (\<open>filter.go\<close>, \<open>utils/\<close>, \<open>config.go\<close>).
  \<^item> \<open>Monitoring\<close>, \<open>Middleware\<close>, \<open>Gauge\<close>, \<open>Middleware_Props\<close>: metrics (\<open>monitoring/monitoring.go\<close>)
    and the middlewares (\<open>middleware/\<close>) as transformers of handlers over the interface of a response
    writer, with their recorders and deferred functions. \<open>In_Flight\<close>: many monitored requests at once, their calls
    of the instruments interleaved in any order. \<open>Serving\<close> composes the recommended stack with
    the handler of a route, registered by \<open>RegisterApp\<close>, and follows an error from the route to the client,
    the metrics and the log; \<open>Service\<close> adds the client that decodes the answer, \<open>Retried\<close> the
    client that asks again.
  \<^item> \<open>Process\<close>: what a process sets up once: the global logger (\<open>logging/config.go\<close>, \<open>logging.go\<close>,
    \<open>keyvals/\<close>), the exporter of metrics (\<open>observability/\<close>), its version (\<open>global/\<close>), and the output of
    \<open>debug/\<close>. \<open>Flatten\<close>: structs as flat maps (\<open>utils/flatten.go\<close>) and values that may be nil
    (\<open>toolkit/\<close>).
  \<^item> \<open>Crypto\<close>: encryption (\<open>crypto/\<close>) over AES-GCM and HKDF as arguments.
  \<^item> \<open>Pool\<close>: the worker pool (\<open>worker/pool.go\<close>) as a step relation.
  \<^item> \<open>Release_Age\<close>, \<open>Audit_Workers\<close>, \<open>Unit_Tags\<close>: the release-age check of \<open>hack/\<close>, with its goroutines,
    their channel and their mutex as a step relation, and the analyzer of unit build tags of
    \<open>internal/garliclint/\<close>.
  \<^item> \<open>Lint_Ast\<close>, \<open>Lint_Types\<close>, \<open>Lint_Rules\<close>, \<open>Lint_Props\<close>: the other analyzers of
    \<open>internal/garliclint/\<close>, as functions from a package (syntax trees, and what \<open>go/types\<close> answers about
    them) to its reports; the reports of the propagation and write-error analyzers in terms of the tree.
    \<open>Lint_Main\<close>: the shipped set of analyzers and the command (\<open>analyzers.go\<close>, \<open>cmd/garliclint\<close>).
  \<^item> \<open>Doubles\<close>: the doubles for tests (\<open>database/mock.go\<close>, \<open>httpclient/mock.go\<close>, \<open>crypto/mock.go\<close>); the
    doubled client runs through the send loop of \<open>Send\<close>. \<open>Test_Case\<close>: the test case of a handler
    (\<open>test/test.go\<close>), which runs it on the writer of \<open>Serving\<close>.

  \<^bold>\<open>What the groups of lemmas show.\<close> Classification: a propagated, decoded or reported error has the
  kind and the status it should, through any chain of calls (\<open>Propagation\<close>, \<open>Calls\<close>, \<open>Store_Ops\<close>,
  \<open>Requests\<close>, \<open>Decode_Error\<close>). Memory: what each operation on an error leaves alone, and the two ways
  in which sharing shows (\<open>Options\<close>, \<open>Propagation\<close>). Secrecy: what of a system error reaches a client
  (\<open>Rest_Props\<close>, \<open>Wire\<close>). Atomicity: a transaction, and any sequence of store calls in one, happens as
  a whole or not at all (\<open>Tx\<close>, \<open>Store_Ops\<close>). The client sends at most one request more than its
  configured retries, each with the body and headers of the first, and never repeats a request it
  may not (\<open>Send_Props\<close>). Concurrency: the invariants of the server, of the worker pool, of the audit's
  workers and of the requests in flight hold in every reachable state; the pool drains; an upload
  through the pipe arrives whole or fails. Balance: no stack of middlewares loses or invents a request
  in flight (\<open>Gauge\<close>). Round trips: DTOs, base64, encrypted texts, request ids, string arrays.

  \<^bold>\<open>Interfaces.\<close> Where one part relies on another, the contract is a locale: \<open>garlic_opt\<close> (options),
  \<open>kind_source\<close> (the registry a decoder asks), \<open>replay_contract\<close> (bodies a retry sends again),
  \<open>store_contract\<close> (what a transaction needs of its store), \<open>gauge_keeper\<close> (middlewares), \<open>recording\<close>
  (recorders around a writer), \<open>retry_contract\<close> (what a retry policy promises the send loop). Each is interpreted on the model's own definitions.

  \<^bold>\<open>Loops.\<close> Every loop of the code is structural recursion here or recursion on a count the code
  bounds: the retry loop on the retries left, the walk over a chain of causes on the chain, scanning
  on the bytes left. No fuel is used, and every function is total.

  \<^bold>\<open>Environment.\<close> What is not under \<open>src/\<close> is an argument: the JSON, YAML, URL, uuid and date parsers,
  the validator's tag engine, the chi router's context, the SQL driver, the transport, the primitives
  of \<open>crypto\<close>, the OpenTelemetry meter, the clock and random numbers. A theorem that needs one to
  behave says so in a hypothesis, and has a witness on a concrete instance.

  \<^bold>\<open>Not modelled.\<close> What only renames third-party functions (\<open>logging/aliases.go\<close>, \<open>rest/aliases.go\<close>); the
  inside of those third parties, which are arguments: zap, chi, sqlx and pgx, OpenTelemetry, the
  drivers of the linter. The breakpoint of \<open>debug/dlv.go\<close>; what the release-age
  check prints, other than its exit code. The \<open>doc.go\<close> files hold comments. Data races between
  goroutines that share an error are outside the model, which runs one goroutine's calls in sequence
  except in \<open>Server\<close>, \<open>Pool\<close>, \<open>Audit_Workers\<close>, \<open>Upload\<close> and \<open>In_Flight\<close>.
\<close>

end
